theory Spec2Isabelle
  imports Main "HOL-Library.Word"
begin

unbundle bit_operations_syntax

chapter \<open>A shallow embedding of the P-ISA functional modeler\<close>

text \<open>
  The definitions below follow the C++ sources of the P-ISA tools: the modular arithmetic
  kernel and the per-opcode executors of \<^verbatim>\<open>PISAFunctionalModel\<close>, the register file
  \<^verbatim>\<open>PISAMemoryModel\<close>, the operand and instruction classes with their CSV printer and
  parser, the flat-vector mapping of \<^verbatim>\<open>PISAProgramRuntime\<close>, the memory dump and load
  routines, and the dependency graph with its layer peel.

  Conventions.
  \<^item> The lane type \<^verbatim>\<open>T\<close> is \<^verbatim>\<open>uint32_t\<close> (\<^verbatim>\<open>DATA_TYPE\<close> in \<^verbatim>\<open>main.cpp\<close>): a \<open>32 word\<close>.
    \<^verbatim>\<open>uint64_t\<close> is a \<open>64 word\<close>, \<^verbatim>\<open>int\<close> a \<open>32 word\<close> read with \<open>sint\<close>.
  \<^item> Exceptions are values of the type \<open>error\<close>; a function that can throw returns
    \<open>error + 'a\<close> with \<open>Inl\<close> for the exception.
  \<^item> Operations whose behaviour C++ leaves undefined (indexing a \<^verbatim>\<open>std::vector\<close> out of
    range, \<^verbatim>\<open>%\<close> by zero) are the error \<open>UndefinedBehaviour\<close>, so that no theorem
    depends on what they return.
  \<^item> Members that a constructor leaves uninitialised take their value from an explicit
    parameter (named \<open>fresh\<close>), so that no theorem depends on them either.
  \<^item> The \<^verbatim>\<open>#pragma omp parallel for\<close> loops are modelled by their sequential execution.
\<close>

section \<open>Definitions\<close>

subsection \<open>Machine types and errors\<close>

type_synonym u32 = "32 word"
type_synonym u64 = "64 word"
type_synonym cint = "32 word"

datatype error =
    RuntimeError string
  | LogicError string
  | OutOfRange
  | InvalidArgument
  | UndefinedBehaviour
  | Terminate

subsection \<open>Modular arithmetic kernel (\<^verbatim>\<open>p_isa_functional_model.h\<close>, lines 290--335)\<close>

text \<open>
  The \<^verbatim>\<open>use_mont\<close> branch of \<^verbatim>\<open>montgomeryMul\<close>. The product of the operands and the
  reduction are computed in \<^verbatim>\<open>uint64_t\<close>; \<^verbatim>\<open>modulus - 2\<close> is computed in \<^verbatim>\<open>uint32_t\<close> and
  then widened; \<^verbatim>\<open>std::numeric_limits<uint>::max()\<close> is \<open>0xFFFFFFFF\<close>; the result is
  narrowed to \<^verbatim>\<open>T\<close> on return.
\<close>

definition montgomeryMul_mont :: "u32 \<Rightarrow> u32 \<Rightarrow> u32 \<Rightarrow> u32" where
  "montgomeryMul_mont a b modulus =
     (let u = (ucast a :: u64) * (ucast b :: u64);
          k = (ucast (modulus - 2) :: u64);
          t = u AND 0xFFFFFFFF;
          m = (t * k) AND 0xFFFFFFFF;
          u = u + m * ucast modulus;
          u = drop_bit 32 u;
          u = u - (if ucast modulus \<le> u then ucast modulus else 0)
      in ucast u)"

text \<open>
  \<^verbatim>\<open>montgomeryMul(a, b, modulus, use_mont)\<close>. The fallback \<^verbatim>\<open>a * b % modulus\<close> is computed
  in \<^verbatim>\<open>uint32_t\<close>; the remainder by zero is undefined.
\<close>

definition montgomeryMul :: "u32 \<Rightarrow> u32 \<Rightarrow> u32 \<Rightarrow> bool \<Rightarrow> error + u32" where
  "montgomeryMul a b modulus use_mont =
     (if use_mont then Inr (montgomeryMul_mont a b modulus)
      else if modulus = 0 then Inl UndefinedBehaviour
      else Inr ((a * b) mod modulus))"

text \<open>
  The \<^verbatim>\<open>use_mont\<close> branch of \<^verbatim>\<open>montgomeryAdd\<close>, built without \<^verbatim>\<open>DEBUG\<close>. The sum
  \<^verbatim>\<open>a + b\<close> is computed in \<^verbatim>\<open>uint32_t\<close> (it wraps) before it is widened.
\<close>

definition montgomeryAdd_mont :: "u32 \<Rightarrow> u32 \<Rightarrow> u32 \<Rightarrow> u32" where
  "montgomeryAdd_mont a b modulus =
     (let u = (ucast (a + b) :: u64);
          u = (if u < ucast modulus then u else u - ucast modulus)
      in ucast u)"

text \<open>
  \<^verbatim>\<open>montgomeryAdd(a, b, modulus, use_mont)\<close>. The fallback is the C++ expression
  \<^verbatim>\<open>a + b % modulus\<close>, in which \<^verbatim>\<open>%\<close> binds tighter than \<^verbatim>\<open>+\<close>.
\<close>

definition montgomeryAdd :: "u32 \<Rightarrow> u32 \<Rightarrow> u32 \<Rightarrow> bool \<Rightarrow> error + u32" where
  "montgomeryAdd a b modulus use_mont =
     (if use_mont then Inr (montgomeryAdd_mont a b modulus)
      else if modulus = 0 then Inl UndefinedBehaviour
      else Inr (a + (b mod modulus)))"

text \<open>
  The reference of the specification: the Montgomery product \<open>a \<cdot> b \<cdot> R\<^sup>-\<^sup>1 mod q\<close> with
  \<open>R = 2\<^sup>3\<^sup>2\<close>, for a number \<open>rinv\<close> that is an inverse of \<open>R\<close> modulo \<open>q\<close>.
\<close>

definition is_R_inverse :: "nat \<Rightarrow> nat \<Rightarrow> bool" where
  "is_R_inverse q rinv \<longleftrightarrow> (rinv * 2 ^ 32) mod q = 1 mod q"

definition montgomery_reference :: "nat \<Rightarrow> nat \<Rightarrow> nat \<Rightarrow> nat \<Rightarrow> nat" where
  "montgomery_reference a b rinv q = (a * b * rinv) mod q"

text \<open>The reduction of \<open>montgomeryMul_mont\<close> on natural numbers (a proof device).\<close>

definition mont_nat :: "nat \<Rightarrow> nat \<Rightarrow> nat \<Rightarrow> nat" where
  "mont_nat A B Q =
     (let u = A * B;
          k = (Q + 2 ^ 32 - 2) mod 2 ^ 32;
          m = ((u mod 2 ^ 32) * k) mod 2 ^ 32;
          u' = (u + m * Q) div 2 ^ 32
      in if Q \<le> u' then u' - Q else u')"

subsection \<open>Decimal text (\<^verbatim>\<open>operator<<\<close>, \<^verbatim>\<open>std::to_string\<close>, \<^verbatim>\<open>std::stoi\<close>)\<close>

definition digit_char :: "nat \<Rightarrow> char" where
  "digit_char d = ''0123456789'' ! d"

definition is_digit :: "char \<Rightarrow> bool" where
  "is_digit c \<longleftrightarrow> c \<in> set ''0123456789''"

definition digit_val :: "char \<Rightarrow> nat" where
  "digit_val c = of_char c - 48"

text \<open>\<^verbatim>\<open>isspace\<close> in the C locale.\<close>

definition isspace :: "char \<Rightarrow> bool" where
  "isspace c \<longleftrightarrow> c \<in> {CHR '' '', CHR 0x09, CHR 0x0A, CHR 0x0B, CHR 0x0C, CHR 0x0D}"

text \<open>The decimal digits of a natural number, most significant first.\<close>

function show_nat :: "nat \<Rightarrow> string" where
  "show_nat n = (if n < 10 then [digit_char n] else show_nat (n div 10) @ [digit_char (n mod 10)])"
  by pat_completeness auto
termination
  by (relation "measure id") auto

declare show_nat.simps [simp del]

text \<open>
  What \<^verbatim>\<open>stream << v\<close> and \<^verbatim>\<open>std::to_string(v)\<close> write for an integer \<open>v\<close>: a minus sign
  for a negative value, then the decimal digits.
\<close>

definition show_int :: "int \<Rightarrow> string" where
  "show_int i = (if i < 0 then CHR ''-'' # show_nat (nat (- i)) else show_nat (nat i))"

definition nat_of_digits :: "string \<Rightarrow> nat" where
  "nat_of_digits ds = foldl (\<lambda>acc c. 10 * acc + digit_val c) 0 ds"

text \<open>
  \<^verbatim>\<open>std::stoi(s)\<close>: skips leading white space, accepts one sign, reads the longest run of
  decimal digits and ignores what follows; throws \<^verbatim>\<open>std::invalid_argument\<close> when there is
  no digit and \<^verbatim>\<open>std::out_of_range\<close> when the value does not fit an \<^verbatim>\<open>int\<close>.
\<close>

definition stoi :: "string \<Rightarrow> error + int" where
  "stoi s =
     (let s1 = dropWhile isspace s;
          neg = (s1 \<noteq> [] \<and> hd s1 = CHR ''-'');
          s2 = (if s1 \<noteq> [] \<and> (hd s1 = CHR ''-'' \<or> hd s1 = CHR ''+'') then tl s1 else s1);
          ds = takeWhile is_digit s2;
          v = (if neg then - int (nat_of_digits ds) else int (nat_of_digits ds))
      in if ds = [] then Inl InvalidArgument
         else if v < - (2 ^ 31) \<or> 2 ^ 31 \<le> v then Inl OutOfRange
         else Inr v)"

text \<open>
  \<^verbatim>\<open>std::getline(stream, token, delim)\<close> repeated until the stream is exhausted: the
  pieces between the delimiters. A trailing delimiter does not produce a final empty
  piece, and the empty string has no piece.
\<close>

fun split_on :: "char \<Rightarrow> string \<Rightarrow> string list" where
  "split_on d [] = []"
| "split_on d (c # cs) =
     (if c = d then [] # split_on d cs
      else (case split_on d cs of [] \<Rightarrow> [[c]] | p # ps \<Rightarrow> (c # p) # ps))"

subsection \<open>Sequencing of computations that can throw\<close>

definition thenE :: "error + 'a \<Rightarrow> ('a \<Rightarrow> error + 'b) \<Rightarrow> error + 'b" where
  "thenE r f = (case r of Inl e \<Rightarrow> Inl e | Inr x \<Rightarrow> f x)"

text \<open>
  \<^verbatim>\<open>v[i]\<close> on a \<^verbatim>\<open>std::vector\<close> with an \<^verbatim>\<open>int\<close> index: the index is converted to
  \<^verbatim>\<open>size_t\<close>, so that a negative index is out of range as well.
\<close>

definition vector_at :: "'a list \<Rightarrow> cint \<Rightarrow> error + 'a" where
  "vector_at xs i =
     (if 0 \<le> sint i \<and> nat (sint i) < length xs then Inr (xs ! nat (sint i))
      else Inl UndefinedBehaviour)"

text \<open>\<^verbatim>\<open>components[n]\<close> on the vector of the pieces of a line.\<close>

definition component :: "string list \<Rightarrow> nat \<Rightarrow> error + string" where
  "component components n =
     (if n < length components then Inr (components ! n) else Inl UndefinedBehaviour)"

subsection \<open>Operands (\<^verbatim>\<open>p_isa_instruction.h\<close>, class \<^verbatim>\<open>Operand\<close>)\<close>

record Operand =
  m_location_root :: string
  m_location_index :: string
  m_location :: string
  m_bank :: cint
  m_immediate :: bool
  m_output_bank :: bool

text \<open>
  \<^verbatim>\<open>std::string::rfind(ch, pos)\<close>: the largest index \<open>i \<le> pos\<close> with \<open>s[i] = ch\<close>, or
  \<^verbatim>\<open>npos\<close>. The position arrives as an \<^verbatim>\<open>int\<close> converted to \<^verbatim>\<open>size_t\<close>: a negative
  one is larger than every index. The result goes back into an \<^verbatim>\<open>int\<close>, in which
  \<^verbatim>\<open>npos\<close> reads \<open>-1\<close>.
\<close>

fun rfind_below :: "char \<Rightarrow> string \<Rightarrow> nat \<Rightarrow> int" where
  "rfind_below c s 0 = - 1"
| "rfind_below c s (Suc n) = (if s ! n = c then int n else rfind_below c s n)"

definition rfind :: "char \<Rightarrow> string \<Rightarrow> int \<Rightarrow> int" where
  "rfind c s pos =
     rfind_below c s (if pos < 0 \<or> int (length s) \<le> pos then length s else nat pos + 1)"

text \<open>
  \<^verbatim>\<open>Operand::splitLocation\<close>. The loop runs once per underscore of the location, each
  time moving \<open>size\<close> to just before the last underscore at or before \<open>size\<close>.
  \<^verbatim>\<open>substr(0, size)\<close> and \<^verbatim>\<open>substr(size, location.size())\<close> are \<open>take\<close> and \<open>drop\<close>;
  \<^verbatim>\<open>substr\<close> throws only for a start beyond the end of the string, which lemma
  \<open>splitLocation_size\<close> excludes.
\<close>

definition splitLocation_size :: "string \<Rightarrow> int" where
  "splitLocation_size location =
     ((\<lambda>size. rfind (CHR ''_'') location size - 1) ^^ count_list location (CHR ''_''))
        (int (length location)) + 1"

definition splitLocation :: "string \<Rightarrow> string \<times> string" where
  "splitLocation location =
     (if count_list location (CHR ''_'') = 0 then (location, [])
      else (take (nat (splitLocation_size location)) location,
            drop (nat (splitLocation_size location)) location))"

definition setLocation :: "string \<Rightarrow> Operand \<Rightarrow> Operand" where
  "setLocation newLocation op =
     (case splitLocation newLocation of (root, index) \<Rightarrow>
        op\<lparr>m_location_root := root, m_location_index := index, m_location := root @ index\<rparr>)"

text \<open>
  The constructors. \<^verbatim>\<open>Operand(location, immediate)\<close> initialises neither the bank nor
  the root and index (the strings are empty); \<^verbatim>\<open>Operand(name, bank)\<close> goes through
  \<^verbatim>\<open>setLocation\<close>. \<open>fresh_bank\<close> is the value the uninitialised \<^verbatim>\<open>m_bank\<close> holds.
\<close>

definition Operand_immediate :: "cint \<Rightarrow> string \<Rightarrow> bool \<Rightarrow> Operand" where
  "Operand_immediate fresh_bank location immediate =
     \<lparr>m_location_root = [], m_location_index = [], m_location = location,
      m_bank = fresh_bank, m_immediate = immediate, m_output_bank = True\<rparr>"

definition Operand_bank :: "string \<Rightarrow> cint \<Rightarrow> Operand" where
  "Operand_bank name bank =
     setLocation name
       \<lparr>m_location_root = [], m_location_index = [], m_location = [],
        m_bank = bank, m_immediate = False, m_output_bank = True\<rparr>"

subsection \<open>Instructions (\<^verbatim>\<open>p_isa_instruction.h\<close>, \<^verbatim>\<open>p_isa_instructions.h\<close>)\<close>

datatype PARAM_TYPE =
    OP_NAME
  | INPUT_OPERAND
  | OUTPUT_OPERAND
  | INPUT_OUTPUT_OPERAND
  | POLYMOD_DEG_LOG2
  | RESIDUAL
  | W_PACKED_PARAM
  | IMMEDIATE
  | GROUP_ID
  | STAGE
  | BLOCK
  | GALOIS_ELEMENT
  | ADDITIONAL_PARAMS

record WParam =
  wp_residual :: cint
  wp_stage :: cint
  wp_block :: cint

record PISAInstruction =
  m_pmd_log2 :: cint
  m_operation_name :: string
  m_input_operands :: "Operand list"
  m_output_operands :: "Operand list"
  m_w_param :: WParam
  m_residual :: cint
  m_group_id :: cint
  m_stage :: cint
  m_galois_element :: cint
  m_block :: cint
  m_output_block :: bool
  m_description :: "PARAM_TYPE list"

text \<open>
  \<^verbatim>\<open>getInputOperand(n)\<close> and \<^verbatim>\<open>getOutputOperand(n)\<close> copy the instruction's
  \<^verbatim>\<open>m_output_block\<close> flag into the operand before returning it.
\<close>

definition getInputOperand :: "PISAInstruction \<Rightarrow> nat \<Rightarrow> error + Operand" where
  "getInputOperand instr n =
     (if n < length (m_input_operands instr)
      then Inr ((m_input_operands instr ! n)\<lparr>m_output_bank := m_output_block instr\<rparr>)
      else Inl UndefinedBehaviour)"

definition getOutputOperand :: "PISAInstruction \<Rightarrow> nat \<Rightarrow> error + Operand" where
  "getOutputOperand instr n =
     (if n < length (m_output_operands instr)
      then Inr ((m_output_operands instr ! n)\<lparr>m_output_bank := m_output_block instr\<rparr>)
      else Inl UndefinedBehaviour)"

definition description_Add :: "PARAM_TYPE list" where
  "description_Add =
     [POLYMOD_DEG_LOG2, OP_NAME, OUTPUT_OPERAND, INPUT_OPERAND, INPUT_OPERAND, RESIDUAL]"

definition description_Sub :: "PARAM_TYPE list" where
  "description_Sub =
     [POLYMOD_DEG_LOG2, OP_NAME, OUTPUT_OPERAND, INPUT_OPERAND, INPUT_OPERAND, RESIDUAL]"

definition description_Mul :: "PARAM_TYPE list" where
  "description_Mul =
     [POLYMOD_DEG_LOG2, OP_NAME, OUTPUT_OPERAND, INPUT_OPERAND, INPUT_OPERAND, RESIDUAL]"

definition description_Mac :: "PARAM_TYPE list" where
  "description_Mac =
     [POLYMOD_DEG_LOG2, OP_NAME, INPUT_OUTPUT_OPERAND, INPUT_OPERAND, INPUT_OPERAND, RESIDUAL]"

definition description_Maci :: "PARAM_TYPE list" where
  "description_Maci =
     [POLYMOD_DEG_LOG2, OP_NAME, INPUT_OUTPUT_OPERAND, INPUT_OPERAND, IMMEDIATE, RESIDUAL]"

definition description_Intt :: "PARAM_TYPE list" where
  "description_Intt =
     [POLYMOD_DEG_LOG2, OP_NAME, OUTPUT_OPERAND, OUTPUT_OPERAND, INPUT_OPERAND, INPUT_OPERAND,
      W_PACKED_PARAM, RESIDUAL, GALOIS_ELEMENT]"

definition description_Ntt :: "PARAM_TYPE list" where
  "description_Ntt =
     [POLYMOD_DEG_LOG2, OP_NAME, OUTPUT_OPERAND, OUTPUT_OPERAND, INPUT_OPERAND, INPUT_OPERAND,
      W_PACKED_PARAM, RESIDUAL]"

definition description_Muli :: "PARAM_TYPE list" where
  "description_Muli =
     [POLYMOD_DEG_LOG2, OP_NAME, OUTPUT_OPERAND, INPUT_OPERAND, IMMEDIATE, RESIDUAL]"

definition description_Copy :: "PARAM_TYPE list" where
  "description_Copy = [POLYMOD_DEG_LOG2, OP_NAME, OUTPUT_OPERAND, INPUT_OPERAND]"

text \<open>
  The default constructors \<^verbatim>\<open>Add()\<close>, ..., \<^verbatim>\<open>Copy()\<close>: name and description are set,
  the operand lists are empty, \<^verbatim>\<open>Intt()\<close> sets the Galois element to 1 and \<^verbatim>\<open>Copy()\<close> the
  residual to 0. Every other member is uninitialised and keeps the value it has in
  \<open>fresh\<close>.
\<close>

definition PISAInstruction_init :: "PISAInstruction \<Rightarrow> string \<Rightarrow> PARAM_TYPE list \<Rightarrow> PISAInstruction" where
  "PISAInstruction_init fresh name desc =
     fresh\<lparr>m_operation_name := name, m_description := desc,
           m_input_operands := [], m_output_operands := []\<rparr>"

definition Add_init :: "PISAInstruction \<Rightarrow> PISAInstruction" where
  "Add_init fresh = PISAInstruction_init fresh ''add'' description_Add"

definition Sub_init :: "PISAInstruction \<Rightarrow> PISAInstruction" where
  "Sub_init fresh = PISAInstruction_init fresh ''sub'' description_Sub"

definition Mul_init :: "PISAInstruction \<Rightarrow> PISAInstruction" where
  "Mul_init fresh = PISAInstruction_init fresh ''mul'' description_Mul"

definition Mac_init :: "PISAInstruction \<Rightarrow> PISAInstruction" where
  "Mac_init fresh = PISAInstruction_init fresh ''mac'' description_Mac"

definition Maci_init :: "PISAInstruction \<Rightarrow> PISAInstruction" where
  "Maci_init fresh = PISAInstruction_init fresh ''maci'' description_Maci"

definition Intt_init :: "PISAInstruction \<Rightarrow> PISAInstruction" where
  "Intt_init fresh = (PISAInstruction_init fresh ''intt'' description_Intt)\<lparr>m_galois_element := 1\<rparr>"

definition Ntt_init :: "PISAInstruction \<Rightarrow> PISAInstruction" where
  "Ntt_init fresh = PISAInstruction_init fresh ''ntt'' description_Ntt"

definition Muli_init :: "PISAInstruction \<Rightarrow> PISAInstruction" where
  "Muli_init fresh = PISAInstruction_init fresh ''muli'' description_Muli"

definition Copy_init :: "PISAInstruction \<Rightarrow> PISAInstruction" where
  "Copy_init fresh = (PISAInstruction_init fresh ''copy'' description_Copy)\<lparr>m_residual := 0\<rparr>"

text \<open>The constructors with arguments, in the order in which they add the operands.\<close>

definition Add_new :: "PISAInstruction \<Rightarrow> cint \<Rightarrow> Operand \<Rightarrow> Operand \<Rightarrow> Operand \<Rightarrow> cint \<Rightarrow> PISAInstruction" where
  "Add_new fresh poly_mod output_op input_op0 input_op1 residual =
     (Add_init fresh)\<lparr>m_pmd_log2 := poly_mod, m_output_operands := [output_op],
                      m_input_operands := [input_op0, input_op1], m_residual := residual\<rparr>"

definition Mul_new :: "PISAInstruction \<Rightarrow> cint \<Rightarrow> Operand \<Rightarrow> Operand \<Rightarrow> Operand \<Rightarrow> cint \<Rightarrow> PISAInstruction" where
  "Mul_new fresh poly_mod output_op input_op0 input_op1 residual =
     (Mul_init fresh)\<lparr>m_pmd_log2 := poly_mod, m_output_operands := [output_op],
                      m_input_operands := [input_op0, input_op1], m_residual := residual\<rparr>"

definition Mac_new :: "PISAInstruction \<Rightarrow> cint \<Rightarrow> Operand \<Rightarrow> Operand \<Rightarrow> Operand \<Rightarrow> cint \<Rightarrow> PISAInstruction" where
  "Mac_new fresh poly_mod input_output_op input_op0 input_op1 residual =
     (Mac_init fresh)\<lparr>m_pmd_log2 := poly_mod, m_output_operands := [input_output_op],
                      m_input_operands := [input_output_op, input_op0, input_op1],
                      m_residual := residual\<rparr>"

definition Muli_new :: "PISAInstruction \<Rightarrow> cint \<Rightarrow> Operand \<Rightarrow> Operand \<Rightarrow> Operand \<Rightarrow> cint \<Rightarrow> PISAInstruction" where
  "Muli_new fresh poly_mod output_op input_op0 input_op1 residual =
     (Muli_init fresh)\<lparr>m_pmd_log2 := poly_mod, m_output_operands := [output_op],
                       m_input_operands := [input_op0, input_op1\<lparr>m_immediate := True\<rparr>],
                       m_residual := residual\<rparr>"

subsection \<open>The register file (\<^verbatim>\<open>p_isa_memory_model.h\<close>, \<^verbatim>\<open>multiregister.h\<close>)\<close>

text \<open>
  A \<^verbatim>\<open>MultiRegister<T>\<close> is its vector \<^verbatim>\<open>m_data\<close>. The map \<^verbatim>\<open>m_registers\<close> holds one
  heap-allocated register per name, so a reference to a register is its name, and two
  operands alias exactly when their locations are equal.
\<close>

type_synonym MultiRegister = "u32 list"

record PISAMemoryModel =
  m_registers :: "string \<rightharpoonup> MultiRegister"
  m_register_width :: nat

text \<open>\<^verbatim>\<open>std::vector::resize(n)\<close>: truncate, or extend with zeros.\<close>

definition resize :: "nat \<Rightarrow> MultiRegister \<Rightarrow> MultiRegister" where
  "resize n xs = take n xs @ replicate (n - length xs) 0"

text \<open>The register behind a name (the empty vector for a name that is not allocated).\<close>

definition reg :: "(string \<rightharpoonup> MultiRegister) \<Rightarrow> string \<Rightarrow> MultiRegister" where
  "reg s name = (case s name of None \<Rightarrow> [] | Some v \<Rightarrow> v)"

text \<open>
  \<^verbatim>\<open>readMemory(location)\<close>: allocates \<^verbatim>\<open>new MultiRegister<T>()\<close>, the empty register, for
  an absent name, and returns a reference to the register: the new memory and the
  register's contents.
\<close>

definition readMemory :: "PISAMemoryModel \<Rightarrow> string \<Rightarrow> PISAMemoryModel \<times> MultiRegister" where
  "readMemory mem location =
     (let mem' = (if m_registers mem location = None
                  then mem\<lparr>m_registers := (m_registers mem)(location \<mapsto> [])\<rparr> else mem)
      in (mem', reg (m_registers mem') location))"

definition writeMemory :: "PISAMemoryModel \<Rightarrow> string \<Rightarrow> MultiRegister \<Rightarrow> PISAMemoryModel" where
  "writeMemory mem location v = mem\<lparr>m_registers := (m_registers mem)(location \<mapsto> v)\<rparr>"

text \<open>
  \<^verbatim>\<open>operator[](location)\<close>: allocates the empty register for an absent name, then
  resizes the register to \<^verbatim>\<open>m_register_width\<close> when its size differs. The reference it
  returns is the name.
\<close>

definition memory_index :: "PISAMemoryModel \<Rightarrow> string \<Rightarrow> PISAMemoryModel" where
  "memory_index mem location =
     (let v = (case m_registers mem location of None \<Rightarrow> [] | Some v \<Rightarrow> v) in
      if m_registers mem location = None \<or> length v \<noteq> m_register_width mem
      then mem\<lparr>m_registers := (m_registers mem)(location \<mapsto> resize (m_register_width mem) v)\<rparr>
      else mem)"

text \<open>\<^verbatim>\<open>copy(location)\<close>: throws for a name that is not allocated.\<close>

definition memory_copy :: "PISAMemoryModel \<Rightarrow> string \<Rightarrow> error + MultiRegister" where
  "memory_copy mem location =
     (case m_registers mem location of
        None \<Rightarrow> Inl (RuntimeError (''COPY ERROR: Requested unallocated memory address: '' @ location))
      | Some v \<Rightarrow> Inr v)"

subsection \<open>The functional model (\<^verbatim>\<open>p_isa_functional_model.h\<close>)\<close>

record PISAInstructionTrace =
  tr_instruction :: PISAInstruction
  tr_execution_inputs :: "MultiRegister list"
  tr_execution_result :: "MultiRegister list"

record PISAFunctionalModel =
  m_memory :: PISAMemoryModel
  m_modulus_chain :: "u32 list"
  m_twiddle_ntt :: "u32 list list"
  m_twiddle_intt :: "string \<rightharpoonup> u32 list list"
  m_multi_register_width :: nat
  m_trace_execution :: bool
  m_execution_trace :: "PISAInstructionTrace list"

text \<open>
  The constructor: the register width of the model is the constant 8192, and the
  memory model receives the same width.
\<close>

definition PISAFunctionalModel_init :: PISAFunctionalModel where
  "PISAFunctionalModel_init =
     \<lparr>m_memory = \<lparr>m_registers = Map.empty, m_register_width = 8192\<rparr>,
      m_modulus_chain = [], m_twiddle_ntt = [], m_twiddle_intt = Map.empty,
      m_multi_register_width = 8192, m_trace_execution = False, m_execution_trace = []\<rparr>"

text \<open>
  The lane loop of the executors,
  \<^verbatim>\<open>for (x = 0; x < m_multi_register_width; x++) dst[x] = ...\<close>.
  The right-hand side reads the registers of the current store, so that an operand that
  aliases \<open>dst\<close> sees the lanes written by earlier iterations.
\<close>

definition lane_loop ::
  "nat \<Rightarrow> ((string \<rightharpoonup> MultiRegister) \<Rightarrow> nat \<Rightarrow> u32) \<Rightarrow> string
     \<Rightarrow> (string \<rightharpoonup> MultiRegister) \<Rightarrow> (string \<rightharpoonup> MultiRegister)" where
  "lane_loop width rhs dst s =
     fold (\<lambda>x s. s(dst \<mapsto> (reg s dst)[x := rhs s x])) [0..<width] s"

text \<open>
  After the \<^verbatim>\<open>m_memory[...]\<close> accesses every operand register has \<^verbatim>\<open>m_register_width\<close>
  lanes. The loop indexes the lanes below \<^verbatim>\<open>m_multi_register_width\<close> without a bounds
  check; \<open>lanes_checked\<close> is the condition under which all of these accesses (and lane
  \<open>lane0\<close>, for the executors that read lane 0 of an immediate) are in range.
\<close>

definition lanes_checked :: "PISAFunctionalModel \<Rightarrow> PISAMemoryModel \<Rightarrow> bool \<Rightarrow> error + unit" where
  "lanes_checked fm mem lane0 =
     (if m_multi_register_width fm \<le> m_register_width mem \<and> (lane0 \<longrightarrow> 0 < m_register_width mem)
      then Inr () else Inl UndefinedBehaviour)"

definition addInstrDecodeExecute :: "PISAFunctionalModel \<Rightarrow> PISAInstruction \<Rightarrow> error + PISAFunctionalModel" where
  "addInstrDecodeExecute fm instr =
     thenE (getOutputOperand instr 0) (\<lambda>dst.
     let mem = memory_index (m_memory fm) (m_location dst) in
     thenE (getInputOperand instr 0) (\<lambda>src_1.
     let mem = memory_index mem (m_location src_1) in
     thenE (getInputOperand instr 1) (\<lambda>src_2.
     let mem = memory_index mem (m_location src_2) in
     thenE (vector_at (m_modulus_chain fm) (m_residual instr)) (\<lambda>modulus.
     thenE (lanes_checked fm mem False) (\<lambda>_.
     Inr (fm\<lparr>m_memory := mem\<lparr>m_registers :=
            lane_loop (m_multi_register_width fm)
              (\<lambda>s x. montgomeryAdd_mont (reg s (m_location src_1) ! x)
                                          (reg s (m_location src_2) ! x) modulus)
              (m_location dst) (m_registers mem)\<rparr>\<rparr>))))))"

definition copyInstrDecodeExecute :: "PISAFunctionalModel \<Rightarrow> PISAInstruction \<Rightarrow> error + PISAFunctionalModel" where
  "copyInstrDecodeExecute fm instr =
     thenE (getOutputOperand instr 0) (\<lambda>dst.
     let mem = memory_index (m_memory fm) (m_location dst) in
     thenE (getInputOperand instr 0) (\<lambda>src_1.
     let mem = memory_index mem (m_location src_1) in
     Inr (fm\<lparr>m_memory := mem\<lparr>m_registers :=
            (m_registers mem)(m_location dst \<mapsto> reg (m_registers mem) (m_location src_1))\<rparr>\<rparr>)))"

text \<open>In \<^verbatim>\<open>sub\<close>, \<^verbatim>\<open>z = modulus - src_2[x]\<close> is computed in \<^verbatim>\<open>uint32_t\<close>.\<close>

definition subInstrDecodeExecute :: "PISAFunctionalModel \<Rightarrow> PISAInstruction \<Rightarrow> error + PISAFunctionalModel" where
  "subInstrDecodeExecute fm instr =
     thenE (getOutputOperand instr 0) (\<lambda>dst.
     let mem = memory_index (m_memory fm) (m_location dst) in
     thenE (getInputOperand instr 0) (\<lambda>src_1.
     let mem = memory_index mem (m_location src_1) in
     thenE (getInputOperand instr 1) (\<lambda>src_2.
     let mem = memory_index mem (m_location src_2) in
     thenE (vector_at (m_modulus_chain fm) (m_residual instr)) (\<lambda>modulus.
     thenE (lanes_checked fm mem False) (\<lambda>_.
     Inr (fm\<lparr>m_memory := mem\<lparr>m_registers :=
            lane_loop (m_multi_register_width fm)
              (\<lambda>s x. let z = modulus - reg s (m_location src_2) ! x;
                         z = (if modulus \<le> z then z - modulus else z)
                     in montgomeryAdd_mont (reg s (m_location src_1) ! x) z modulus)
              (m_location dst) (m_registers mem)\<rparr>\<rparr>))))))"

definition mulInstrDecodeExecute :: "PISAFunctionalModel \<Rightarrow> PISAInstruction \<Rightarrow> error + PISAFunctionalModel" where
  "mulInstrDecodeExecute fm instr =
     thenE (getOutputOperand instr 0) (\<lambda>dst.
     let mem = memory_index (m_memory fm) (m_location dst) in
     thenE (getInputOperand instr 0) (\<lambda>src_1.
     let mem = memory_index mem (m_location src_1) in
     thenE (getInputOperand instr 1) (\<lambda>src_2.
     let mem = memory_index mem (m_location src_2) in
     thenE (vector_at (m_modulus_chain fm) (m_residual instr)) (\<lambda>modulus.
     thenE (lanes_checked fm mem False) (\<lambda>_.
     Inr (fm\<lparr>m_memory := mem\<lparr>m_registers :=
            lane_loop (m_multi_register_width fm)
              (\<lambda>s x. montgomeryMul_mont (reg s (m_location src_1) ! x)
                                          (reg s (m_location src_2) ! x) modulus)
              (m_location dst) (m_registers mem)\<rparr>\<rparr>))))))"

text \<open>
  In \<^verbatim>\<open>muli\<close> and \<^verbatim>\<open>maci\<close> the scalar \<^verbatim>\<open>src_2\<close> is a reference to lane 0 of the
  immediate's register, read again in every iteration.
\<close>

definition muliInstrDecodeExecute :: "PISAFunctionalModel \<Rightarrow> PISAInstruction \<Rightarrow> error + PISAFunctionalModel" where
  "muliInstrDecodeExecute fm instr =
     thenE (getOutputOperand instr 0) (\<lambda>dst.
     let mem = memory_index (m_memory fm) (m_location dst) in
     thenE (getInputOperand instr 0) (\<lambda>src_1.
     let mem = memory_index mem (m_location src_1) in
     thenE (getInputOperand instr 1) (\<lambda>src_2.
     let mem = memory_index mem (m_location src_2) in
     thenE (lanes_checked fm mem True) (\<lambda>_.
     thenE (vector_at (m_modulus_chain fm) (m_residual instr)) (\<lambda>modulus.
     Inr (fm\<lparr>m_memory := mem\<lparr>m_registers :=
            lane_loop (m_multi_register_width fm)
              (\<lambda>s x. montgomeryMul_mont (reg s (m_location src_1) ! x)
                                          (reg s (m_location src_2) ! 0) modulus)
              (m_location dst) (m_registers mem)\<rparr>\<rparr>))))))"

definition macInstrDecodeExecute :: "PISAFunctionalModel \<Rightarrow> PISAInstruction \<Rightarrow> error + PISAFunctionalModel" where
  "macInstrDecodeExecute fm instr =
     thenE (getOutputOperand instr 0) (\<lambda>dst.
     let mem = memory_index (m_memory fm) (m_location dst) in
     thenE (getInputOperand instr 0) (\<lambda>accum.
     let mem = memory_index mem (m_location accum) in
     thenE (getInputOperand instr 1) (\<lambda>src_1.
     let mem = memory_index mem (m_location src_1) in
     thenE (getInputOperand instr 2) (\<lambda>src_2.
     let mem = memory_index mem (m_location src_2) in
     thenE (vector_at (m_modulus_chain fm) (m_residual instr)) (\<lambda>modulus.
     thenE (lanes_checked fm mem False) (\<lambda>_.
     Inr (fm\<lparr>m_memory := mem\<lparr>m_registers :=
            lane_loop (m_multi_register_width fm)
              (\<lambda>s x. let tmp = montgomeryMul_mont (reg s (m_location src_1) ! x)
                                                    (reg s (m_location src_2) ! x) modulus
                     in montgomeryAdd_mont (reg s (m_location accum) ! x) tmp modulus)
              (m_location dst) (m_registers mem)\<rparr>\<rparr>)))))))"

definition maciInstrDecodeExecute :: "PISAFunctionalModel \<Rightarrow> PISAInstruction \<Rightarrow> error + PISAFunctionalModel" where
  "maciInstrDecodeExecute fm instr =
     thenE (getOutputOperand instr 0) (\<lambda>dst.
     let mem = memory_index (m_memory fm) (m_location dst) in
     thenE (getInputOperand instr 0) (\<lambda>accum.
     let mem = memory_index mem (m_location accum) in
     thenE (getInputOperand instr 1) (\<lambda>src_1.
     let mem = memory_index mem (m_location src_1) in
     thenE (getInputOperand instr 2) (\<lambda>src_2.
     let mem = memory_index mem (m_location src_2) in
     thenE (lanes_checked fm mem True) (\<lambda>_.
     thenE (vector_at (m_modulus_chain fm) (m_residual instr)) (\<lambda>modulus.
     Inr (fm\<lparr>m_memory := mem\<lparr>m_registers :=
            lane_loop (m_multi_register_width fm)
              (\<lambda>s x. let tmp = montgomeryMul_mont (reg s (m_location src_1) ! x)
                                                    (reg s (m_location src_2) ! 0) modulus
                     in montgomeryAdd_mont (reg s (m_location accum) ! x) tmp modulus)
              (m_location dst) (m_registers mem)\<rparr>\<rparr>)))))))"

text \<open>
  The tracing of \<^verbatim>\<open>decode\<close>: before the executor, a trace entry with a copy of the
  instruction and of every input register; after it, a copy of every output register.
\<close>

fun copy_all :: "PISAMemoryModel \<Rightarrow> string list \<Rightarrow> error + MultiRegister list" where
  "copy_all mem [] = Inr []"
| "copy_all mem (l # ls) =
     thenE (memory_copy mem l) (\<lambda>v. thenE (copy_all mem ls) (\<lambda>vs. Inr (v # vs)))"

definition trace_inputs :: "PISAFunctionalModel \<Rightarrow> PISAInstruction \<Rightarrow> error + PISAFunctionalModel" where
  "trace_inputs fm instr =
     (if m_trace_execution fm
      then thenE (copy_all (m_memory fm) (map m_location (m_input_operands instr))) (\<lambda>inputs.
             Inr (fm\<lparr>m_execution_trace := m_execution_trace fm @
                    [\<lparr>tr_instruction = instr, tr_execution_inputs = inputs,
                      tr_execution_result = []\<rparr>]\<rparr>))
      else Inr fm)"

definition trace_results :: "PISAFunctionalModel \<Rightarrow> PISAInstruction \<Rightarrow> error + PISAFunctionalModel" where
  "trace_results fm instr =
     (if m_trace_execution fm
      then thenE (copy_all (m_memory fm) (map m_location (m_output_operands instr))) (\<lambda>results.
             if m_execution_trace fm = [] then Inl UndefinedBehaviour
             else Inr (fm\<lparr>m_execution_trace := butlast (m_execution_trace fm) @
                    [(last (m_execution_trace fm))\<lparr>tr_execution_result := results\<rparr>]\<rparr>))
      else Inr fm)"

text \<open>
  \<^verbatim>\<open>decode\<close>: the dispatch on the instruction's name, in the order of the source. The
  butterfly executors of \<^verbatim>\<open>intt\<close> and \<^verbatim>\<open>ntt\<close> are outside this development; their
  branches are marked by an error of their own, so that no statement about \<open>decode\<close>
  covers them.
\<close>

definition decode_dispatch :: "PISAFunctionalModel \<Rightarrow> PISAInstruction \<Rightarrow> error + PISAFunctionalModel" where
  "decode_dispatch fm instr =
     (if m_operation_name instr = ''add'' then addInstrDecodeExecute fm instr
      else if m_operation_name instr = ''sub'' then subInstrDecodeExecute fm instr
      else if m_operation_name instr = ''mul'' then mulInstrDecodeExecute fm instr
      else if m_operation_name instr = ''muli'' then muliInstrDecodeExecute fm instr
      else if m_operation_name instr = ''mac'' then macInstrDecodeExecute fm instr
      else if m_operation_name instr = ''maci'' then maciInstrDecodeExecute fm instr
      else if m_operation_name instr = ''intt'' then Inl (LogicError ''intt: not modelled'')
      else if m_operation_name instr = ''ntt'' then Inl (LogicError ''ntt: not modelled'')
      else if m_operation_name instr = ''copy'' then copyInstrDecodeExecute fm instr
      else Inl (RuntimeError (''Failed to decode '' @ m_operation_name instr)))"

definition decode :: "PISAFunctionalModel \<Rightarrow> PISAInstruction \<Rightarrow> error + PISAFunctionalModel" where
  "decode fm instr =
     thenE (trace_inputs fm instr) (\<lambda>fm.
     thenE (decode_dispatch fm instr) (\<lambda>fm.
     trace_results fm instr))"

text \<open>The register names an instruction refers to: the locations of its operands.\<close>

definition operand_locations :: "PISAInstruction \<Rightarrow> string set" where
  "operand_locations instr =
     set (map m_location (m_input_operands instr @ m_output_operands instr))"

text \<open>The opcodes with a lane-wise arithmetic or copy executor.\<close>

definition arithmetic_or_copy :: "string \<Rightarrow> bool" where
  "arithmetic_or_copy name \<longleftrightarrow>
     name \<in> {''add'', ''sub'', ''mul'', ''muli'', ''mac'', ''maci'', ''copy''}"

text \<open>Lane \<open>i\<close> of the register \<open>name\<close> after \<open>decode\<close>: the observation of the scenarios.\<close>

definition decode_lane ::
  "PISAFunctionalModel \<Rightarrow> PISAInstruction \<Rightarrow> string \<Rightarrow> nat \<Rightarrow> error + u32" where
  "decode_lane fm instr name i =
     thenE (decode fm instr) (\<lambda>fm'. Inr (reg (m_registers (m_memory fm')) name ! i))"

text \<open>
  The objects of scenario S3. \<open>zero_instruction\<close> stands for the memory of a new
  instruction object (all members zero); \<open>mac_dst_a_b\<close> is \<^verbatim>\<open>mac dst a b 0\<close> as the
  constructor \<^verbatim>\<open>Mac(13, dst, a, b, 0)\<close> builds it; \<open>scenario_S3 q\<close> is the model as
  constructed, with the modulus chain \<open>[q]\<close> and the registers \<open>dst = [10, 0, ...]\<close>,
  \<open>a = [2, 0, ...]\<close>, \<open>b = [3, 0, ...]\<close> of width 8192, and a fourth register \<open>c\<close>.
\<close>

definition zero_instruction :: PISAInstruction where
  "zero_instruction =
     \<lparr>m_pmd_log2 = 0, m_operation_name = [], m_input_operands = [], m_output_operands = [],
      m_w_param = \<lparr>wp_residual = 0, wp_stage = 0, wp_block = 0\<rparr>, m_residual = 0,
      m_group_id = 0, m_stage = 0, m_galois_element = 0, m_block = 0, m_output_block = False,
      m_description = []\<rparr>"

definition mac_dst_a_b :: PISAInstruction where
  "mac_dst_a_b =
     Mac_new zero_instruction 13 (Operand_bank ''dst'' 0) (Operand_bank ''a'' 0)
       (Operand_bank ''b'' 0) 0"

definition scenario_S3 :: "u32 \<Rightarrow> PISAFunctionalModel" where
  "scenario_S3 q =
     PISAFunctionalModel_init
       \<lparr>m_memory := \<lparr>m_registers = [''dst'' \<mapsto> 10 # replicate 8191 0,
                                   ''a'' \<mapsto> 2 # replicate 8191 0,
                                   ''b'' \<mapsto> 3 # replicate 8191 0,
                                   ''c'' \<mapsto> 7 # replicate 8191 0],
                    m_register_width = 8192\<rparr>,
        m_modulus_chain := [q]\<rparr>"

subsection \<open>The runtime (\<^verbatim>\<open>pisaprogramruntime.h\<close>)\<close>

record PISAProgramRuntime =
  m_model :: PISAFunctionalModel
  m_debug_mode :: bool

definition setMemory :: "PISAProgramRuntime \<Rightarrow> string \<times> MultiRegister \<Rightarrow> PISAProgramRuntime" where
  "setMemory rt memory_value =
     rt\<lparr>m_model := (m_model rt)\<lparr>m_memory :=
          writeMemory (m_memory (m_model rt)) (fst memory_value) (snd memory_value)\<rparr>\<rparr>"

text \<open>
  \<^verbatim>\<open>setParamMemoryToMultiRegisterDeviceMemory(pair)\<close>: the flat vector is cut into
  slices of the register width. \<open>flat_slice\<close> is the inner loop
  \<^verbatim>\<open>mem_slice[a] = values[width * x + a]\<close>, \<open>slice_name\<close> the address
  \<^verbatim>\<open>name + "_" + std::to_string(x)\<close> of slice \<open>x\<close>. The width is an \<^verbatim>\<open>unsigned int\<close> and
  \<open>x\<close>, \<open>a\<close> are \<^verbatim>\<open>int\<close>:

    \<^item> the index \<^verbatim>\<open>width * x + a\<close> is computed in 32-bit unsigned arithmetic and wraps
      modulo \<open>2\<^sup>3\<^sup>2\<close> (it stays below the length of the vector, so the access is in range);
    \<^item> \<^verbatim>\<open>slice_count\<close> is the quotient of the length by the width, truncated to 32 bits;
    \<^item> \<^verbatim>\<open>x++\<close> overflows when the slice count is \<open>2\<^sup>3\<^sup>1\<close> or more, and \<^verbatim>\<open>a++\<close> when the
      width is (and there is a slice): signed overflow is undefined;
    \<^item> the remainder by a width of zero is undefined.
\<close>

definition flat_slice :: "nat \<Rightarrow> u32 list \<Rightarrow> nat \<Rightarrow> MultiRegister" where
  "flat_slice width values x = map (\<lambda>a. values ! ((width * x + a) mod 2 ^ 32)) [0..<width]"

definition slice_name :: "string \<Rightarrow> nat \<Rightarrow> string" where
  "slice_name name x = name @ ''_'' @ show_int (int x)"

definition setParamMemoryToMultiRegisterDeviceMemory ::
  "PISAProgramRuntime \<Rightarrow> string \<times> u32 list \<Rightarrow> error + PISAProgramRuntime" where
  "setParamMemoryToMultiRegisterDeviceMemory rt trace_memory_map =
     (let width = m_multi_register_width (m_model rt) in
      if width = 0 then Inl UndefinedBehaviour
      else if length (snd trace_memory_map) mod width \<noteq> 0
      then Inl (RuntimeError ''Input size not a multiple of multi_register size, mapping undefined'')
      else
        let slice_count = (length (snd trace_memory_map) div width) mod 2 ^ 32 in
        if 2 ^ 31 \<le> slice_count \<or> (0 < slice_count \<and> 2 ^ 31 \<le> width)
        then Inl UndefinedBehaviour
        else Inr (fold (\<lambda>x rt.
                    setMemory rt (slice_name (fst trace_memory_map) x,
                                  flat_slice width (snd trace_memory_map) x))
                  [0..<slice_count] rt))"

text \<open>\<^verbatim>\<open>setImmediateToMultiRegisterDeviceMemory\<close>: a one-lane register under the name.\<close>

definition setImmediateToMultiRegisterDeviceMemory ::
  "PISAProgramRuntime \<Rightarrow> string \<times> u32 list \<Rightarrow> error + PISAProgramRuntime" where
  "setImmediateToMultiRegisterDeviceMemory rt trace_memory_map =
     (if snd trace_memory_map = [] then Inl UndefinedBehaviour
      else Inr (setMemory rt (fst trace_memory_map, [snd trace_memory_map ! 0])))"

text \<open>
  The part of a register name before its last underscore:
  \<^verbatim>\<open>reg_name.substr(0, reg_name.rfind('_', reg_name.size()))\<close>. Without an underscore
  \<^verbatim>\<open>rfind\<close> gives \<^verbatim>\<open>npos\<close> and the substring is the whole name.
\<close>

definition short_name :: "string \<Rightarrow> string" where
  "short_name reg_name =
     (let size = rfind (CHR ''_'') reg_name (int (length reg_name)) in
      if size < 0 then reg_name else take (nat size) reg_name)"

text \<open>
  \<^verbatim>\<open>getMatching3ParamRegisterNames\<close> walks over \<^verbatim>\<open>m_memory.registers()\<close>, a
  \<^verbatim>\<open>std::unordered_map\<close>, whose iteration order is unspecified: the order is the
  parameter \<open>order\<close>, an enumeration of the allocated register names.
\<close>

definition getMatching3ParamRegisterNames :: "string list \<Rightarrow> string \<Rightarrow> string list" where
  "getMatching3ParamRegisterNames order register_2_param_name =
     filter (\<lambda>reg_name. short_name reg_name = register_2_param_name) order"

text \<open>
  \<^verbatim>\<open>getParamMemoryFromMultiRegisterDeviceMemory(root)\<close>: the matching names, each with
  the integer read after \<^verbatim>\<open>root_\<close> (\<^verbatim>\<open>substr\<close> throws when the name is shorter than
  that), sorted by that integer, and the concatenation of their registers.
  \<^verbatim>\<open>std::sort\<close> leaves the order of entries with equal keys open; \<open>sort_key\<close> is one
  such order.
\<close>

fun indexed_names :: "nat \<Rightarrow> string list \<Rightarrow> error + (string \<times> int) list" where
  "indexed_names start [] = Inr []"
| "indexed_names start (a # as) =
     (if length a < start then Inl OutOfRange
      else thenE (stoi (take (length a - start) (drop start a))) (\<lambda>index.
           thenE (indexed_names start as) (\<lambda>rest. Inr ((a, index) # rest))))"

fun read_all :: "PISAMemoryModel \<Rightarrow> string list \<Rightarrow> PISAMemoryModel \<times> u32 list" where
  "read_all mem [] = (mem, [])"
| "read_all mem (a # as) =
     (case readMemory mem a of (mem, memory) \<Rightarrow>
        (case read_all mem as of (mem, combined_values) \<Rightarrow> (mem, memory @ combined_values)))"

definition getParamMemoryFromMultiRegisterDeviceMemory ::
  "string list \<Rightarrow> PISAProgramRuntime \<Rightarrow> string
     \<Rightarrow> error + PISAProgramRuntime \<times> (string \<times> u32 list)" where
  "getParamMemoryFromMultiRegisterDeviceMemory order rt memory_2_param_root =
     (let register_names_3_param = getMatching3ParamRegisterNames order memory_2_param_root;
          start = length memory_2_param_root + 1
      in thenE (indexed_names start register_names_3_param) (\<lambda>indexed_list.
         let indexed_list = sort_key snd indexed_list in
         case read_all (m_memory (m_model rt)) (map fst indexed_list) of
           (mem, combined_values) \<Rightarrow>
             Inr (rt\<lparr>m_model := (m_model rt)\<lparr>m_memory := mem\<rparr>\<rparr>,
                  (memory_2_param_root, combined_values))))"

text \<open>
  \<open>is_register_order order rt\<close>: \<open>order\<close> enumerates the allocated names of the runtime's
  register file, each once.
\<close>

definition is_register_order :: "string list \<Rightarrow> PISAProgramRuntime \<Rightarrow> bool" where
  "is_register_order order rt \<longleftrightarrow>
     distinct order \<and> set order = dom (m_registers (m_memory (m_model rt)))"

text \<open>
  \<open>no_stale_slices rt root k\<close>: every allocated register whose name up to the last
  underscore is \<open>root\<close> is one of the slices \<open>root_0\<close>, ..., \<open>root_(k-1)\<close>.
\<close>

definition no_stale_slices :: "PISAProgramRuntime \<Rightarrow> string \<Rightarrow> nat \<Rightarrow> bool" where
  "no_stale_slices rt root k \<longleftrightarrow>
     (\<forall>n \<in> dom (m_registers (m_memory (m_model rt))).
        short_name n = root \<longrightarrow> n \<in> slice_name root ` {0..<k})"

text \<open>
  \<open>set_then_get\<close>: \<^verbatim>\<open>setParamMemory(root, v)\<close> followed by \<^verbatim>\<open>getParamMemory(root)\<close>, and the
  flat vector that the second call returns.
\<close>

definition set_then_get ::
  "string list \<Rightarrow> PISAProgramRuntime \<Rightarrow> string \<Rightarrow> u32 list \<Rightarrow> error + u32 list" where
  "set_then_get order rt root v =
     thenE (setParamMemoryToMultiRegisterDeviceMemory rt (root, v)) (\<lambda>rt'.
     thenE (getParamMemoryFromMultiRegisterDeviceMemory order rt' root) (\<lambda>r.
     Inr (snd (snd r))))"

text \<open>
  The runtime as constructed, and the runtime after
  \<^verbatim>\<open>setImmediateToMultiRegisterDeviceMemory({"x_1", {9}})\<close>.
\<close>

definition runtime_init :: PISAProgramRuntime where
  "runtime_init = \<lparr>m_model = PISAFunctionalModel_init, m_debug_mode = False\<rparr>"

definition runtime_with_x_1 :: PISAProgramRuntime where
  "runtime_with_x_1 =
     \<lparr>m_model = PISAFunctionalModel_init
        \<lparr>m_memory := \<lparr>m_registers = [''x_1'' \<mapsto> [9]], m_register_width = 8192\<rparr>\<rparr>,
      m_debug_mode = False\<rparr>"

subsection \<open>Memory dump and load (\<^verbatim>\<open>p_isa_functional_model.h\<close>, lines 752--888)\<close>

definition newline :: char where
  "newline = CHR 0x0A"

text \<open>The values of a line: \<^verbatim>\<open>"," << y\<close> for every element, in unsigned decimal.\<close>

definition csv_values :: "u32 list \<Rightarrow> string" where
  "csv_values ys = concat (map (\<lambda>y. '','' @ show_nat (unat y)) ys)"

text \<open>
  \<^verbatim>\<open>dumpMemoryToStream(output_stream)\<close>: one \<^verbatim>\<open>ntt\<close> line per residual, one \<^verbatim>\<open>intt\<close> line
  per Galois key and residual, the modulus chain, one \<^verbatim>\<open>memory\<close> line per register.
  The twiddle map and the register file are unordered maps: \<open>intt_order\<close> and
  \<open>register_order\<close> are the orders in which their keys are visited.
\<close>

definition dumpMemoryToStream :: "string list \<Rightarrow> string list \<Rightarrow> PISAFunctionalModel \<Rightarrow> string" where
  "dumpMemoryToStream intt_order register_order fm =
     concat (map (\<lambda>(ntt_index, x). ''ntt,'' @ show_int (int ntt_index) @ csv_values x @ [newline])
               (enumerate 0 (m_twiddle_ntt fm)))
     @ concat (map (\<lambda>key.
          concat (map (\<lambda>(intt_index, x).
                    ''intt,'' @ key @ '','' @ show_int (int intt_index) @ csv_values x @ [newline])
                  (enumerate 0 (case m_twiddle_intt fm key of None \<Rightarrow> [] | Some vs \<Rightarrow> vs))))
          intt_order)
     @ ''modulus_chain'' @ csv_values (m_modulus_chain fm) @ [newline]
     @ concat (map (\<lambda>name. ''memory,'' @ name
                            @ csv_values (reg (m_registers (m_memory fm)) name) @ [newline])
               register_order)"

text \<open>
  The values of a line when read: \<^verbatim>\<open>std::stoi\<close> of every component from position \<open>n\<close>
  on, converted to \<^verbatim>\<open>T\<close>. Starting beyond the end of the components is undefined.
\<close>

fun stoi_all :: "string list \<Rightarrow> error + u32 list" where
  "stoi_all [] = Inr []"
| "stoi_all (s # ss) =
     thenE (stoi s) (\<lambda>v. thenE (stoi_all ss) (\<lambda>vs. Inr (word_of_int v # vs)))"

definition values_from :: "nat \<Rightarrow> string list \<Rightarrow> error + u32 list" where
  "values_from n components =
     (if length components < n then Inl UndefinedBehaviour else stoi_all (drop n components))"

text \<open>
  \<^verbatim>\<open>v.resize(n)\<close> and \<^verbatim>\<open>v[n] = values\<close> on a vector of vectors, with an \<^verbatim>\<open>int\<close> index
  converted to \<^verbatim>\<open>size_t\<close>: resizing to a negative number throws
  \<^verbatim>\<open>std::length_error\<close>, writing out of range is undefined.
\<close>

definition resize_if_smaller :: "u32 list list \<Rightarrow> int \<Rightarrow> error + u32 list list" where
  "resize_if_smaller v n =
     (if n < 0 then Inl (LogicError ''length_error'')
      else if length v < nat n then Inr (v @ replicate (nat n - length v) [])
      else Inr v)"

definition assign_at :: "u32 list list \<Rightarrow> int \<Rightarrow> u32 list \<Rightarrow> error + u32 list list" where
  "assign_at v n values =
     (if 0 \<le> n \<and> nat n < length v then Inr (v[nat n := values]) else Inl UndefinedBehaviour)"

text \<open>The four \<^verbatim>\<open>if\<close> blocks of the loop body of \<^verbatim>\<open>readMemoryFromStream\<close>.\<close>

definition read_memory_line :: "string list \<Rightarrow> PISAFunctionalModel \<Rightarrow> error + PISAFunctionalModel" where
  "read_memory_line components fm =
     (if components ! 0 = ''memory''
      then thenE (values_from 2 components) (\<lambda>values.
           thenE (component components 1) (\<lambda>name.
           let mem = memory_index (m_memory fm) name in
           Inr (fm\<lparr>m_memory := mem\<lparr>m_registers := (m_registers mem)(name \<mapsto> values)\<rparr>\<rparr>)))
      else Inr fm)"

definition read_modulus_chain_line :: "string list \<Rightarrow> PISAFunctionalModel \<Rightarrow> error + PISAFunctionalModel" where
  "read_modulus_chain_line components fm =
     (if components ! 0 = ''modulus_chain''
      then thenE (values_from 1 components) (\<lambda>values. Inr (fm\<lparr>m_modulus_chain := values\<rparr>))
      else Inr fm)"

definition read_ntt_line :: "string list \<Rightarrow> PISAFunctionalModel \<Rightarrow> error + PISAFunctionalModel" where
  "read_ntt_line components fm =
     (if components ! 0 = ''ntt''
      then thenE (component components 1) (\<lambda>c1.
           thenE (stoi c1) (\<lambda>index.
           thenE (resize_if_smaller (m_twiddle_ntt fm) index) (\<lambda>twiddle_ntt.
           thenE (values_from 2 components) (\<lambda>values.
           thenE (assign_at twiddle_ntt index values) (\<lambda>twiddle_ntt.
           Inr (fm\<lparr>m_twiddle_ntt := twiddle_ntt\<rparr>))))))
      else Inr fm)"

text \<open>
  In the \<^verbatim>\<open>intt\<close> block, \<^verbatim>\<open>auto intt_values = m_twiddle_intt[components[1]]\<close> is a copy
  of the vector stored in the map: the resize and the assignment act on the copy, and
  the map keeps the vector it had (the empty one for a new key).
\<close>

definition read_intt_line :: "string list \<Rightarrow> PISAFunctionalModel \<Rightarrow> error + PISAFunctionalModel" where
  "read_intt_line components fm =
     (if components ! 0 = ''intt''
      then thenE (component components 1) (\<lambda>key.
           let twiddle_intt = (case m_twiddle_intt fm key of
                                 None \<Rightarrow> (m_twiddle_intt fm)(key \<mapsto> [])
                               | Some _ \<Rightarrow> m_twiddle_intt fm);
               intt_values = (case twiddle_intt key of None \<Rightarrow> [] | Some vs \<Rightarrow> vs) in
           thenE (component components 2) (\<lambda>c2.
           thenE (stoi c2) (\<lambda>index.
           thenE (resize_if_smaller intt_values index) (\<lambda>intt_values.
           thenE (values_from 3 components) (\<lambda>values.
           thenE (assign_at intt_values index values) (\<lambda>intt_values.
           Inr (fm\<lparr>m_twiddle_intt := twiddle_intt\<rparr>)))))))
      else Inr fm)"

text \<open>
  One line: the components are the pieces between commas that are neither empty nor a
  lone carriage return; \<^verbatim>\<open>components[0]\<close> of a line without components is undefined.
\<close>

definition read_line :: "string \<Rightarrow> PISAFunctionalModel \<Rightarrow> error + PISAFunctionalModel" where
  "read_line current_line fm =
     (let components = filter (\<lambda>c. c \<noteq> [CHR 0x0D] \<and> c \<noteq> []) (split_on (CHR '','') current_line) in
      if components = [] then Inl UndefinedBehaviour
      else thenE (read_memory_line components fm) (\<lambda>fm.
           thenE (read_modulus_chain_line components fm) (\<lambda>fm.
           thenE (read_ntt_line components fm) (\<lambda>fm.
           read_intt_line components fm))))"

fun read_lines :: "string list \<Rightarrow> PISAFunctionalModel \<Rightarrow> error + PISAFunctionalModel" where
  "read_lines [] fm = Inr fm"
| "read_lines (l # ls) fm = thenE (read_line l fm) (read_lines ls)"

text \<open>
  \<^verbatim>\<open>readMemoryFromStream\<close>: every exception is caught and replaced by one
  \<^verbatim>\<open>std::runtime_error\<close>; undefined behaviour is not an exception.
\<close>

definition readMemoryFromStream :: "PISAFunctionalModel \<Rightarrow> string \<Rightarrow> error + PISAFunctionalModel" where
  "readMemoryFromStream fm input_stream =
     (case read_lines (split_on newline input_stream) fm of
        Inl UndefinedBehaviour \<Rightarrow> Inl UndefinedBehaviour
      | Inl _ \<Rightarrow> Inl (RuntimeError ''Encountered error while reading memory from memory file'')
      | Inr fm \<Rightarrow> Inr fm)"

text \<open>
  Two models for the round trip: \<open>model_intt v\<close> is the model as constructed, whose iNTT
  twiddle map holds the one table \<open>[[v]]\<close> under the Galois key \<open>1\<close>; \<open>model_ntt\<close> is the
  model as constructed with the NTT twiddle table \<open>[[7]]\<close>.
\<close>

definition model_intt :: "u32 \<Rightarrow> PISAFunctionalModel" where
  "model_intt v = PISAFunctionalModel_init\<lparr>m_twiddle_intt := [''1'' \<mapsto> [[v]]]\<rparr>"

definition model_ntt :: PISAFunctionalModel where
  "model_ntt = PISAFunctionalModel_init\<lparr>m_twiddle_ntt := [[7]]\<rparr>"

subsection \<open>The dependency graph (\<^verbatim>\<open>graph.h\<close>)\<close>

datatype NODE_TYPE = OPERATION | REGISTER_ADDRESS | IMMEDIATE_NODE

text \<open>
  \<^verbatim>\<open>graph::Node\<close>. The member \<^verbatim>\<open>count\<close> is never initialised nor read and is left out;
  the pointer \<^verbatim>\<open>instruction\<close> is the instruction itself, \<open>None\<close> for \<^verbatim>\<open>nullptr\<close>.
\<close>

record Node =
  nd_ID :: int
  nd_type :: NODE_TYPE
  nd_memory_classification :: string
  nd_label :: string
  nd_output_string :: string
  nd_instruction :: "PISAInstruction option"
  nd_scheduled :: bool
  nd_start_time :: int
  nd_end_time :: int
  nd_last_access_time :: int

definition Node_new :: "string \<Rightarrow> int \<Rightarrow> NODE_TYPE \<Rightarrow> PISAInstruction option \<Rightarrow> Node" where
  "Node_new label ident type instr =
     \<lparr>nd_ID = ident, nd_type = type, nd_memory_classification = [], nd_label = label,
      nd_output_string = label, nd_instruction = instr, nd_scheduled = False,
      nd_start_time = - 1, nd_end_time = - 1, nd_last_access_time = - 1\<rparr>"

text \<open>
  Modelled from the spec: the network type \<^verbatim>\<open>TNodeEDatNet\<close> of the external graph
  library (\<^verbatim>\<open>Snap.h\<close>), which is not part of the sources. The specification asks for a
  directed graph with per-node data, in which an operation has one incoming edge per
  distinct input location, with node removal and in-degrees. The network is the list
  of its nodes, in the order in which they were added (the order of the node
  iterators), and the list of its edges, without repetition.
\<close>

record Network =
  net_nodes :: "Node list"
  net_edges :: "(int \<times> int) list"

definition Network_New :: Network where
  "Network_New = \<lparr>net_nodes = [], net_edges = []\<rparr>"

definition IsNode :: "Network \<Rightarrow> int \<Rightarrow> bool" where
  "IsNode net ident \<longleftrightarrow> ident \<in> set (map nd_ID (net_nodes net))"

text \<open>Modelled from the spec: \<^verbatim>\<open>AddNode\<close> of the graph library; node ids are unique.\<close>

definition AddNode :: "Network \<Rightarrow> Node \<Rightarrow> error + Network" where
  "AddNode net node =
     (if IsNode net (nd_ID node) then Inl (RuntimeError ''node id already exists'')
      else Inr (net\<lparr>net_nodes := net_nodes net @ [node]\<rparr>))"

text \<open>
  Modelled from the spec: \<^verbatim>\<open>AddEdge\<close> of the graph library; both ends must be nodes,
  and an edge that is already present is not added again.
\<close>

definition AddEdge :: "Network \<Rightarrow> int \<Rightarrow> int \<Rightarrow> error + Network" where
  "AddEdge net src dst =
     (if \<not> IsNode net src \<or> \<not> IsNode net dst then Inl (RuntimeError ''edge end is not a node'')
      else if (src, dst) \<in> set (net_edges net) then Inr net
      else Inr (net\<lparr>net_edges := net_edges net @ [(src, dst)]\<rparr>))"

text \<open>
  Modelled from the spec: \<^verbatim>\<open>DelNode\<close> of the graph library removes the node and every
  edge that starts or ends at it.
\<close>

definition DelNode :: "Network \<Rightarrow> int \<Rightarrow> Network" where
  "DelNode net ident =
     \<lparr>net_nodes = filter (\<lambda>n. nd_ID n \<noteq> ident) (net_nodes net),
      net_edges = filter (\<lambda>e. fst e \<noteq> ident \<and> snd e \<noteq> ident) (net_edges net)\<rparr>"

text \<open>Modelled from the spec: in- and out-neighbours and degrees of the graph library.\<close>

definition InNIds :: "Network \<Rightarrow> int \<Rightarrow> int list" where
  "InNIds net ident = map fst (filter (\<lambda>e. snd e = ident) (net_edges net))"

definition OutNIds :: "Network \<Rightarrow> int \<Rightarrow> int list" where
  "OutNIds net ident = map snd (filter (\<lambda>e. fst e = ident) (net_edges net))"

definition GetInDeg :: "Network \<Rightarrow> int \<Rightarrow> nat" where
  "GetInDeg net ident = length (InNIds net ident)"

text \<open>
  \<^verbatim>\<open>Graph<INSTRUCTION>\<close>: the network and the map from names to node ids. The map is
  keyed by operand locations and, in the same name space, by instruction names.
\<close>

record Graph =
  node_ID_Map :: "string \<rightharpoonup> int list"
  network :: Network

text \<open>
  \<^verbatim>\<open>createGraph\<close>, the loop over the input operands of one instruction. An operand whose
  location is not in the map gets a new node; otherwise the edge starts at the last
  node recorded for the location. (The \<^verbatim>\<open>output_string\<close> that the source assembles is
  written to a copy of the node and has no effect.)
\<close>

fun createGraph_inputs ::
  "int \<Rightarrow> Operand list \<Rightarrow> Graph \<times> int \<Rightarrow> error + Graph \<times> int" where
  "createGraph_inputs operation_ID [] (g, node_id) = Inr (g, node_id)"
| "createGraph_inputs operation_ID (op # ops) (g, node_id) =
     (case node_ID_Map g (m_location op) of
        None \<Rightarrow>
          thenE (AddNode (network g)
                   (Node_new (m_location op) node_id
                      (if m_immediate op then IMMEDIATE_NODE else REGISTER_ADDRESS) None)) (\<lambda>net.
          thenE (AddEdge net node_id operation_ID) (\<lambda>net.
          createGraph_inputs operation_ID ops
            (g\<lparr>network := net, node_ID_Map := (node_ID_Map g)(m_location op \<mapsto> [node_id])\<rparr>,
             node_id + 1)))
      | Some ids \<Rightarrow>
          (if ids = [] then Inl UndefinedBehaviour
           else thenE (AddEdge (network g) (last ids) operation_ID) (\<lambda>net.
                createGraph_inputs operation_ID ops (g\<lparr>network := net\<rparr>, node_id))))"

text \<open>The loop over the output operands: every output gets a new node.\<close>

fun createGraph_outputs ::
  "int \<Rightarrow> Operand list \<Rightarrow> Graph \<times> int \<Rightarrow> error + Graph \<times> int" where
  "createGraph_outputs operation_ID [] (g, node_id) = Inr (g, node_id)"
| "createGraph_outputs operation_ID (op # ops) (g, node_id) =
     thenE (AddNode (network g) (Node_new (m_location op) node_id REGISTER_ADDRESS None)) (\<lambda>net.
     thenE (AddEdge net operation_ID node_id) (\<lambda>net.
     createGraph_outputs operation_ID ops
       (g\<lparr>network := net,
          node_ID_Map := (node_ID_Map g)(m_location op \<mapsto>
             (case node_ID_Map g (m_location op) of None \<Rightarrow> [node_id]
              | Some ids \<Rightarrow> ids @ [node_id]))\<rparr>,
        node_id + 1)))"

fun createGraph_loop :: "PISAInstruction list \<Rightarrow> Graph \<times> int \<Rightarrow> error + Graph \<times> int" where
  "createGraph_loop [] (g, node_id) = Inr (g, node_id)"
| "createGraph_loop (instruction # instructions) (g, node_id) =
     thenE (AddNode (network g)
              (Node_new (m_operation_name instruction @ ''_'' @ show_int node_id) node_id
                 OPERATION (Some instruction))) (\<lambda>net.
     let g = g\<lparr>network := net,
                node_ID_Map := (node_ID_Map g)(m_operation_name instruction \<mapsto> [node_id])\<rparr> in
     thenE (createGraph_inputs node_id (m_input_operands instruction) (g, node_id + 1)) (\<lambda>gi.
     thenE (createGraph_outputs node_id (m_output_operands instruction) gi) (\<lambda>go.
     createGraph_loop instructions go)))"

definition createGraph :: "PISAInstruction list \<Rightarrow> error + Graph" where
  "createGraph instructions =
     thenE (createGraph_loop instructions
              (\<lparr>node_ID_Map = Map.empty, network = Network_New\<rparr>, 0)) (\<lambda>(g, _). Inr g)"

definition getNode :: "Graph \<Rightarrow> int \<Rightarrow> error + Node" where
  "getNode g node_id =
     (case filter (\<lambda>n. nd_ID n = node_id) (net_nodes (network g)) of
        [] \<Rightarrow> Inl (RuntimeError ''Requested Node ID does not exist'')
      | n # _ \<Rightarrow> Inr n)"

definition getNodes :: "Graph \<Rightarrow> Node list" where
  "getNodes g = net_nodes (network g)"

text \<open>
  \<^verbatim>\<open>getInputNodes()\<close> with its default arguments: the nodes of in-degree 0, of every
  type.
\<close>

definition getInputNodes :: "Graph \<Rightarrow> Node list" where
  "getInputNodes g =
     filter (\<lambda>n. GetInDeg (network g) (nd_ID n) = 0
                \<and> (nd_type n = IMMEDIATE_NODE \<or> nd_type n = REGISTER_ADDRESS \<or> nd_type n = OPERATION))
       (net_nodes (network g))"

definition removeNode :: "Graph \<Rightarrow> Node \<Rightarrow> Graph" where
  "removeNode g node = g\<lparr>network := DelNode (network g) (nd_ID node)\<rparr>"

fun AddEdges :: "Network \<Rightarrow> (int \<times> int) list \<Rightarrow> error + Network" where
  "AddEdges net [] = Inr net"
| "AddEdges net ((p, a) # es) = thenE (AddEdge net p a) (\<lambda>net. AddEdges net es)"

definition removeNodeMaintainConnections :: "Graph \<Rightarrow> Node \<Rightarrow> error + Graph" where
  "removeNodeMaintainConnections g node =
     (let prev_nodes = InNIds (network g) (nd_ID node);
          after_nodes = OutNIds (network g) (nd_ID node);
          net = DelNode (network g) (nd_ID node)
      in thenE (AddEdges net (concat (map (\<lambda>p. map (\<lambda>a. (p, a)) after_nodes) prev_nodes)))
           (\<lambda>net. Inr (g\<lparr>network := net\<rparr>)))"

fun getInstructionGraph_loop :: "Node list \<Rightarrow> Graph \<Rightarrow> error + Graph" where
  "getInstructionGraph_loop [] g = Inr g"
| "getInstructionGraph_loop (node # nodes) g =
     (if nd_type node \<noteq> OPERATION
      then thenE (removeNodeMaintainConnections g node) (getInstructionGraph_loop nodes)
      else getInstructionGraph_loop nodes g)"

definition getInstructionGraph :: "Graph \<Rightarrow> error + Graph" where
  "getInstructionGraph g = getInstructionGraph_loop (getNodes g) g"

text \<open>
  \<^verbatim>\<open>getGraphInputLayers\<close>: the inner loop collects the nodes of the layer from the graph
  itself and removes them from the consumable copy.
\<close>

fun peel_layer :: "Graph \<Rightarrow> Node list \<Rightarrow> Graph \<Rightarrow> error + Node list \<times> Graph" where
  "peel_layer this [] consumable = Inr ([], consumable)"
| "peel_layer this (node # inputs) consumable =
     thenE (getNode this (nd_ID node)) (\<lambda>n.
     thenE (peel_layer this inputs (removeNode consumable node)) (\<lambda>(layer, consumable).
     Inr (n # layer, consumable)))"

text \<open>
  The outer loop runs while the consumable copy has nodes. It does not terminate on a
  graph with a cycle (no node of in-degree 0 remains): not returning is \<open>None\<close>.
\<close>

partial_function (option) peel_layers ::
  "Graph \<Rightarrow> Graph \<Rightarrow> Node list list \<Rightarrow> (error + Node list list) option" where
  "peel_layers this consumable input_layers =
     (if 0 < length (net_nodes (network consumable))
      then (case peel_layer this (getInputNodes consumable) consumable of
              Inl e \<Rightarrow> Some (Inl e)
            | Inr (layer, consumable') \<Rightarrow> peel_layers this consumable' (input_layers @ [layer]))
      else Some (Inr input_layers))"

declare peel_layers.simps [code]

definition getGraphInputLayers :: "Graph \<Rightarrow> (error + Node list list) option" where
  "getGraphInputLayers this = peel_layers this this []"

text \<open>The instructions of scenario S6: \<^verbatim>\<open>add c a b; add d a b; mul e c d\<close>.\<close>

definition scenario_S6 :: "PISAInstruction list" where
  "scenario_S6 =
     [Add_new zero_instruction 13 (Operand_bank ''c'' 0) (Operand_bank ''a'' 0) (Operand_bank ''b'' 0) 0,
      Add_new zero_instruction 13 (Operand_bank ''d'' 0) (Operand_bank ''a'' 0) (Operand_bank ''b'' 0) 0,
      Mul_new zero_instruction 13 (Operand_bank ''e'' 0) (Operand_bank ''c'' 0) (Operand_bank ''d'' 0) 0]"

text \<open>
  What a caller sees of the layers: per layer and node, the label, the node type and
  the name of the node's instruction. \<open>input_layers_of\<close> peels the graph that
  \<open>createGraph\<close> returns; \<open>instruction_layers_of\<close> peels its instruction-only view, as
  \<^verbatim>\<open>main.cpp\<close> does (\<^verbatim>\<open>graph.getInstructionGraph().getGraphInputLayers()\<close>).
\<close>

definition layer_view ::
  "Node list list \<Rightarrow> (string \<times> NODE_TYPE \<times> string option) list list" where
  "layer_view layers =
     map (map (\<lambda>n. (nd_label n, nd_type n, map_option m_operation_name (nd_instruction n)))) layers"

definition input_layers_of ::
  "PISAInstruction list \<Rightarrow> (error + (string \<times> NODE_TYPE \<times> string option) list list) option" where
  "input_layers_of instructions =
     (case createGraph instructions of
        Inl e \<Rightarrow> Some (Inl e)
      | Inr g \<Rightarrow> map_option (map_sum id layer_view) (getGraphInputLayers g))"

definition instruction_layers_of ::
  "PISAInstruction list \<Rightarrow> (error + (string \<times> NODE_TYPE \<times> string option) list list) option" where
  "instruction_layers_of instructions =
     (case createGraph instructions of
        Inl e \<Rightarrow> Some (Inl e)
      | Inr g \<Rightarrow>
          (case getInstructionGraph g of
             Inl e \<Rightarrow> Some (Inl e)
           | Inr ig \<Rightarrow> map_option (map_sum id layer_view) (getGraphInputLayers ig)))"

subsection \<open>Printing instructions (\<^verbatim>\<open>p_isa_instruction.h\<close>, the \<^verbatim>\<open>operator<<\<close> overloads)\<close>

definition print_WParam :: "WParam \<Rightarrow> string" where
  "print_WParam op =
     ''w_'' @ show_int (sint (wp_residual op)) @ ''_'' @ show_int (sint (wp_stage op))
     @ ''_'' @ show_int (sint (wp_block op))"

definition print_Operand :: "Operand \<Rightarrow> string" where
  "print_Operand op =
     m_location op
     @ (if m_immediate op = False \<and> m_output_bank op
        then '' ('' @ show_int (sint (m_bank op)) @ '')'' else [])"

text \<open>
  One case of the \<^verbatim>\<open>switch\<close> in \<^verbatim>\<open>operator<<(stream, PISAInstruction)\<close>: the text
  written for the parameter and the operand counters after it.
\<close>

fun print_param ::
  "PISAInstruction \<Rightarrow> PARAM_TYPE \<Rightarrow> nat \<times> nat \<Rightarrow> error + string \<times> nat \<times> nat" where
  "print_param instr GROUP_ID (ic, oc) = Inr (show_int (sint (m_group_id instr)) @ '' '', ic, oc)"
| "print_param instr STAGE (ic, oc) = Inr (show_int (sint (m_stage instr)) @ '' '', ic, oc)"
| "print_param instr BLOCK (ic, oc) = Inr (show_int (sint (m_block instr)) @ '' '', ic, oc)"
| "print_param instr OP_NAME (ic, oc) = Inr (m_operation_name instr @ '' '', ic, oc)"
| "print_param instr INPUT_OPERAND (ic, oc) =
     thenE (getInputOperand instr ic) (\<lambda>op. Inr (print_Operand op, ic + 1, oc))"
| "print_param instr OUTPUT_OPERAND (ic, oc) =
     thenE (getOutputOperand instr oc) (\<lambda>op. Inr (print_Operand op, ic, oc + 1))"
| "print_param instr INPUT_OUTPUT_OPERAND (ic, oc) =
     thenE (getOutputOperand instr oc) (\<lambda>op. Inr (print_Operand op, ic + 1, oc + 1))"
| "print_param instr POLYMOD_DEG_LOG2 (ic, oc) = Inr (show_int (sint (m_pmd_log2 instr)), ic, oc)"
| "print_param instr RESIDUAL (ic, oc) = Inr (show_int (sint (m_residual instr)), ic, oc)"
| "print_param instr W_PACKED_PARAM (ic, oc) = Inr (print_WParam (m_w_param instr), ic, oc)"
| "print_param instr IMMEDIATE (ic, oc) =
     thenE (getInputOperand instr ic) (\<lambda>op. Inr (print_Operand op, ic + 1, oc))"
| "print_param instr GALOIS_ELEMENT (ic, oc) =
     Inr (show_int (sint (m_galois_element instr)), ic + 1, oc)"
| "print_param instr ADDITIONAL_PARAMS (ic, oc) = Inr ([], ic, oc)"

text \<open>The loop over the description; every parameter but the first is preceded by \<^verbatim>\<open>", "\<close>.\<close>

fun print_params ::
  "PISAInstruction \<Rightarrow> PARAM_TYPE list \<Rightarrow> nat \<Rightarrow> nat \<times> nat \<Rightarrow> error + string" where
  "print_params instr [] element counts = Inr []"
| "print_params instr (x # xs) element counts =
     thenE (print_param instr x counts) (\<lambda>(text, counts).
     thenE (print_params instr xs (element + 1) counts) (\<lambda>rest.
     Inr ((if element \<noteq> 0 then '', '' else []) @ text @ rest)))"

definition print_instruction :: "PISAInstruction \<Rightarrow> error + string" where
  "print_instruction instr = print_params instr (m_description instr) 0 (0, 0)"

subsection \<open>Parsing instructions (\<^verbatim>\<open>p_isa_parser.cpp\<close>, the parsing constructors)\<close>

text \<open>\<^verbatim>\<open>whiteSpaceRemoved\<close> (\<^verbatim>\<open>string.h\<close>) removes the blanks, and only them.\<close>

definition whiteSpaceRemoved :: "string \<Rightarrow> string" where
  "whiteSpaceRemoved str = filter (\<lambda>c. c \<noteq> CHR '' '') str"

text \<open>
  \<^verbatim>\<open>stream >> token\<close> for a string: skips white space, then takes the characters up to
  the next white space; the token and the rest of the stream. (On an exhausted stream
  the token stays empty.)
\<close>

definition extract_token :: "string \<Rightarrow> string \<times> string" where
  "extract_token s =
     (let s1 = dropWhile isspace s
      in (takeWhile (\<lambda>c. \<not> isspace c) s1, dropWhile (\<lambda>c. \<not> isspace c) s1))"

text \<open>
  \<^verbatim>\<open>Operand(const std::string &location_and_bank)\<close>: the location is the first token;
  a second token of more than two characters is the bank in parentheses. Without it
  \<^verbatim>\<open>m_bank\<close> stays uninitialised (\<open>fresh_bank\<close>).
\<close>

definition Operand_parse :: "cint \<Rightarrow> string \<Rightarrow> error + Operand" where
  "Operand_parse fresh_bank location_and_bank =
     (case extract_token location_and_bank of (location, rest) \<Rightarrow>
      case extract_token rest of (bank, _) \<Rightarrow>
        let op = setLocation location
                   \<lparr>m_location_root = [], m_location_index = [], m_location = [],
                    m_bank = fresh_bank, m_immediate = False, m_output_bank = True\<rparr>
        in if 2 < length bank
           then thenE (stoi (take (length bank - 2) (drop 1 bank))) (\<lambda>b.
                  Inr (op\<lparr>m_bank := word_of_int b\<rparr>))
           else Inr op)"

text \<open>
  \<^verbatim>\<open>std::getline(stream, token, delim)\<close> on a string stream. The state is the token, the
  rest of the stream and whether the stream is still good. On a stream that is not good
  nothing happens and the token keeps its value. Otherwise the token becomes the text
  up to the delimiter, which is consumed; when there is no delimiter the token is the
  whole rest and the stream has reached its end, so that it is no longer good.
\<close>

definition getline_delim :: "char \<Rightarrow> string \<times> string \<times> bool \<Rightarrow> string \<times> string \<times> bool" where
  "getline_delim d st =
     (case st of (token, s, good) \<Rightarrow>
        if \<not> good then (token, s, good)
        else if d \<in> set s
        then (takeWhile (\<lambda>c. c \<noteq> d) s, drop 1 (dropWhile (\<lambda>c. c \<noteq> d) s), True)
        else (s, [], False))"

text \<open>
  \<^verbatim>\<open>WParam(const std::string &w_param)\<close>: \<^verbatim>\<open>w_<res>_<stage>_<block>\<close>. The same token
  variable is read four times; the last read is up to the end of the line.
\<close>

definition WParam_parse :: "string \<Rightarrow> error + WParam" where
  "WParam_parse w_param =
     (let st = getline_delim (CHR ''_'') ([], w_param, True);
          st = getline_delim (CHR ''_'') st
      in thenE (stoi (fst st)) (\<lambda>residual.
         let st = getline_delim (CHR ''_'') st
         in thenE (stoi (fst st)) (\<lambda>stage.
            let st = getline_delim newline st
            in thenE (stoi (fst st)) (\<lambda>block.
               Inr \<lparr>wp_residual = word_of_int residual, wp_stage = word_of_int stage,
                    wp_block = word_of_int block\<rparr>))))"

definition addInputOperand :: "Operand \<Rightarrow> PISAInstruction \<Rightarrow> PISAInstruction" where
  "addInputOperand op instr = instr\<lparr>m_input_operands := m_input_operands instr @ [op]\<rparr>"

definition addOutputOperand :: "Operand \<Rightarrow> PISAInstruction \<Rightarrow> PISAInstruction" where
  "addOutputOperand op instr = instr\<lparr>m_output_operands := m_output_operands instr @ [op]\<rparr>"

text \<open>
  \<^verbatim>\<open>parseComponent\<close> with the \<^verbatim>\<open>parse_...\<close> routines it dispatches to. \<open>fresh_bank k\<close> is
  the uninitialised bank of the \<open>k\<close>-th operand constructed for the component.
\<close>

fun parseComponent ::
  "(nat \<Rightarrow> cint) \<Rightarrow> string \<Rightarrow> PARAM_TYPE \<Rightarrow> PISAInstruction \<Rightarrow> error + PISAInstruction" where
  "parseComponent fresh_bank c GROUP_ID instr =
     thenE (stoi c) (\<lambda>v. Inr (instr\<lparr>m_group_id := word_of_int v\<rparr>))"
| "parseComponent fresh_bank c STAGE instr =
     thenE (stoi c) (\<lambda>v. Inr (instr\<lparr>m_stage := word_of_int v\<rparr>))"
| "parseComponent fresh_bank c BLOCK instr =
     thenE (stoi c) (\<lambda>v. Inr (instr\<lparr>m_block := word_of_int v\<rparr>))"
| "parseComponent fresh_bank c IMMEDIATE instr =
     Inr (addInputOperand (Operand_immediate (fresh_bank 0) (whiteSpaceRemoved c) True) instr)"
| "parseComponent fresh_bank c W_PACKED_PARAM instr =
     thenE (WParam_parse c) (\<lambda>w. Inr (instr\<lparr>m_w_param := w\<rparr>))"
| "parseComponent fresh_bank c INPUT_OUTPUT_OPERAND instr =
     thenE (Operand_parse (fresh_bank 0) c) (\<lambda>op_in.
     thenE (Operand_parse (fresh_bank 1) c) (\<lambda>op_out.
     Inr (addOutputOperand op_out (addInputOperand op_in instr))))"
| "parseComponent fresh_bank c OP_NAME instr =
     Inr (instr\<lparr>m_operation_name := whiteSpaceRemoved c\<rparr>)"
| "parseComponent fresh_bank c INPUT_OPERAND instr =
     thenE (Operand_parse (fresh_bank 0) c) (\<lambda>op. Inr (addInputOperand op instr))"
| "parseComponent fresh_bank c OUTPUT_OPERAND instr =
     thenE (Operand_parse (fresh_bank 0) c) (\<lambda>op. Inr (addOutputOperand op instr))"
| "parseComponent fresh_bank c POLYMOD_DEG_LOG2 instr =
     thenE (stoi c) (\<lambda>v. Inr (instr\<lparr>m_pmd_log2 := word_of_int v\<rparr>))"
| "parseComponent fresh_bank c RESIDUAL instr =
     thenE (stoi c) (\<lambda>v. Inr (instr\<lparr>m_residual := word_of_int v\<rparr>))"
| "parseComponent fresh_bank c GALOIS_ELEMENT instr =
     thenE (stoi c) (\<lambda>v. Inr (instr\<lparr>m_galois_element := word_of_int v\<rparr>))"
| "parseComponent fresh_bank c ADDITIONAL_PARAMS instr =
     Inl (LogicError ''parse_ADDITIONAL_PARAMS not implemented.'')"

text \<open>
  \<^verbatim>\<open>InstructionMap\<close> (\<^verbatim>\<open>p_isa.h\<close>) with \<^verbatim>\<open>create()\<close>: the default-constructed instruction
  of the opcode.
\<close>

definition InstructionMap :: "string \<Rightarrow> (PISAInstruction \<Rightarrow> PISAInstruction) option" where
  "InstructionMap name =
     map_of [(''add'', Add_init), (''sub'', Sub_init), (''mul'', Mul_init), (''mac'', Mac_init),
             (''maci'', Maci_init), (''intt'', Intt_init), (''ntt'', Ntt_init),
             (''muli'', Muli_init), (''copy'', Copy_init)] name"

text \<open>
  The loop of \<^verbatim>\<open>parseInstruction\<close>: component \<open>x\<close> is parsed as parameter \<open>x\<close> of the
  description; a component beyond the description indexes the parameter vector out of
  range.
\<close>

fun parse_components ::
  "(nat \<Rightarrow> nat \<Rightarrow> cint) \<Rightarrow> nat \<Rightarrow> string list \<Rightarrow> PISAInstruction \<Rightarrow> error + PISAInstruction" where
  "parse_components fresh_bank x [] instr = Inr instr"
| "parse_components fresh_bank x (c # cs) instr =
     (if x < length (m_description instr)
      then thenE (parseComponent (fresh_bank x) c (m_description instr ! x) instr)
             (parse_components fresh_bank (Suc x) cs)
      else Inl UndefinedBehaviour)"

text \<open>
  \<^verbatim>\<open>parseInstruction(components)\<close>. A \<^verbatim>\<open>std::out_of_range\<close>, thrown by the map for an
  opcode it does not hold or by \<^verbatim>\<open>std::stoi\<close>, is caught; the handler prints a message and
  control reaches a \<^verbatim>\<open>throw;\<close> without an exception in flight, which terminates the
  program. Every other exception is thrown again.
\<close>

fun catch_out_of_range :: "error + 'a \<Rightarrow> error + 'a" where
  "catch_out_of_range (Inl OutOfRange) = Inl Terminate"
| "catch_out_of_range r = r"

definition parseInstruction ::
  "PISAInstruction \<Rightarrow> (nat \<Rightarrow> nat \<Rightarrow> cint) \<Rightarrow> string list \<Rightarrow> error + PISAInstruction" where
  "parseInstruction fresh fresh_bank components =
     thenE (component components 1) (\<lambda>c.
     case InstructionMap (whiteSpaceRemoved c) of
       None \<Rightarrow> Inl Terminate
     | Some create \<Rightarrow>
         catch_out_of_range (parse_components fresh_bank 0 components (create fresh)))"

text \<open>A line of the instruction file: its pieces between commas.\<close>

definition parse_line ::
  "PISAInstruction \<Rightarrow> (nat \<Rightarrow> nat \<Rightarrow> cint) \<Rightarrow> string \<Rightarrow> error + PISAInstruction" where
  "parse_line fresh fresh_bank current_line =
     parseInstruction fresh fresh_bank (split_on (CHR '','') current_line)"

subsection \<open>Instructions that the text format can carry\<close>

text \<open>
  A location that survives the text format: not empty, without white space and without
  a comma.
\<close>

definition plain_location :: "string \<Rightarrow> bool" where
  "plain_location l \<longleftrightarrow> l \<noteq> [] \<and> (\<forall>c \<in> set l. \<not> isspace c \<and> c \<noteq> CHR '','')"

text \<open>An operand fits a parameter when it is an immediate exactly for \<open>IMMEDIATE\<close>.\<close>

definition operand_fits :: "PARAM_TYPE \<Rightarrow> Operand \<Rightarrow> bool" where
  "operand_fits x op \<longleftrightarrow> plain_location (m_location op) \<and> (m_immediate op \<longleftrightarrow> x = IMMEDIATE)"

text \<open>
  The attributes of an operand that the text carries: the location, and the bank of an
  operand that is not an immediate.
\<close>

definition same_operand :: "Operand \<Rightarrow> Operand \<Rightarrow> bool" where
  "same_operand a b \<longleftrightarrow>
     m_location a = m_location b \<and> m_immediate a = m_immediate b
     \<and> (\<not> m_immediate a \<longrightarrow> m_bank a = m_bank b)"

text \<open>
  An instruction with every field of its description populated: the opcode is in the
  instruction map and the description is the one of the opcode, the operand lists have
  one fitting operand per operand parameter, the operand of an input-output parameter
  is the first input as well as the first output, and banks are written.
\<close>

definition populated :: "PISAInstruction \<Rightarrow> bool" where
  "populated I \<longleftrightarrow>
     (\<exists>create. InstructionMap (m_operation_name I) = Some create
        \<and> m_description I = m_description (create I))
     \<and> m_output_block I
     \<and> list_all2 operand_fits
         (filter (\<lambda>x. x \<in> {OUTPUT_OPERAND, INPUT_OUTPUT_OPERAND}) (m_description I))
         (m_output_operands I)
     \<and> list_all2 operand_fits
         (filter (\<lambda>x. x \<in> {INPUT_OPERAND, INPUT_OUTPUT_OPERAND, IMMEDIATE}) (m_description I))
         (m_input_operands I)
     \<and> (INPUT_OUTPUT_OPERAND \<in> set (m_description I) \<longrightarrow>
          same_operand (hd (m_input_operands I)) (hd (m_output_operands I)))"

text \<open>Two instructions with the same content in every field of the description.\<close>

definition same_instruction :: "PISAInstruction \<Rightarrow> PISAInstruction \<Rightarrow> bool" where
  "same_instruction I J \<longleftrightarrow>
     m_operation_name J = m_operation_name I
     \<and> m_description J = m_description I
     \<and> list_all2 same_operand (m_output_operands I) (m_output_operands J)
     \<and> list_all2 same_operand (m_input_operands I) (m_input_operands J)
     \<and> (POLYMOD_DEG_LOG2 \<in> set (m_description I) \<longrightarrow> m_pmd_log2 J = m_pmd_log2 I)
     \<and> (RESIDUAL \<in> set (m_description I) \<longrightarrow> m_residual J = m_residual I)
     \<and> (W_PACKED_PARAM \<in> set (m_description I) \<longrightarrow> m_w_param J = m_w_param I)
     \<and> (GALOIS_ELEMENT \<in> set (m_description I) \<longrightarrow> m_galois_element J = m_galois_element I)
     \<and> (GROUP_ID \<in> set (m_description I) \<longrightarrow> m_group_id J = m_group_id I)
     \<and> (STAGE \<in> set (m_description I) \<longrightarrow> m_stage J = m_stage I)
     \<and> (BLOCK \<in> set (m_description I) \<longrightarrow> m_block J = m_block I)"

text \<open>
  The instruction of the line \<^verbatim>\<open>13, add, r_0_1 (2), r_0_2 (0), r_0_3 (0), 0\<close>, built by the
  constructor \<^verbatim>\<open>Add(13, Operand("r_0_1", bank), Operand("r_0_2", 0), Operand("r_0_3", 0), 0)\<close>
  followed by \<^verbatim>\<open>setOutputBlock(flag)\<close>, with the location of the output as a parameter.
\<close>

definition instruction_S5 :: "bool \<Rightarrow> string \<Rightarrow> cint \<Rightarrow> PISAInstruction" where
  "instruction_S5 flag location bank =
     (Add_new zero_instruction 13 (Operand_bank location bank) (Operand_bank ''r_0_2'' 0)
        (Operand_bank ''r_0_3'' 0) 0)\<lparr>m_output_block := flag\<rparr>"

definition line_S5 :: string where
  "line_S5 = ''13, add, r_0_1 (2), r_0_2 (0), r_0_3 (0), 0''"

section \<open>Theorems\<close>

subsection \<open>Modular arithmetic kernel\<close>

lemma unat_lt32: "unat (w :: u32) < 2 ^ 32"
  using unsigned_less [of w] by simp

lemma unat_lt64: "unat (w :: u64) < 2 ^ 64"
  using unsigned_less [of w] by simp


lemma unat_and_mask32: "unat ((w :: u64) AND 0xFFFFFFFF) = unat w mod 2 ^ 32"
proof -
  have "(0xFFFFFFFF :: u64) = mask 32" by (simp add: mask_eq_exp_minus_1)
  then have "w AND 0xFFFFFFFF = take_bit 32 w" by (simp add: take_bit_eq_mask)
  then show ?thesis by (simp add: take_bit_eq_mod unat_mod)
qed

lemma unat_drop32: "unat (drop_bit 32 (w::u64)) = unat w div 2^32"
  by (simp add: drop_bit_eq_div unat_div)

lemma unat_ucast_32_64: "unat (ucast (w :: u32) :: u64) = unat w"
  using unat_lt32 [of w] by (simp add: unsigned_ucast_eq take_bit_nat_eq_self)

lemma unat_minus2: "unat ((q :: u32) - 2) = (unat q + 2 ^ 32 - 2) mod 2 ^ 32"
proof (cases "2 \<le> unat q")
  case True
  have "(unat q + 2 ^ 32 - 2) = (unat q - 2) + 1 * 2 ^ 32" using True by simp
  then have "(unat q + 2 ^ 32 - 2) mod 2 ^ 32 = (unat q - 2) mod 2 ^ 32"
    by (metis mod_mult_self1)
  then show ?thesis using True unat_lt32 [of q] by (simp add: unat_sub_if_size word_size)
next
  case False
  then show ?thesis using unat_lt32 [of q] by (simp add: unat_sub_if_size word_size)
qed


lemma mont_nat_lt:
  assumes Q: "Q < 2 ^ 31" and A: "A < Q" and B: "B < Q"
  shows "mont_nat A B Q < Q"
proof -
  define m where "m = ((A * B) mod 2 ^ 32 * ((Q + 2 ^ 32 - 2) mod 2 ^ 32)) mod (2 ^ 32 :: nat)"
  define u' where "u' = (A * B + m * Q) div 2 ^ 32"
  have m: "m < 2 ^ 32" unfolding m_def by simp
  have "A * B \<le> Q * Q" using A B by (intro mult_mono) auto
  also have "\<dots> \<le> Q * 2 ^ 31" using Q by (intro mult_mono) auto
  finally have AB: "A * B \<le> Q * 2 ^ 31" .
  have "m * Q < 2 ^ 32 * Q" using m A by (intro mult_strict_right_mono) auto
  with AB have "A * B + m * Q < Q * 2 ^ 31 + 2 ^ 32 * Q" by (rule add_le_less_mono)
  also have "\<dots> \<le> (2 * Q) * 2 ^ 32" by simp
  finally have "A * B + m * Q < (2 * Q) * 2 ^ 32" .
  then have "u' < 2 * Q" unfolding u'_def by (rule less_mult_imp_div_less)
  moreover have "mont_nat A B Q = (if Q \<le> u' then u' - Q else u')"
    by (simp add: mont_nat_def Let_def m_def u'_def)
  ultimately show ?thesis by (simp split: if_splits)
qed

lemma mont_nat_dvd_aux:
  fixes u d :: nat
  defines "n \<equiv> 2 ^ 16 * d"
  shows "(2 ^ 32 :: nat) dvd u + (u mod 2 ^ 32 * ((n + 1 + 2 ^ 32 - 2) mod 2 ^ 32)) mod 2 ^ 32 * (n + 1)"
proof -
  define k where "k = n + 1 + 2 ^ 32 - 2"
  have kn: "k = n + 4294967295" by (simp add: k_def)
  have "(u + ((u mod 2 ^ 32) * (k mod 2 ^ 32)) mod 2 ^ 32 * (n + 1)) mod 2 ^ 32
       = (u + (u * k) mod 2 ^ 32 * (n + 1)) mod 2 ^ 32"
    by (simp only: mod_mult_eq)
  also have "\<dots> = (u + u * k * (n + 1)) mod 2 ^ 32"
    by (metis mod_add_right_eq mod_mult_left_eq)
  also have "u + u * k * (n + 1) = u * d * d * 2 ^ 32 + 2 ^ 32 * (u * (n + 1))"
    by (simp add: kn n_def algebra_simps)
  also have "\<dots> mod 2 ^ 32 = 0"
    by (metis mod_mult_self1_is_0 mod_mult_self2 mult.commute mod_0 add.commute mod_mult_self4)
  finally have "(u + ((u mod 2 ^ 32) * (k mod 2 ^ 32)) mod 2 ^ 32 * (n + 1)) mod 2 ^ 32 = 0" .
  then show ?thesis unfolding k_def by (simp only: mod_eq_0_iff_dvd)
qed

lemma mont_nat_dvd:
  assumes Q1: "Q mod 2 ^ 16 = 1"
  shows "(2 ^ 32 :: nat) dvd u + ((u mod 2 ^ 32) * ((Q + 2 ^ 32 - 2) mod 2 ^ 32)) mod 2 ^ 32 * Q"
proof -
  have "Q = 2 ^ 16 * (Q div 2 ^ 16) + 1"
    using Q1 mult_div_mod_eq [of "2 ^ 16" Q] by simp
  then show ?thesis using mont_nat_dvd_aux [of u "Q div 2 ^ 16"] by metis
qed

lemma mont_nat_correct:
  assumes Q1: "Q mod 2 ^ 16 = 1" and Q: "Q < 2 ^ 31"
  shows "(mont_nat A B Q * 2 ^ 32) mod Q = (A * B) mod Q"
proof -
  define m where "m = ((A * B) mod 2 ^ 32 * ((Q + 2 ^ 32 - 2) mod 2 ^ 32)) mod (2 ^ 32 :: nat)"
  define u' where "u' = (A * B + m * Q) div 2 ^ 32"
  have "(2 ^ 32 :: nat) dvd A * B + m * Q"
    unfolding m_def using mont_nat_dvd [OF Q1, of "A * B"] by simp
  then have u': "u' * 2 ^ 32 = A * B + m * Q" unfolding u'_def by simp
  have r: "mont_nat A B Q = (if Q \<le> u' then u' - Q else u')"
    by (simp add: mont_nat_def Let_def m_def u'_def)
  have "(mont_nat A B Q * 2 ^ 32) mod Q = (u' * 2 ^ 32) mod Q"
  proof (cases "Q \<le> u'")
    case True
    then have "u' * 2 ^ 32 = (u' - Q) * 2 ^ 32 + 2 ^ 32 * Q" by (simp add: algebra_simps)
    then show ?thesis using True r by (metis mod_mult_self1 mult.commute)
  next
    case False
    then show ?thesis using r by simp
  qed
  also have "\<dots> = (A * B) mod Q" unfolding u' by simp
  finally show ?thesis .
qed

lemma mont_to_nat:
  assumes q: "unat q < 2 ^ 31" and a: "unat a < unat q" and b: "unat b < unat q"
  shows "unat (montgomeryMul_mont a b q) = mont_nat (unat a) (unat b) (unat q)"
proof -
  define A B Q where "A = unat a" and "B = unat b" and "Q = unat q"
  define k where "k = (Q + 2 ^ 32 - 2) mod (2 ^ 32 :: nat)"
  define m where "m = ((A * B) mod 2 ^ 32 * k) mod (2 ^ 32 :: nat)"
  define u' where "u' = (A * B + m * Q) div 2 ^ 32"
  have AQ: "A < Q" "B < Q" "Q < 2 ^ 31" using a b q by (simp_all add: A_def B_def Q_def)
  have "A * B \<le> Q * Q" using AQ by (intro mult_mono) auto
  also have "\<dots> \<le> 2 ^ 31 * 2 ^ 31" using AQ by (intro mult_mono) auto
  finally have AB: "A * B \<le> 2 ^ 62" by simp
  have kl: "k < 2 ^ 32" by (simp add: k_def)
  have ml: "m < 2 ^ 32" by (simp add: m_def)
  have u1: "unat ((ucast a :: u64) * ucast b) = A * B"
    using AB by (simp add: unat_mult_lem [THEN iffD1] unat_ucast_32_64 A_def B_def)
  have k1: "unat (ucast (q - 2) :: u64) = k"
    by (simp add: unat_ucast_32_64 unat_minus2 k_def Q_def)
  have t1: "unat (((ucast a :: u64) * ucast b) AND 0xFFFFFFFF) = (A * B) mod 2 ^ 32"
    by (simp only: unat_and_mask32 u1)
  have "(A * B) mod 2 ^ 32 * k < 2 ^ 32 * 2 ^ 32"
    using kl by (intro mult_strict_mono) auto
  then have tk: "unat ((((ucast a :: u64) * ucast b) AND 0xFFFFFFFF) * ucast (q - 2)) = (A * B) mod 2 ^ 32 * k"
    using t1 k1 by (simp add: unat_mult_lem [THEN iffD1])
  have m1: "unat (((((ucast a :: u64) * ucast b) AND 0xFFFFFFFF) * ucast (q - 2)) AND 0xFFFFFFFF) = m"
    by (simp only: unat_and_mask32 tk m_def)
  have "m * Q \<le> 2 ^ 32 * 2 ^ 31" using ml AQ by (intro mult_mono) auto
  then have mQl: "m * Q \<le> 2 ^ 63" by simp
  then have mQ: "unat ((((((ucast a :: u64) * ucast b) AND 0xFFFFFFFF) * ucast (q - 2)) AND 0xFFFFFFFF) * ucast q) = m * Q"
    using m1 by (simp add: unat_mult_lem [THEN iffD1] unat_ucast_32_64 Q_def)
  have sum: "unat ((ucast a :: u64) * ucast b + (((((ucast a :: u64) * ucast b) AND 0xFFFFFFFF) * ucast (q - 2)) AND 0xFFFFFFFF) * ucast q) = A * B + m * Q"
    using AB mQl u1 mQ by (simp add: unat_add_lem [THEN iffD1])
  have d: "unat (drop_bit 32 ((ucast a :: u64) * ucast b + (((((ucast a :: u64) * ucast b) AND 0xFFFFFFFF) * ucast (q - 2)) AND 0xFFFFFFFF) * ucast q)) = u'"
    by (simp only: unat_drop32 sum u'_def)
  have ABQ: "A * B \<le> Q * 2 ^ 31" using AQ by (intro mult_mono) auto
  have "m * Q < 2 ^ 32 * Q" using ml AQ by (intro mult_strict_right_mono) auto
  with ABQ have "A * B + m * Q < Q * 2 ^ 31 + 2 ^ 32 * Q" by (rule add_le_less_mono)
  also have "\<dots> \<le> (2 * Q) * 2 ^ 32" by simp
  finally have "A * B + m * Q < (2 * Q) * 2 ^ 32" .
  then have u'l: "u' < 2 * Q" unfolding u'_def by (rule less_mult_imp_div_less)
  define w where "w = drop_bit 32 ((ucast a :: u64) * ucast b + (((((ucast a :: u64) * ucast b) AND 0xFFFFFFFF) * ucast (q - 2)) AND 0xFFFFFFFF) * ucast q)"
  have wu: "unat w = u'" using d by (simp only: w_def)
  have qq: "unat (ucast q :: u64) = Q" by (simp only: unat_ucast_32_64 Q_def)
  have le: "(ucast q \<le> w) = (Q \<le> u')" by (simp only: word_le_nat_alt wu qq)
  have r: "unat (w - (if ucast q \<le> w then ucast q else 0)) = (if Q \<le> u' then u' - Q else u')"
  proof (cases "Q \<le> u'")
    case True
    then have "ucast q \<le> w" by (simp only: le)
    then have "unat (w - ucast q) = unat w - unat (ucast q :: u64)" by (rule unat_sub)
    then show ?thesis using True le wu qq by simp
  next
    case False
    then show ?thesis using le wu by simp
  qed
  have rl: "(if Q \<le> u' then u' - Q else u') < 2 ^ 32" using u'l AQ by (auto split: if_splits)
  have "unat (ucast (w - (if ucast q \<le> w then ucast q else 0)) :: u32) = (if Q \<le> u' then u' - Q else u')"
    using rl r by (simp add: unsigned_ucast_eq take_bit_nat_eq_self)
  moreover have "mont_nat A B Q = (if Q \<le> u' then u' - Q else u')"
    by (simp only: mont_nat_def Let_def m_def u'_def k_def)
  moreover have "montgomeryMul_mont a b q = ucast (w - (if ucast q \<le> w then ucast q else 0))"
    by (simp only: montgomeryMul_mont_def Let_def w_def)
  ultimately show ?thesis by (simp only: A_def B_def Q_def)
qed

lemma unat_ucast_64_32: "unat (w :: u64) < 2 ^ 32 \<Longrightarrow> unat (ucast w :: u32) = unat w"
  by (simp add: unsigned_ucast_eq take_bit_nat_eq_self)

lemma montgomeryAdd_mont_mod:
  assumes q: "unat q < 2 ^ 31" and a: "unat a < unat q" and b: "unat b < unat q"
  shows "unat (montgomeryAdd_mont a b q) = (unat a + unat b) mod unat q"
proof -
  have s: "unat (a + b) = unat a + unat b"
    using q a b by (simp add: unat_add_lem [THEN iffD1])
  have u: "unat (ucast (a + b) :: u64) = unat a + unat b"
    by (simp only: unat_ucast_32_64 s)
  have qq: "unat (ucast q :: u64) = unat q" by (simp only: unat_ucast_32_64)
  show ?thesis
  proof (cases "unat a + unat b < unat q")
    case True
    then have "(ucast (a + b) :: u64) < ucast q" by (simp only: word_less_nat_alt u qq)
    then have "montgomeryAdd_mont a b q = ucast (ucast (a + b) :: u64)"
      by (simp add: montgomeryAdd_mont_def Let_def)
    then show ?thesis using True u q a b by (simp add: unat_ucast_64_32)
  next
    case False
    then have nl: "\<not> (ucast (a + b) :: u64) < ucast q" unfolding word_less_nat_alt u qq .
    then have le: "(ucast q :: u64) \<le> ucast (a + b)" by simp
    have "unat ((ucast (a + b) :: u64) - ucast q) = unat a + unat b - unat q"
      using unat_sub [OF le] by (simp only: u qq)
    moreover have "montgomeryAdd_mont a b q = ucast ((ucast (a + b) :: u64) - ucast q)"
      using nl by (simp add: montgomeryAdd_mont_def Let_def)
    moreover have "unat a + unat b - unat q < unat q" using a b by simp
    moreover have "(unat a + unat b) mod unat q = unat a + unat b - unat q"
      using False a b by (simp add: mod_if)
    ultimately show ?thesis using q by (simp add: unat_ucast_64_32)
  qed
qed

lemma montgomeryMul_True: "montgomeryMul a b q True = Inr (montgomeryMul_mont a b q)"
  by (simp add: montgomeryMul_def)

lemma mont_nat_reference:
  assumes Q1: "Q mod 2 ^ 16 = 1" and Q: "Q < 2 ^ 31" and A: "A < Q" and B: "B < Q"
    and inv: "is_R_inverse Q rinv"
  shows "mont_nat A B Q = montgomery_reference A B rinv Q"
proof -
  have lt: "mont_nat A B Q < Q" using Q A B by (rule mont_nat_lt)
  have "(A * B * rinv) mod Q = ((A * B) mod Q * rinv) mod Q"
    by (simp only: mod_mult_left_eq)
  also have "\<dots> = ((mont_nat A B Q * 2 ^ 32) mod Q * rinv) mod Q"
    by (simp only: mont_nat_correct [OF Q1 Q])
  also have "\<dots> = (mont_nat A B Q * (rinv * 2 ^ 32)) mod Q"
    by (simp only: mod_mult_left_eq mult.assoc mult.commute [of rinv])
  also have "\<dots> = (mont_nat A B Q * ((rinv * 2 ^ 32) mod Q)) mod Q"
    by (simp only: mod_mult_right_eq)
  also have "\<dots> = (mont_nat A B Q * (1 mod Q)) mod Q"
    using inv by (simp only: is_R_inverse_def)
  also have "\<dots> = mont_nat A B Q mod Q"
    by (simp only: mod_mult_right_eq mult_1_right)
  also have "\<dots> = mont_nat A B Q" using lt by simp
  finally show ?thesis by (simp only: montgomery_reference_def)
qed

text \<open>
  C1 (as stated, refuted). For the modulus \<open>q = 97 < 2\<^sup>3\<^sup>1\<close> and the operands \<open>2\<close> and
  \<open>3\<close> in \<open>[0, q)\<close>, \<open>montgomeryMul\<close> returns \<open>0\<close>, whereas the reference Montgomery
  product \<open>2 \<cdot> 3 \<cdot> R\<^sup>-\<^sup>1 mod 97\<close> is \<open>75\<close> (\<open>61\<close> is the inverse of \<open>2\<^sup>3\<^sup>2\<close> modulo \<open>97\<close>).
\<close>

theorem montgomeryMul_disagrees_at_97:
  "unat (97 :: u32) < 2 ^ 31 \<and> (2 :: u32) < 97 \<and> (3 :: u32) < 97
   \<and> is_R_inverse (unat (97 :: u32)) 61
   \<and> montgomeryMul 2 3 97 True = Inr 0
   \<and> montgomery_reference (unat (2 :: u32)) (unat (3 :: u32)) 61 (unat (97 :: u32)) = 75
   \<and> montgomeryMul 2 3 97 True
       \<noteq> Inr (of_nat (montgomery_reference (unat (2 :: u32)) (unat (3 :: u32)) 61 (unat (97 :: u32))))"
  by (simp add: is_R_inverse_def montgomery_reference_def montgomeryMul_def montgomeryMul_mont_def)

text \<open>
  C1 (amended). For every modulus \<open>q < 2\<^sup>3\<^sup>1\<close> and all \<open>a\<close>, \<open>b\<close> in \<open>[0, q)\<close>,
  \<open>montgomeryMul(a, b, q)\<close> returns a value in \<open>[0, q)\<close>; when moreover
  \<open>q mod 2\<^sup>1\<^sup>6 = 1\<close> (the moduli for which the constant \<open>k = q - 2\<close> of the implementation
  is \<open>-q\<^sup>-\<^sup>1 mod 2\<^sup>3\<^sup>2\<close>), the value agrees with the reference Montgomery product
  \<open>a \<cdot> b \<cdot> R\<^sup>-\<^sup>1 mod q\<close> with \<open>R = 2\<^sup>3\<^sup>2\<close>.
\<close>

theorem montgomeryMul_range_and_reference:
  assumes "unat q < 2 ^ 31" and "a < q" and "b < q"
  shows "\<exists>r. montgomeryMul a b q True = Inr r \<and> r < q
            \<and> (unat q mod 2 ^ 16 = 1 \<longrightarrow>
                 (\<forall>rinv. is_R_inverse (unat q) rinv \<longrightarrow>
                    unat r = montgomery_reference (unat a) (unat b) rinv (unat q)))"
proof -
  have a: "unat a < unat q" and b: "unat b < unat q"
    using assms by (simp_all add: word_less_nat_alt)
  have eq: "unat (montgomeryMul_mont a b q) = mont_nat (unat a) (unat b) (unat q)"
    using assms(1) a b by (rule mont_to_nat)
  have "unat (montgomeryMul_mont a b q) < unat q"
    unfolding eq using assms(1) a b by (rule mont_nat_lt)
  then have lt: "montgomeryMul_mont a b q < q" by (simp only: word_less_nat_alt)
  have "unat (montgomeryMul_mont a b q) = montgomery_reference (unat a) (unat b) rinv (unat q)"
    if "unat q mod 2 ^ 16 = 1" and "is_R_inverse (unat q) rinv" for rinv
    unfolding eq using that(1) assms(1) a b that(2) by (rule mont_nat_reference)
  with lt show ?thesis by (simp add: montgomeryMul_True)
qed

theorem montgomeryMul_range_and_reference_witness:
  "unat (786433 :: u32) < 2 ^ 31 \<and> (123456 :: u32) < 786433 \<and> (654321 :: u32) < 786433
   \<and> unat (786433 :: u32) mod 2 ^ 16 = 1 \<and> is_R_inverse (unat (786433 :: u32)) 144
   \<and> (\<exists>r. montgomeryMul 123456 654321 786433 True = Inr r \<and> r < 786433
          \<and> unat r = montgomery_reference (unat (123456 :: u32)) (unat (654321 :: u32)) 144
                        (unat (786433 :: u32)))"
proof -
  have h: "unat (786433 :: u32) < 2 ^ 31" "(123456 :: u32) < 786433" "(654321 :: u32) < 786433"
    by simp_all
  have q1: "unat (786433 :: u32) mod 2 ^ 16 = 1" by simp
  have inv: "is_R_inverse (unat (786433 :: u32)) 144" by (simp add: is_R_inverse_def)
  from montgomeryMul_range_and_reference [OF h] q1 inv
  have "\<exists>r. montgomeryMul 123456 654321 786433 True = Inr r \<and> r < 786433
          \<and> unat r = montgomery_reference (unat (123456 :: u32)) (unat (654321 :: u32)) 144
                        (unat (786433 :: u32))"
    by blast
  with h q1 inv show ?thesis by blast
qed

text \<open>
  C8 (code defect). With \<open>use_mont = false\<close> the fallback of \<open>montgomeryAdd\<close> evaluates
  \<^verbatim>\<open>a + b % modulus\<close>, that is \<open>a + (b mod q)\<close>: for \<open>a = 5\<close>, \<open>b = 3\<close>, \<open>q = 7\<close> it returns
  \<open>8\<close>, whereas \<open>(a + b) mod q = 1\<close>.
\<close>

theorem montgomeryAdd_fallback_at_5_3_7:
  "montgomeryAdd 5 3 7 False = Inr 8 \<and> ((5 + 3) mod 7 :: u32) = 1"
  by (simp add: montgomeryAdd_def)

subsection \<open>Decimal text\<close>

lemma lt10_cases: "d < 10 \<Longrightarrow> d \<in> {0, 1, 2, 3, 4, 5, 6, 7, 8, 9 :: nat}"
  by auto

lemma digit_char_props:
  assumes "d < 10"
  shows "is_digit (digit_char d)" and "digit_val (digit_char d) = d"
  using lt10_cases [OF assms]
  by (auto simp: digit_char_def is_digit_def digit_val_def)

lemma is_digit_not_special:
  "is_digit c \<Longrightarrow> \<not> isspace c \<and> c \<noteq> CHR ''-'' \<and> c \<noteq> CHR ''+'' \<and> c \<noteq> CHR ''_''
     \<and> c \<noteq> CHR '','' \<and> c \<noteq> CHR '' '' \<and> c \<noteq> CHR ''('' \<and> c \<noteq> CHR '')''"
  by (auto simp: is_digit_def isspace_def)

lemma show_nat_digits: "c \<in> set (show_nat n) \<Longrightarrow> is_digit c"
proof (induction n arbitrary: c rule: show_nat.induct)
  case (1 n)
  show ?case
  proof (cases "n < 10")
    case True
    then show ?thesis using 1(2) by (simp add: show_nat.simps [of n] digit_char_props)
  next
    case False
    then show ?thesis using 1 by (auto simp: show_nat.simps [of n] digit_char_props)
  qed
qed

lemma show_nat_nonempty: "show_nat n \<noteq> []"
  by (subst show_nat.simps) simp

lemma nat_of_digits_snoc: "nat_of_digits (ds @ [c]) = 10 * nat_of_digits ds + digit_val c"
  by (simp add: nat_of_digits_def)

lemma nat_of_digits_show_nat: "nat_of_digits (show_nat n) = n"
proof (induction n rule: show_nat.induct)
  case (1 n)
  show ?case
  proof (cases "n < 10")
    case True
    then show ?thesis by (simp add: show_nat.simps [of n] nat_of_digits_def digit_char_props)
  next
    case False
    then show ?thesis using 1
      by (simp add: show_nat.simps [of n] nat_of_digits_snoc digit_char_props)
  qed
qed

lemma takeWhile_digits_show_nat:
  assumes "rest = [] \<or> \<not> is_digit (hd rest)"
  shows "takeWhile is_digit (show_nat n @ rest) = show_nat n"
proof -
  have "takeWhile is_digit rest = []" using assms by (cases rest) auto
  then show ?thesis by (simp add: takeWhile_append2 show_nat_digits)
qed

lemma hd_show_nat_digit: "is_digit (hd (show_nat n))"
  using show_nat_nonempty [of n] show_nat_digits [of "hd (show_nat n)" n] by simp

lemma stoi_show_int:
  assumes range: "- (2 ^ 31) \<le> i" "i < 2 ^ 31"
    and rest: "rest = [] \<or> \<not> is_digit (hd rest)"
    and ws: "\<forall>c \<in> set ws. isspace c"
  shows "stoi (ws @ show_int i @ rest) = Inr i"
proof (cases "i < 0")
  case True
  have d: "dropWhile isspace (ws @ show_int i @ rest) = CHR ''-'' # show_nat (nat (- i)) @ rest"
    using ws True by (simp add: dropWhile_append2 show_int_def isspace_def)
  show ?thesis
    using True range
    by (simp add: stoi_def d Let_def takeWhile_digits_show_nat [OF rest] nat_of_digits_show_nat
        show_nat_nonempty)
next
  case False
  have h: "\<not> isspace (hd (show_nat (nat i)))" "hd (show_nat (nat i)) \<noteq> CHR ''-''"
      "hd (show_nat (nat i)) \<noteq> CHR ''+''"
    using hd_show_nat_digit [of "nat i"] is_digit_not_special by blast+
  obtain c cs where cs: "show_nat (nat i) = c # cs"
    using show_nat_nonempty [of "nat i"] by (cases "show_nat (nat i)") auto
  have d: "dropWhile isspace (ws @ show_int i @ rest) = show_nat (nat i) @ rest"
    using ws False h(1) by (simp add: dropWhile_append2 show_int_def cs)
  have "hd (show_nat (nat i) @ rest) = hd (show_nat (nat i))"
    using show_nat_nonempty by simp
  then show ?thesis
    using False range h
    by (simp add: stoi_def d Let_def takeWhile_digits_show_nat [OF rest] nat_of_digits_show_nat
        show_nat_nonempty)
qed

subsection \<open>Operand locations\<close>

lemma rfind_below_none:
  "count_list (take n s) c = 0 \<Longrightarrow> n \<le> length s \<Longrightarrow> rfind_below c s n = - 1"
proof (induction n)
  case 0 then show ?case by simp
next
  case (Suc n)
  then have "take (Suc n) s = take n s @ [s ! n]" by (simp add: take_Suc_conv_app_nth)
  with Suc show ?case by (auto split: if_splits)
qed

lemma rfind_below_some:
  "0 < count_list (take n s) c \<Longrightarrow> n \<le> length s \<Longrightarrow>
     \<exists>p. rfind_below c s n = int p \<and> p < n \<and> s ! p = c
         \<and> Suc (count_list (take p s) c) = count_list (take n s) c"
proof (induction n)
  case 0 then show ?case by simp
next
  case (Suc n)
  then have t: "take (Suc n) s = take n s @ [s ! n]" by (simp add: take_Suc_conv_app_nth)
  show ?case
  proof (cases "s ! n = c")
    case True
    then show ?thesis using t by auto
  next
    case False
    with Suc.prems t have "0 < count_list (take n s) c" by simp
    with Suc obtain p where "rfind_below c s n = int p" "p < n" "s ! p = c"
      "Suc (count_list (take p s) c) = count_list (take n s) c" by auto
    then show ?thesis using False t by auto
  qed
qed


lemma rfind_step:
  assumes "0 < count_list (take (nat (sz + 1)) s) c" and "- 1 \<le> sz" and "sz \<le> int (length s)"
  shows "\<exists>p. rfind c s sz = int p \<and> p < length s \<and> int p \<le> sz \<and> s ! p = c
            \<and> Suc (count_list (take p s) c) = count_list (take (nat (sz + 1)) s) c"
proof -
  define n where "n = (if sz < 0 \<or> int (length s) \<le> sz then length s else nat sz + 1)"
  have sz0: "0 \<le> sz"
  proof (rule ccontr)
    assume "\<not> 0 \<le> sz"
    with assms(2) have "sz = - 1" by simp
    with assms(1) show False by simp
  qed
  have n: "n \<le> length s" using sz0 by (auto simp: n_def)
  have tk: "take n s = take (nat (sz + 1)) s"
  proof (cases "int (length s) \<le> sz")
    case True
    then show ?thesis using sz0 by (simp add: n_def)
  next
    case False
    then have "n = nat (sz + 1)" using sz0 by (simp add: n_def nat_add_distrib)
    then show ?thesis by simp
  qed
  have nsz: "int n \<le> sz + 1" using sz0 assms(3) by (auto simp: n_def)
  from rfind_below_some [of n s c] assms(1) n tk
  obtain p where p: "rfind_below c s n = int p" "p < n" "s ! p = c"
      "Suc (count_list (take p s) c) = count_list (take n s) c" by auto
  have "rfind c s sz = int p" using p(1) by (simp add: rfind_def n_def)
  moreover have "p < length s" using p(2) n by simp
  moreover have "int p \<le> sz" using p(2) nsz by simp
  ultimately show ?thesis using p(3,4) tk by auto
qed

lemma splitLocation_loop:
  "j \<le> count_list s c \<Longrightarrow>
     (let sz = ((\<lambda>size. rfind c s size - 1) ^^ j) (int (length s)) in
        - 1 \<le> sz \<and> sz \<le> int (length s)
        \<and> (0 < j \<longrightarrow> nat (sz + 1) < length s \<and> s ! nat (sz + 1) = c)
        \<and> count_list (take (nat (sz + 1)) s) c + j = count_list s c)"
proof (induction j)
  case 0
  then show ?case by (simp add: nat_add_distrib)
next
  case (Suc j)
  define sz where "sz = ((\<lambda>size. rfind c s size - 1) ^^ j) (int (length s))"
  from Suc have IH: "- 1 \<le> sz" "sz \<le> int (length s)"
      "count_list (take (nat (sz + 1)) s) c + j = count_list s c"
    by (simp_all add: sz_def Let_def)
  with Suc.prems have "0 < count_list (take (nat (sz + 1)) s) c" by simp
  from rfind_step [OF this IH(1,2)]
  obtain p where p: "rfind c s sz = int p" "p < length s" "int p \<le> sz" "s ! p = c"
      "Suc (count_list (take p s) c) = count_list (take (nat (sz + 1)) s) c" by auto
  have "((\<lambda>size. rfind c s size - 1) ^^ Suc j) (int (length s)) = int p - 1"
    by (simp add: sz_def [symmetric] p(1))
  moreover have "nat (int p - 1 + 1) = p" by simp
  ultimately show ?case using p IH by (simp add: Let_def)
qed

lemma first_occurrence:
  assumes "count_list (take p s) c = 0" and "p < length s" and "s ! p = c"
  shows "takeWhile (\<lambda>x. x \<noteq> c) s = take p s" and "dropWhile (\<lambda>x. x \<noteq> c) s = drop p s"
proof -
  have "c \<notin> set (take p s)" using assms(1) by (simp add: count_list_0_iff)
  then have "\<And>i. i < p \<Longrightarrow> i < length s \<Longrightarrow> s ! i \<noteq> c"
    by (metis in_set_conv_nth length_take min_less_iff_conj nth_take)
  then show tw: "takeWhile (\<lambda>x. x \<noteq> c) s = take p s"
    using assms(3) by (intro takeWhile_eq_take_P_nth) auto
  have "length (takeWhile (\<lambda>x. x \<noteq> c) s) = p" using assms(2) by (simp add: tw)
  then show "dropWhile (\<lambda>x. x \<noteq> c) s = drop p s" by (simp add: dropWhile_eq_drop)
qed

lemma splitLocation_size:
  assumes "0 < count_list location (CHR ''_'')"
  shows "0 \<le> splitLocation_size location"
    and "nat (splitLocation_size location) < length location"
    and "nat (splitLocation_size location) = length (takeWhile (\<lambda>x. x \<noteq> CHR ''_'') location)"
proof -
  define sz where "sz = ((\<lambda>size. rfind (CHR ''_'') location size - 1) ^^ count_list location (CHR ''_''))
        (int (length location))"
  from splitLocation_loop [of "count_list location (CHR ''_'')" location "CHR ''_''"] assms
  have inv: "- 1 \<le> sz" "nat (sz + 1) < length location" "location ! nat (sz + 1) = CHR ''_''"
      "count_list (take (nat (sz + 1)) location) (CHR ''_'') = 0"
    by (simp_all add: sz_def Let_def)
  have eq: "splitLocation_size location = sz + 1" by (simp add: splitLocation_size_def sz_def)
  show "0 \<le> splitLocation_size location" using inv(1) eq by simp
  show "nat (splitLocation_size location) < length location" using inv(2) eq by simp
  show "nat (splitLocation_size location) = length (takeWhile (\<lambda>x. x \<noteq> CHR ''_'') location)"
    using first_occurrence(1) [OF inv(4,2,3)] inv(2) eq by simp
qed

lemma splitLocation_first_underscore:
  "splitLocation location =
     (takeWhile (\<lambda>x. x \<noteq> CHR ''_'') location, dropWhile (\<lambda>x. x \<noteq> CHR ''_'') location)"
proof (cases "count_list location (CHR ''_'') = 0")
  case True
  then have nin: "\<forall>x\<in>set location. x \<noteq> CHR ''_''" by (auto simp: count_list_0_iff)
  have tw: "takeWhile (\<lambda>x. x \<noteq> CHR ''_'') location = location"
    using nin by (simp add: takeWhile_eq_all_conv)
  have dw: "dropWhile (\<lambda>x. x \<noteq> CHR ''_'') location = []"
    using nin by simp
  show ?thesis by (simp add: splitLocation_def True tw dw)
next
  case False
  then have pos: "0 < count_list location (CHR ''_'')" by simp
  have "take (nat (splitLocation_size location)) location = takeWhile (\<lambda>x. x \<noteq> CHR ''_'') location"
    by (metis splitLocation_size(3) [OF pos] takeWhile_eq_take)
  moreover have "drop (nat (splitLocation_size location)) location = dropWhile (\<lambda>x. x \<noteq> CHR ''_'') location"
    by (metis splitLocation_size(3) [OF pos] dropWhile_eq_drop)
  ultimately show ?thesis using False by (simp add: splitLocation_def)
qed

lemma splitLocation_append: "fst (splitLocation location) @ snd (splitLocation location) = location"
  by (simp add: splitLocation_first_underscore)

lemma setLocation_fields:
  "m_location (setLocation location op) = location"
  "m_location_root (setLocation location op) = takeWhile (\<lambda>x. x \<noteq> CHR ''_'') location"
  "m_location_index (setLocation location op) = dropWhile (\<lambda>x. x \<noteq> CHR ''_'') location"
  "m_bank (setLocation location op) = m_bank op"
  "m_immediate (setLocation location op) = m_immediate op"
  "m_output_bank (setLocation location op) = m_output_bank op"
  by (simp_all add: setLocation_def splitLocation_first_underscore)

lemma Operand_bank_fields:
  "m_location (Operand_bank name bank) = name"
  "m_bank (Operand_bank name bank) = bank"
  "m_immediate (Operand_bank name bank) = False"
  "m_output_bank (Operand_bank name bank) = True"
  by (simp_all add: Operand_bank_def setLocation_fields)

text \<open>
  C5 (as stated, refuted). The location \<open>r_0_3_1\<close> splits into root \<open>r\<close> and index
  \<open>_0_3_1\<close>, not into root \<open>r_0_3\<close> and index \<open>_1\<close>: the loop of \<open>splitLocation\<close> steps
  back over every underscore, not only the final one.
\<close>

theorem splitLocation_r_0_3_1:
  "splitLocation ''r_0_3_1'' = (''r'', ''_0_3_1'')
   \<and> splitLocation ''r_0_3_1'' \<noteq> (''r_0_3'', ''_1'')"
  by (simp add: splitLocation_first_underscore)

text \<open>
  C5 (amended). For every operand location that contains at least one underscore, the
  derived (root, index) split cuts the location at its first underscore: root is the
  part before the first underscore (and contains none), index is the rest and begins
  with that underscore; root concatenated with index is the original location, and
  these are the fields that \<open>setLocation\<close> stores.
\<close>

theorem splitLocation_first:
  assumes "CHR ''_'' \<in> set location"
  shows "\<exists>root index. splitLocation location = (root, index)
           \<and> root = takeWhile (\<lambda>x. x \<noteq> CHR ''_'') location
           \<and> CHR ''_'' \<notin> set root
           \<and> index \<noteq> [] \<and> hd index = CHR ''_''
           \<and> root @ index = location
           \<and> m_location_root (setLocation location op) = root
           \<and> m_location_index (setLocation location op) = index
           \<and> m_location (setLocation location op) = location"
proof -
  have "dropWhile (\<lambda>x. x \<noteq> CHR ''_'') location \<noteq> []" using assms by simp
  moreover have "hd (dropWhile (\<lambda>x. x \<noteq> CHR ''_'') location) = CHR ''_''"
    using assms hd_dropWhile [of "\<lambda>x. x \<noteq> CHR ''_''" location] by simp
  moreover have "CHR ''_'' \<notin> set (takeWhile (\<lambda>x. x \<noteq> CHR ''_'') location)"
    using set_takeWhileD by fastforce
  ultimately show ?thesis
    by (simp add: splitLocation_first_underscore setLocation_fields)
qed

theorem splitLocation_first_witness:
  "CHR ''_'' \<in> set ''r_0_3_1''
   \<and> splitLocation ''r_0_3_1'' = (''r'', ''_0_3_1'')
   \<and> m_location_root (setLocation ''r_0_3_1'' (Operand_immediate 0 [] False)) = ''r''
   \<and> m_location_index (setLocation ''r_0_3_1'' (Operand_immediate 0 [] False)) = ''_0_3_1''
   \<and> m_location (setLocation ''r_0_3_1'' (Operand_immediate 0 [] False)) = ''r_0_3_1''"
proof -
  have h: "CHR ''_'' \<in> set ''r_0_3_1''" by simp
  from splitLocation_first [OF h, of "Operand_immediate 0 [] False"]
  show ?thesis using h by auto
qed

subsection \<open>The register file and the executors\<close>

lemma thenE_Inr_iff: "thenE r f = Inr y \<longleftrightarrow> (\<exists>x. r = Inr x \<and> f x = Inr y)"
  by (cases r) (simp_all add: thenE_def)

lemma thenE_Inr [simp]: "thenE (Inr x) f = f x"
  by (simp add: thenE_def)

lemma thenE_Inl [simp]: "thenE (Inl e) f = Inl e"
  by (simp add: thenE_def)

lemma lane_loop_0 [simp]: "lane_loop 0 rhs dst s = s"
  by (simp add: lane_loop_def)

lemma reg_upd_same [simp]: "reg (s(n \<mapsto> v)) n = v"
  by (simp add: reg_def)

lemma reg_upd_other [simp]: "m \<noteq> n \<Longrightarrow> reg (s(n \<mapsto> v)) m = reg s m"
  by (simp add: reg_def)

lemma lane_loop_Suc_dst:
  "reg (lane_loop (Suc k) rhs dst s) dst =
     (reg (lane_loop k rhs dst s) dst)[k := rhs (lane_loop k rhs dst s) k]"
  by (simp add: lane_loop_def)

lemma lane_loop_Suc_other:
  "n \<noteq> dst \<Longrightarrow> lane_loop (Suc k) rhs dst s n = lane_loop k rhs dst s n"
  by (simp add: lane_loop_def)

lemma lane_loop_other: "n \<noteq> dst \<Longrightarrow> lane_loop k rhs dst s n = s n"
  by (induction k) (simp_all add: lane_loop_Suc_other)

lemma reg_lane_loop_other: "n \<noteq> dst \<Longrightarrow> reg (lane_loop k rhs dst s) n = reg s n"
  by (simp add: reg_def lane_loop_other)

lemma lane_loop_length: "length (reg (lane_loop k rhs dst s) dst) = length (reg s dst)"
  by (induction k) (simp_all add: lane_loop_Suc_dst)

lemma lane_loop_lanes:
  assumes pw: "\<And>s s' x. (\<And>n. reg s n ! x = reg s' n ! x) \<Longrightarrow> rhs s x = rhs s' x"
    and len: "k \<le> length (reg s dst)"
  shows "(\<forall>i<k. reg (lane_loop k rhs dst s) dst ! i = rhs s i)
       \<and> (\<forall>i\<ge>k. reg (lane_loop k rhs dst s) dst ! i = reg s dst ! i)"
  using len
proof (induction k)
  case 0
  then show ?case by simp
next
  case (Suc k)
  define t where "t = lane_loop k rhs dst s"
  from Suc have IH: "\<forall>i<k. reg t dst ! i = rhs s i" "\<forall>i\<ge>k. reg t dst ! i = reg s dst ! i"
    by (simp_all add: t_def)
  have lt: "length (reg t dst) = length (reg s dst)" by (simp add: t_def lane_loop_length)
  have "reg t n ! k = reg s n ! k" for n
    using IH(2) by (cases "n = dst") (simp_all add: t_def reg_lane_loop_other)
  then have rk: "rhs t k = rhs s k" by (rule pw)
  have step: "reg (lane_loop (Suc k) rhs dst s) dst = (reg t dst)[k := rhs s k]"
    by (simp add: lane_loop_Suc_dst t_def [symmetric] rk)
  have k: "k < length (reg t dst)" using Suc.prems lt by simp
  show ?case
  proof (intro conjI allI impI)
    fix i assume "i < Suc k"
    then show "reg (lane_loop (Suc k) rhs dst s) dst ! i = rhs s i"
      using IH(1) k by (cases "i = k") (simp_all add: step)
  next
    fix i assume "Suc k \<le> i"
    then show "reg (lane_loop (Suc k) rhs dst s) dst ! i = reg s dst ! i"
      using IH(2) by (simp add: step)
  qed
qed

lemma memory_index_other:
  "n \<noteq> l \<Longrightarrow> m_registers (memory_index mem l) n = m_registers mem n"
  by (simp add: memory_index_def Let_def)

lemma memory_index_width [simp]:
  "m_register_width (memory_index mem l) = m_register_width mem"
  by (simp add: memory_index_def Let_def)

lemma memory_index_present:
  "m_registers mem l = Some v \<Longrightarrow> length v = m_register_width mem \<Longrightarrow> memory_index mem l = mem"
  by (simp add: memory_index_def Let_def)

lemma length_resize [simp]: "length (resize n xs) = n"
  by (simp add: resize_def)

lemma memory_index_length:
  "length (reg (m_registers (memory_index mem l)) l) = m_register_width mem"
  by (auto simp: memory_index_def Let_def reg_def split: option.splits)


lemma getInputOperand_location:
  "getInputOperand instr n = Inr op \<Longrightarrow>
     n < length (m_input_operands instr) \<and> m_location op = m_location (m_input_operands instr ! n)"
  by (auto simp: getInputOperand_def split: if_splits)

lemma getOutputOperand_location:
  "getOutputOperand instr n = Inr op \<Longrightarrow>
     n < length (m_output_operands instr) \<and> m_location op = m_location (m_output_operands instr ! n)"
  by (auto simp: getOutputOperand_def split: if_splits)

lemma input_location_mem:
  "n < length (m_input_operands instr) \<Longrightarrow>
     m_location (m_input_operands instr ! n) \<in> operand_locations instr"
  by (simp add: operand_locations_def)

lemma output_location_mem:
  "n < length (m_output_operands instr) \<Longrightarrow>
     m_location (m_output_operands instr ! n) \<in> operand_locations instr"
  by (simp add: operand_locations_def)

lemma getInputOperand_mem:
  "getInputOperand instr n = Inr op \<Longrightarrow> m_location op \<in> operand_locations instr"
  using getInputOperand_location input_location_mem by metis

lemma getOutputOperand_mem:
  "getOutputOperand instr n = Inr op \<Longrightarrow> m_location op \<in> operand_locations instr"
  using getOutputOperand_location output_location_mem by metis

lemma frame_step:
  "l \<in> L \<Longrightarrow> n \<notin> L \<Longrightarrow> m_registers (memory_index mem l) n = m_registers mem n"
  by (rule memory_index_other) auto

lemma frame_loop:
  "l \<in> L \<Longrightarrow> n \<notin> L \<Longrightarrow> lane_loop k rhs l s n = s n"
  by (rule lane_loop_other) auto

lemma add_frame:
  assumes "addInstrDecodeExecute fm instr = Inr fm'"
  shows "n \<notin> operand_locations instr \<Longrightarrow> m_registers (m_memory fm') n = m_registers (m_memory fm) n"
    and "m_trace_execution fm' = m_trace_execution fm"
    and "m_execution_trace fm' = m_execution_trace fm"
  using assms
  by (auto simp: addInstrDecodeExecute_def thenE_Inr_iff Let_def frame_step frame_loop
      dest!: getInputOperand_mem getOutputOperand_mem)

lemma sub_frame:
  assumes "subInstrDecodeExecute fm instr = Inr fm'"
  shows "n \<notin> operand_locations instr \<Longrightarrow> m_registers (m_memory fm') n = m_registers (m_memory fm) n"
    and "m_trace_execution fm' = m_trace_execution fm"
    and "m_execution_trace fm' = m_execution_trace fm"
  using assms
  by (auto simp: subInstrDecodeExecute_def thenE_Inr_iff Let_def frame_step frame_loop
      dest!: getInputOperand_mem getOutputOperand_mem)

lemma mul_frame:
  assumes "mulInstrDecodeExecute fm instr = Inr fm'"
  shows "n \<notin> operand_locations instr \<Longrightarrow> m_registers (m_memory fm') n = m_registers (m_memory fm) n"
    and "m_trace_execution fm' = m_trace_execution fm"
    and "m_execution_trace fm' = m_execution_trace fm"
  using assms
  by (auto simp: mulInstrDecodeExecute_def thenE_Inr_iff Let_def frame_step frame_loop
      dest!: getInputOperand_mem getOutputOperand_mem)

lemma muli_frame:
  assumes "muliInstrDecodeExecute fm instr = Inr fm'"
  shows "n \<notin> operand_locations instr \<Longrightarrow> m_registers (m_memory fm') n = m_registers (m_memory fm) n"
    and "m_trace_execution fm' = m_trace_execution fm"
    and "m_execution_trace fm' = m_execution_trace fm"
  using assms
  by (auto simp: muliInstrDecodeExecute_def thenE_Inr_iff Let_def frame_step frame_loop
      dest!: getInputOperand_mem getOutputOperand_mem)

lemma mac_frame:
  assumes "macInstrDecodeExecute fm instr = Inr fm'"
  shows "n \<notin> operand_locations instr \<Longrightarrow> m_registers (m_memory fm') n = m_registers (m_memory fm) n"
    and "m_trace_execution fm' = m_trace_execution fm"
    and "m_execution_trace fm' = m_execution_trace fm"
  using assms
  by (auto simp: macInstrDecodeExecute_def thenE_Inr_iff Let_def frame_step frame_loop
      dest!: getInputOperand_mem getOutputOperand_mem)

lemma maci_frame:
  assumes "maciInstrDecodeExecute fm instr = Inr fm'"
  shows "n \<notin> operand_locations instr \<Longrightarrow> m_registers (m_memory fm') n = m_registers (m_memory fm) n"
    and "m_trace_execution fm' = m_trace_execution fm"
    and "m_execution_trace fm' = m_execution_trace fm"
  using assms
  by (auto simp: maciInstrDecodeExecute_def thenE_Inr_iff Let_def frame_step frame_loop
      dest!: getInputOperand_mem getOutputOperand_mem)

lemma copy_frame:
  assumes "copyInstrDecodeExecute fm instr = Inr fm'"
  shows "n \<notin> operand_locations instr \<Longrightarrow> m_registers (m_memory fm') n = m_registers (m_memory fm) n"
    and "m_trace_execution fm' = m_trace_execution fm"
    and "m_execution_trace fm' = m_execution_trace fm"
  using assms
  by (auto simp: copyInstrDecodeExecute_def thenE_Inr_iff Let_def frame_step frame_loop
      dest!: getInputOperand_mem getOutputOperand_mem)


lemma dispatch_frame:
  assumes "decode_dispatch fm instr = Inr fm'"
  shows "n \<notin> operand_locations instr \<Longrightarrow> m_registers (m_memory fm') n = m_registers (m_memory fm) n"
    and "m_trace_execution fm' = m_trace_execution fm"
    and "m_execution_trace fm' = m_execution_trace fm"
  using assms
  by (auto simp: decode_dispatch_def add_frame sub_frame mul_frame muli_frame mac_frame
      maci_frame copy_frame split: if_splits)

lemma trace_inputs_memory:
  "trace_inputs fm instr = Inr fm' \<Longrightarrow> m_memory fm' = m_memory fm"
  by (auto simp: trace_inputs_def thenE_Inr_iff split: if_splits)

lemma trace_results_memory:
  "trace_results fm instr = Inr fm' \<Longrightarrow> m_memory fm' = m_memory fm"
  by (auto simp: trace_results_def thenE_Inr_iff split: if_splits)

lemma decode_frame:
  assumes "decode fm instr = Inr fm'" and "n \<notin> operand_locations instr"
  shows "m_registers (m_memory fm') n = m_registers (m_memory fm) n"
proof -
  from assms(1) obtain fm1 fm2 where
    1: "trace_inputs fm instr = Inr fm1" and 2: "decode_dispatch fm1 instr = Inr fm2"
    and 3: "trace_results fm2 instr = Inr fm'"
    by (auto simp: decode_def thenE_Inr_iff)
  show ?thesis
    using trace_inputs_memory [OF 1] dispatch_frame(1) [OF 2 assms(2)] trace_results_memory [OF 3]
    by simp
qed

text \<open>
  C6 (as stated, refuted). In the freshly constructed model (register width 8192) the
  name \<open>r\<close> is absent; \<open>readMemory\<close> allocates a register for it and returns it, but the
  register is empty: its width is 0, not 8192.
\<close>

theorem readMemory_init_allocates_empty:
  "m_registers (m_memory PISAFunctionalModel_init) ''r'' = None
   \<and> m_register_width (m_memory PISAFunctionalModel_init) = 8192
   \<and> m_registers (fst (readMemory (m_memory PISAFunctionalModel_init) ''r'')) ''r'' = Some []
   \<and> snd (readMemory (m_memory PISAFunctionalModel_init) ''r'') = []
   \<and> length (snd (readMemory (m_memory PISAFunctionalModel_init) ''r'')) \<noteq> 8192"
  by (simp add: PISAFunctionalModel_init_def readMemory_def Let_def reg_def)

text \<open>
  C6 (amended). For every register name absent from the register file,
  \<open>readMemory(name)\<close> lazily allocates an empty register (of width 0) under that name,
  leaves every other register as it is, and returns a reference to the new register;
  the access that allocates a zero-filled register of the configured width \<open>W\<close> for an
  absent name is the indexing operator \<^verbatim>\<open>operator[]\<close>.
\<close>

theorem readMemory_absent:
  assumes "m_registers mem name = None"
  shows "readMemory mem name = (mem\<lparr>m_registers := (m_registers mem)(name \<mapsto> [])\<rparr>, [])
         \<and> memory_index mem name =
             mem\<lparr>m_registers := (m_registers mem)(name \<mapsto> replicate (m_register_width mem) 0)\<rparr>"
  using assms by (simp add: readMemory_def memory_index_def Let_def reg_def resize_def)

theorem readMemory_absent_witness:
  "m_registers (m_memory PISAFunctionalModel_init) ''r'' = None
   \<and> readMemory (m_memory PISAFunctionalModel_init) ''r''
       = (\<lparr>m_registers = [''r'' \<mapsto> []], m_register_width = 8192\<rparr>, [])
   \<and> memory_index (m_memory PISAFunctionalModel_init) ''r''
       = \<lparr>m_registers = [''r'' \<mapsto> replicate 8192 0], m_register_width = 8192\<rparr>"
proof -
  have h: "m_registers (m_memory PISAFunctionalModel_init) ''r'' = None"
    by (simp add: PISAFunctionalModel_init_def)
  from readMemory_absent [OF h] show ?thesis
    using h by (simp add: PISAFunctionalModel_init_def)
qed

lemma copy_all_present:
  "(\<And>l. l \<in> set ls \<Longrightarrow> \<exists>v. m_registers mem l = Some v) \<Longrightarrow> \<exists>vs. copy_all mem ls = Inr vs"
proof (induction ls)
  case Nil
  then show ?case by simp
next
  case (Cons l ls)
  then obtain v where "m_registers mem l = Some v" by (meson list.set_intros(1))
  moreover from Cons obtain vs where "copy_all mem ls = Inr vs" by (meson list.set_intros(2))
  ultimately show ?case by (simp add: memory_copy_def)
qed

lemma trace_inputs_ok:
  assumes "\<And>l. l \<in> operand_locations instr \<Longrightarrow> \<exists>v. m_registers (m_memory fm) l = Some v"
  shows "\<exists>tr. trace_inputs fm instr = Inr (fm\<lparr>m_execution_trace := tr\<rparr>)
              \<and> (m_trace_execution fm \<longrightarrow> tr \<noteq> [])"
proof (cases "m_trace_execution fm")
  case True
  have "\<exists>vs. copy_all (m_memory fm) (map m_location (m_input_operands instr)) = Inr vs"
    using assms by (intro copy_all_present) (auto simp: operand_locations_def)
  then show ?thesis using True by (auto simp: trace_inputs_def)
next
  case False
  have "fm = fm\<lparr>m_execution_trace := m_execution_trace fm\<rparr>" by simp
  then show ?thesis using False unfolding trace_inputs_def by (metis (full_types))
qed

lemma trace_results_ok:
  assumes "\<And>l. l \<in> operand_locations instr \<Longrightarrow> \<exists>v. m_registers (m_memory fm) l = Some v"
    and "m_trace_execution fm \<longrightarrow> m_execution_trace fm \<noteq> []"
  shows "\<exists>fm'. trace_results fm instr = Inr fm' \<and> m_memory fm' = m_memory fm"
proof (cases "m_trace_execution fm")
  case True
  have "\<exists>vs. copy_all (m_memory fm) (map m_location (m_output_operands instr)) = Inr vs"
    using assms(1) by (intro copy_all_present) (auto simp: operand_locations_def)
  then show ?thesis using True assms(2) by (auto simp: trace_results_def)
next
  case False
  then show ?thesis by (simp add: trace_results_def)
qed

lemma lane_loop_dom:
  "(\<exists>v. lane_loop k rhs dst s n = Some v) \<longleftrightarrow> (\<exists>v. s n = Some v) \<or> (n = dst \<and> 0 < k)"
proof (cases "n = dst")
  case False
  then show ?thesis by (simp add: lane_loop_other)
next
  case True
  show ?thesis unfolding True by (cases k) (auto simp: lane_loop_def)
qed

lemma mac_execute:
  assumes outs: "m_output_operands instr = [dst]"
    and ins: "m_input_operands instr = [accum, src_1, src_2]"
    and present: "\<And>l. l \<in> operand_locations instr \<Longrightarrow>
        \<exists>v. m_registers (m_memory fm) l = Some v \<and> length v = m_register_width (m_memory fm)"
    and width: "m_multi_register_width fm \<le> m_register_width (m_memory fm)"
    and q: "vector_at (m_modulus_chain fm) (m_residual instr) = Inr q"
  shows "macInstrDecodeExecute fm instr =
     Inr (fm\<lparr>m_memory := (m_memory fm)\<lparr>m_registers :=
        lane_loop (m_multi_register_width fm)
          (\<lambda>s x. montgomeryAdd_mont (reg s (m_location accum) ! x)
                    (montgomeryMul_mont (reg s (m_location src_1) ! x)
                                        (reg s (m_location src_2) ! x) q) q)
          (m_location dst) (m_registers (m_memory fm))\<rparr>\<rparr>)"
proof -
  have locs: "m_location dst \<in> operand_locations instr" "m_location accum \<in> operand_locations instr"
      "m_location src_1 \<in> operand_locations instr" "m_location src_2 \<in> operand_locations instr"
    by (simp_all add: operand_locations_def outs ins)
  have id: "memory_index (m_memory fm) l = m_memory fm" if "l \<in> operand_locations instr" for l
    using present [OF that] by (auto intro: memory_index_present)
  show ?thesis
    by (simp add: macInstrDecodeExecute_def getOutputOperand_def getInputOperand_def outs ins
        Let_def id locs q lanes_checked_def width)
qed

lemma mac_decode:
  assumes name: "m_operation_name instr = ''mac''"
    and outs: "m_output_operands instr = [dst]"
    and ins: "m_input_operands instr = [accum, src_1, src_2]"
    and present: "\<And>l. l \<in> operand_locations instr \<Longrightarrow>
        \<exists>v. m_registers (m_memory fm) l = Some v \<and> length v = m_register_width (m_memory fm)"
    and width: "m_multi_register_width fm \<le> m_register_width (m_memory fm)"
    and q: "vector_at (m_modulus_chain fm) (m_residual instr) = Inr q"
  shows "\<exists>fm'. decode fm instr = Inr fm'
          \<and> (\<forall>i<m_multi_register_width fm.
                reg (m_registers (m_memory fm')) (m_location dst) ! i =
                  montgomeryAdd_mont (reg (m_registers (m_memory fm)) (m_location accum) ! i)
                    (montgomeryMul_mont (reg (m_registers (m_memory fm)) (m_location src_1) ! i)
                                        (reg (m_registers (m_memory fm)) (m_location src_2) ! i) q) q)"
proof -
  define rhs where "rhs = (\<lambda>s x. montgomeryAdd_mont (reg s (m_location accum) ! x)
                    (montgomeryMul_mont (reg s (m_location src_1) ! x)
                                        (reg s (m_location src_2) ! x) q) q)"
  define R where "R = m_registers (m_memory fm)"
  define R' where "R' = lane_loop (m_multi_register_width fm) rhs (m_location dst) R"
  have pres: "\<exists>v. m_registers (m_memory fm) l = Some v" if "l \<in> operand_locations instr" for l
    using present [OF that] by auto
  from trace_inputs_ok [of instr fm] pres obtain tr where
    t1: "trace_inputs fm instr = Inr (fm\<lparr>m_execution_trace := tr\<rparr>)"
    and tr: "m_trace_execution fm \<longrightarrow> tr \<noteq> []" by blast
  define fm1 where "fm1 = fm\<lparr>m_execution_trace := tr\<rparr>"
  have ex: "macInstrDecodeExecute fm1 instr =
      Inr (fm1\<lparr>m_memory := (m_memory fm1)\<lparr>m_registers := R'\<rparr>\<rparr>)"
    unfolding R'_def rhs_def R_def
    using mac_execute [of instr dst accum src_1 src_2 fm1 q] outs ins present width q
    by (simp add: fm1_def)
  define fm2 where "fm2 = fm1\<lparr>m_memory := (m_memory fm1)\<lparr>m_registers := R'\<rparr>\<rparr>"
  have d2: "decode_dispatch fm1 instr = Inr fm2"
    by (simp add: decode_dispatch_def name ex fm2_def)
  have "\<exists>v. m_registers (m_memory fm2) l = Some v" if "l \<in> operand_locations instr" for l
    using pres [OF that] lane_loop_dom [of "m_multi_register_width fm" rhs "m_location dst" R l]
    by (auto simp: fm2_def fm1_def R'_def R_def)
  moreover have "m_trace_execution fm2 \<longrightarrow> m_execution_trace fm2 \<noteq> []"
    using tr by (simp add: fm2_def fm1_def)
  ultimately obtain fm' where t3: "trace_results fm2 instr = Inr fm'"
    and m3: "m_memory fm' = m_memory fm2"
    using trace_results_ok [of instr fm2] by blast
  have dec: "decode fm instr = Inr fm'"
    by (simp add: decode_def t1 fm1_def [symmetric] d2 t3)
  have regs: "m_registers (m_memory fm') = R'" by (simp add: m3 fm2_def)
  have "m_location dst \<in> operand_locations instr" by (simp add: operand_locations_def outs)
  from present [OF this] have len: "m_multi_register_width fm \<le> length (reg R (m_location dst))"
    using width by (auto simp: R_def reg_def)
  have "\<forall>i<m_multi_register_width fm. reg R' (m_location dst) ! i = rhs R i"
    unfolding R'_def using lane_loop_lanes [of rhs "m_multi_register_width fm" R "m_location dst"] len
    by (simp add: rhs_def)
  then show ?thesis using dec regs by (auto simp: rhs_def R_def)
qed

lemma scenario_S3_facts:
  "m_operation_name mac_dst_a_b = ''mac''"
  "m_output_operands mac_dst_a_b = [Operand_bank ''dst'' 0]"
  "m_input_operands mac_dst_a_b = [Operand_bank ''dst'' 0, Operand_bank ''a'' 0, Operand_bank ''b'' 0]"
  "operand_locations mac_dst_a_b = {''dst'', ''a'', ''b''}"
  "m_residual mac_dst_a_b = 0"
  "m_multi_register_width (scenario_S3 q) = 8192"
  "m_register_width (m_memory (scenario_S3 q)) = 8192"
  "vector_at (m_modulus_chain (scenario_S3 q)) 0 = Inr q"
  "m_registers (m_memory (scenario_S3 q)) ''dst'' = Some (10 # replicate 8191 0)"
  "m_registers (m_memory (scenario_S3 q)) ''a'' = Some (2 # replicate 8191 0)"
  "m_registers (m_memory (scenario_S3 q)) ''b'' = Some (3 # replicate 8191 0)"
  "m_registers (m_memory (scenario_S3 q)) ''c'' = Some (7 # replicate 8191 0)"
  by (auto simp: mac_dst_a_b_def Mac_new_def Mac_init_def PISAInstruction_init_def
      zero_instruction_def operand_locations_def Operand_bank_fields scenario_S3_def
      PISAFunctionalModel_init_def vector_at_def)

lemma scenario_S3_present:
  "l \<in> operand_locations mac_dst_a_b \<Longrightarrow>
     \<exists>v. m_registers (m_memory (scenario_S3 q)) l = Some v
         \<and> length v = m_register_width (m_memory (scenario_S3 q))"
  by (auto simp: scenario_S3_facts)

text \<open>
  C2 (as stated, refuted). With the modulus chain \<open>[97]\<close> and \<open>dst = [10, ...]\<close>,
  \<open>a = [2, ...]\<close>, \<open>b = [3, ...]\<close>, executing \<^verbatim>\<open>mac dst a b 0\<close> leaves \<open>dst[0] = 10\<close>, not
  \<open>(10 + 2 \<cdot> 3) mod 97 = 16\<close>: the product is the Montgomery product, which is \<open>0\<close> here.
\<close>

theorem mac_scenario_S3_at_97:
  "decode_lane (scenario_S3 97) mac_dst_a_b ''dst'' 0 = Inr 10
   \<and> ((10 + 2 * 3) mod 97 :: nat) = 16"
proof -
  from mac_decode [of mac_dst_a_b "Operand_bank ''dst'' 0" "Operand_bank ''dst'' 0"
      "Operand_bank ''a'' 0" "Operand_bank ''b'' 0" "scenario_S3 97" 97]
  obtain fm' where d: "decode (scenario_S3 97) mac_dst_a_b = Inr fm'"
    and l: "\<forall>i<8192. reg (m_registers (m_memory fm')) ''dst'' ! i =
       montgomeryAdd_mont (reg (m_registers (m_memory (scenario_S3 97))) ''dst'' ! i)
         (montgomeryMul_mont (reg (m_registers (m_memory (scenario_S3 97))) ''a'' ! i)
            (reg (m_registers (m_memory (scenario_S3 97))) ''b'' ! i) 97) 97"
    using scenario_S3_present [of _ 97] by (auto simp: scenario_S3_facts Operand_bank_fields)
  from l have "reg (m_registers (m_memory fm')) ''dst'' ! 0 = 10"
    by (simp add: reg_def scenario_S3_facts montgomeryAdd_mont_def montgomeryMul_mont_def)
  then show ?thesis by (simp add: decode_lane_def d)
qed


lemma mac_lane_reference:
  assumes q: "unat q < 2 ^ 31" and q1: "unat q mod 2 ^ 16 = 1"
    and d: "d < q" and x: "x < q" and y: "y < q" and inv: "is_R_inverse (unat q) rinv"
  shows "unat (montgomeryAdd_mont d (montgomeryMul_mont x y q) q)
           = (unat d + montgomery_reference (unat x) (unat y) rinv (unat q)) mod unat q"
proof -
  have x': "unat x < unat q" and y': "unat y < unat q" and d': "unat d < unat q"
    using x y d by (simp_all add: word_less_nat_alt)
  have m: "unat (montgomeryMul_mont x y q) = mont_nat (unat x) (unat y) (unat q)"
    using q x' y' by (rule mont_to_nat)
  have ml: "unat (montgomeryMul_mont x y q) < unat q"
    unfolding m using q x' y' by (rule mont_nat_lt)
  have "unat (montgomeryMul_mont x y q) = montgomery_reference (unat x) (unat y) rinv (unat q)"
    unfolding m using q1 q x' y' inv by (rule mont_nat_reference)
  then show ?thesis using montgomeryAdd_mont_mod [OF q d' ml] by simp
qed

text \<open>
  C2 (amended). Executing a \<open>mac\<close> instruction on registers of the configured width
  stores, for every lane \<open>i\<close>,
  \<open>montgomeryAdd(dst[i], montgomeryMul(a[i], b[i], q), q)\<close> with \<open>q = q[residual]\<close> into
  \<open>dst[i]\<close>. For a modulus \<open>q < 2\<^sup>3\<^sup>1\<close> with \<open>q mod 2\<^sup>1\<^sup>6 = 1\<close> and lanes in \<open>[0, q)\<close> this
  is \<open>(dst[i] + a[i] \<cdot> b[i] \<cdot> R\<^sup>-\<^sup>1) mod q\<close> with \<open>R = 2\<^sup>3\<^sup>2\<close>: the multiply-accumulate of
  values in Montgomery form.
\<close>

theorem mac_lanes:
  assumes "m_operation_name instr = ''mac''"
    and "m_output_operands instr = [dst]"
    and "m_input_operands instr = [accum, a, b]"
    and "m_location accum = m_location dst"
    and "\<And>l. l \<in> operand_locations instr \<Longrightarrow>
        \<exists>v. m_registers (m_memory fm) l = Some v \<and> length v = m_register_width (m_memory fm)"
    and "m_multi_register_width fm \<le> m_register_width (m_memory fm)"
    and "vector_at (m_modulus_chain fm) (m_residual instr) = Inr q"
  shows "\<exists>fm'. decode fm instr = Inr fm'
          \<and> (\<forall>i<m_multi_register_width fm.
               (let d = reg (m_registers (m_memory fm)) (m_location dst) ! i;
                    x = reg (m_registers (m_memory fm)) (m_location a) ! i;
                    y = reg (m_registers (m_memory fm)) (m_location b) ! i;
                    d' = reg (m_registers (m_memory fm')) (m_location dst) ! i
                in d' = montgomeryAdd_mont d (montgomeryMul_mont x y q) q
                   \<and> (unat q < 2 ^ 31 \<and> unat q mod 2 ^ 16 = 1 \<and> d < q \<and> x < q \<and> y < q \<longrightarrow>
                        (\<forall>rinv. is_R_inverse (unat q) rinv \<longrightarrow>
                           unat d' = (unat d + montgomery_reference (unat x) (unat y) rinv (unat q))
                                       mod unat q))))"
proof -
  from mac_decode [OF assms(1,2,3,5,6,7)] obtain fm' where
    d: "decode fm instr = Inr fm'"
    and l: "\<forall>i<m_multi_register_width fm.
                reg (m_registers (m_memory fm')) (m_location dst) ! i =
                  montgomeryAdd_mont (reg (m_registers (m_memory fm)) (m_location dst) ! i)
                    (montgomeryMul_mont (reg (m_registers (m_memory fm)) (m_location a) ! i)
                                        (reg (m_registers (m_memory fm)) (m_location b) ! i) q) q"
    by (auto simp: assms(4))
  show ?thesis using d l by (auto simp: Let_def mac_lane_reference)
qed

theorem mac_lanes_witness:
  "unat (65537 :: u32) < 2 ^ 31 \<and> unat (65537 :: u32) mod 2 ^ 16 = 1
   \<and> is_R_inverse (unat (65537 :: u32)) 1
   \<and> vector_at (m_modulus_chain (scenario_S3 65537)) (m_residual mac_dst_a_b) = Inr 65537
   \<and> reg (m_registers (m_memory (scenario_S3 65537))) ''dst'' ! 0 = 10
   \<and> reg (m_registers (m_memory (scenario_S3 65537))) ''a'' ! 0 = 2
   \<and> reg (m_registers (m_memory (scenario_S3 65537))) ''b'' ! 0 = 3
   \<and> (\<exists>fm'. decode (scenario_S3 65537) mac_dst_a_b = Inr fm'
         \<and> reg (m_registers (m_memory fm')) ''dst'' ! 0 = 16)"
proof -
  have inv: "is_R_inverse (unat (65537 :: u32)) 1" by (simp add: is_R_inverse_def)
  have q: "vector_at (m_modulus_chain (scenario_S3 65537)) (m_residual mac_dst_a_b) = Inr 65537"
    by (simp add: scenario_S3_facts)
  have w: "m_multi_register_width (scenario_S3 65537) \<le> m_register_width (m_memory (scenario_S3 65537))"
    by (simp add: scenario_S3_facts)
  from mac_lanes [of mac_dst_a_b "Operand_bank ''dst'' 0" "Operand_bank ''dst'' 0"
      "Operand_bank ''a'' 0" "Operand_bank ''b'' 0" "scenario_S3 65537" 65537,
      OF scenario_S3_facts(1,2,3) refl scenario_S3_present w q]
  obtain fm' where d: "decode (scenario_S3 65537) mac_dst_a_b = Inr fm'"
    and l: "\<forall>i<8192.
               (let d = reg (m_registers (m_memory (scenario_S3 65537))) ''dst'' ! i;
                    x = reg (m_registers (m_memory (scenario_S3 65537))) ''a'' ! i;
                    y = reg (m_registers (m_memory (scenario_S3 65537))) ''b'' ! i;
                    d' = reg (m_registers (m_memory fm')) ''dst'' ! i
                in d' = montgomeryAdd_mont d (montgomeryMul_mont x y 65537) 65537
                   \<and> (unat (65537 :: u32) < 2 ^ 31 \<and> unat (65537 :: u32) mod 2 ^ 16 = 1
                        \<and> d < 65537 \<and> x < 65537 \<and> y < 65537 \<longrightarrow>
                        (\<forall>rinv. is_R_inverse (unat (65537 :: u32)) rinv \<longrightarrow>
                           unat d' = (unat d + montgomery_reference (unat x) (unat y) rinv (unat (65537 :: u32)))
                                       mod unat (65537 :: u32))))"
    by (auto simp: scenario_S3_facts Operand_bank_fields)
  have r: "reg (m_registers (m_memory (scenario_S3 65537))) ''dst'' ! 0 = 10"
      "reg (m_registers (m_memory (scenario_S3 65537))) ''a'' ! 0 = 2"
      "reg (m_registers (m_memory (scenario_S3 65537))) ''b'' ! 0 = 3"
    by (simp_all add: reg_def scenario_S3_facts)
  have "0 < (8192 :: nat)" by simp
  from l [rule_format, OF this] r
  have "reg (m_registers (m_memory fm')) ''dst'' ! 0
          = montgomeryAdd_mont 10 (montgomeryMul_mont 2 3 65537) 65537"
    by (simp add: Let_def)
  then have "reg (m_registers (m_memory fm')) ''dst'' ! 0 = 16"
    by (simp add: montgomeryAdd_mont_def montgomeryMul_mont_def)
  with d inv q r show ?thesis by auto
qed

text \<open>
  C10. For every arithmetic or copy instruction executed by \<open>decode\<close> (\<open>add\<close>, \<open>sub\<close>,
  \<open>mul\<close>, \<open>muli\<close>, \<open>mac\<close>, \<open>maci\<close>, \<open>copy\<close>), every register whose name is not the
  location of an input or output operand of the instruction holds the same value after
  \<open>decode\<close> as before (and a name that was not allocated stays unallocated).
\<close>

theorem decode_frame_registers:
  assumes "arithmetic_or_copy (m_operation_name instr)" and "decode fm instr = Inr fm'"
  shows "\<forall>n. n \<notin> operand_locations instr \<longrightarrow>
           m_registers (m_memory fm') n = m_registers (m_memory fm) n"
  using decode_frame [OF assms(2)] by blast

theorem decode_frame_registers_witness:
  "arithmetic_or_copy (m_operation_name mac_dst_a_b)
   \<and> ''c'' \<notin> operand_locations mac_dst_a_b
   \<and> m_registers (m_memory (scenario_S3 65537)) ''c'' = Some (7 # replicate 8191 0)
   \<and> (\<exists>fm'. decode (scenario_S3 65537) mac_dst_a_b = Inr fm'
         \<and> m_registers (m_memory fm') ''c'' = Some (7 # replicate 8191 0))"
proof -
  have a: "arithmetic_or_copy (m_operation_name mac_dst_a_b)"
    by (simp add: arithmetic_or_copy_def scenario_S3_facts)
  have c: "''c'' \<notin> operand_locations mac_dst_a_b" by (simp add: scenario_S3_facts)
  have q: "vector_at (m_modulus_chain (scenario_S3 65537)) (m_residual mac_dst_a_b) = Inr 65537"
    by (simp add: scenario_S3_facts)
  have w: "m_multi_register_width (scenario_S3 65537) \<le> m_register_width (m_memory (scenario_S3 65537))"
    by (simp add: scenario_S3_facts)
  from mac_decode [OF scenario_S3_facts(1,2,3) scenario_S3_present w q]
  obtain fm' where d: "decode (scenario_S3 65537) mac_dst_a_b = Inr fm'" by blast
  from decode_frame_registers [OF a d] c
  have "m_registers (m_memory fm') ''c'' = m_registers (m_memory (scenario_S3 65537)) ''c''"
    by blast
  with a c d show ?thesis by (auto simp: scenario_S3_facts)
qed

subsection \<open>Flat vectors and register slices\<close>

lemma rfind_below_append: "n \<le> length s \<Longrightarrow> rfind_below c (s @ t) n = rfind_below c s n"
  by (induction n) (simp_all add: nth_append)

lemma rfind_below_last:
  "c \<notin> set ys \<Longrightarrow> rfind_below c (xs @ c # ys) (length xs + 1 + length ys) = int (length xs)"
proof (induction ys rule: rev_induct)
  case Nil
  then show ?case by (simp add: nth_append)
next
  case (snoc z zs)
  define n where "n = length xs + 1 + length zs"
  define s where "s = xs @ c # zs"
  have zc: "z \<noteq> c" and IH: "rfind_below c s n = int (length xs)"
    using snoc by (auto simp: n_def s_def)
  have ls: "length s = n" by (simp add: s_def n_def)
  have nth: "(s @ [z]) ! n = z" using ls by (metis nth_append_length)
  have "rfind_below c (s @ [z]) (Suc n) = rfind_below c (s @ [z]) n"
    using nth zc by simp
  also have "\<dots> = rfind_below c s n" using ls by (intro rfind_below_append) simp
  finally have "rfind_below c (s @ [z]) (Suc n) = int (length xs)" using IH by simp
  then have A: "rfind_below c (s @ [z]) (Suc n) = int (length xs)" .
  have B: "xs @ c # zs @ [z] = s @ [z]" by (simp add: s_def)
  have C: "length xs + 1 + length (zs @ [z]) = Suc n" by (simp add: n_def)
  show ?case unfolding B C by (rule A)
qed

lemma show_int_nat_digits: "c \<in> set (show_int (int x)) \<Longrightarrow> is_digit c"
  by (simp add: show_int_def show_nat_digits)

lemma short_name_slice_name: "short_name (slice_name root x) = root"
proof -
  have nu: "CHR ''_'' \<notin> set (show_int (int x))"
    using show_int_nat_digits is_digit_not_special by blast
  have "rfind (CHR ''_'') (root @ CHR ''_'' # show_int (int x))
          (int (length (root @ CHR ''_'' # show_int (int x)))) = int (length root)"
    using rfind_below_last [OF nu, of root] by (simp add: rfind_def)
  then show ?thesis by (simp add: short_name_def slice_name_def Let_def)
qed

lemma slice_name_inj: "slice_name root x = slice_name root y \<Longrightarrow> x = y"
proof -
  assume "slice_name root x = slice_name root y"
  then have "show_nat x = show_nat y" by (simp add: slice_name_def show_int_def)
  then have "nat_of_digits (show_nat x) = nat_of_digits (show_nat y)" by simp
  then show "x = y" by (simp only: nat_of_digits_show_nat)
qed

lemma slice_name_index:
  assumes "x < 2 ^ 31"
  shows "length (slice_name root x) \<ge> length root + 1"
    and "stoi (take (length (slice_name root x) - (length root + 1))
               (drop (length root + 1) (slice_name root x))) = Inr (int x)"
proof -
  show "length (slice_name root x) \<ge> length root + 1" by (simp add: slice_name_def)
  have "drop (length root + 1) (slice_name root x) = show_int (int x)"
    and "length (slice_name root x) - (length root + 1) = length (show_int (int x))"
    by (simp_all add: slice_name_def)
  then have t: "take (length (slice_name root x) - (length root + 1))
               (drop (length root + 1) (slice_name root x)) = show_int (int x)"
    by (simp only: take_all_iff order_refl)
  have "stoi ([] @ show_int (int x) @ []) = Inr (int x)"
    using assms by (intro stoi_show_int) auto
  then have st: "stoi (show_int (int x)) = Inr (int x)" by simp
  show "stoi (take (length (slice_name root x) - (length root + 1))
               (drop (length root + 1) (slice_name root x))) = Inr (int x)"
    unfolding t by (rule st)
qed

lemma indexed_names_slices:
  "(\<And>x. x \<in> set xs \<Longrightarrow> x < 2 ^ 31) \<Longrightarrow>
   indexed_names (length root + 1) (map (slice_name root) xs)
     = Inr (map (\<lambda>x. (slice_name root x, int x)) xs)"
proof (induction xs)
  case Nil
  then show ?case by simp
next
  case (Cons x xs)
  have x: "x < 2 ^ 31" using Cons.prems by simp
  have "indexed_names (length root + 1) (map (slice_name root) xs)
     = Inr (map (\<lambda>x. (slice_name root x, int x)) xs)" using Cons by simp
  then show ?case using slice_name_index [OF x, of root] by simp
qed

lemma sort_key_slices:
  assumes "distinct xs" and "set xs = {0..<k}"
  shows "sort_key snd (map (\<lambda>x. (slice_name root x, int x)) xs)
           = map (\<lambda>x. (slice_name root x, int x)) [0..<k]"
proof -
  define g where "g = (\<lambda>x. (slice_name root x, int x))"
  have inj: "inj g" by (rule injI) (simp add: g_def)
  have injs: "inj_on snd (range g)" by (rule inj_onI) (auto simp: g_def)
  have sets: "set (sort_key snd (map g xs)) = set (map g [0..<k])"
    using assms(2) by simp
  have "sort_key snd (map g xs) = map g [0..<k]"
  proof (rule map_sorted_distinct_set_unique [where f = snd])
    show "inj_on snd (set (sort_key snd (map g xs)) \<union> set (map g [0..<k]))"
      by (rule inj_on_subset [OF injs]) auto
    show "sorted (map snd (sort_key snd (map g xs)))" by (rule sorted_sort_key)
    have "distinct (map g xs)" using assms(1) inj by (simp add: distinct_map inj_on_def)
    then show "distinct (map snd (sort_key snd (map g xs)))"
      by (simp add: distinct_map inj_on_subset [OF injs] image_subset_iff)
    have m: "map snd (map g [0..<k]) = map int [0..<k]" by (simp add: g_def comp_def)
    show "sorted (map snd (map g [0..<k]))"
      unfolding m by (simp add: sorted_map sorted_wrt_iff_nth_less)
    show "distinct (map snd (map g [0..<k]))"
      unfolding m by (simp add: distinct_map inj_on_def)
    show "set (sort_key snd (map g xs)) = set (map g [0..<k])" by (rule sets)
  qed
  then show ?thesis by (simp only: g_def)
qed

lemma flat_slice_take_drop:
  assumes "width * x + width \<le> length v" and "length v \<le> 2 ^ 32"
  shows "flat_slice width v x = take width (drop (width * x) v)"
proof (rule nth_equalityI)
  show "length (flat_slice width v x) = length (take width (drop (width * x) v))"
    using assms by (simp add: flat_slice_def)
  fix i assume "i < length (flat_slice width v x)"
  then have i: "i < width" by (simp add: flat_slice_def)
  then have "width * x + i < 2 ^ 32" using assms by linarith
  then have "(width * x + i) mod 2 ^ 32 = width * x + i" by (rule mod_less)
  then show "flat_slice width v x ! i = take width (drop (width * x) v) ! i"
    using assms i by (simp add: flat_slice_def)
qed

text \<open>
  Beyond \<open>2\<^sup>3\<^sup>2\<close> elements the index wraps: with the width 8192, slice \<open>2\<^sup>1\<^sup>9\<close> is the
  first slice again.
\<close>

lemma flat_slice_wraps:
  assumes "8192 \<le> length v"
  shows "flat_slice 8192 v (2 ^ 19) = take 8192 v"
proof (rule nth_equalityI)
  show "length (flat_slice 8192 v (2 ^ 19)) = length (take 8192 v)"
    using assms by (simp add: flat_slice_def)
  fix i assume "i < length (flat_slice 8192 v (2 ^ 19))"
  then have i: "i < 8192" by (simp add: flat_slice_def)
  have "(8192 * 2 ^ 19 + i) mod 2 ^ 32 = i" using i by simp
  then show "flat_slice 8192 v (2 ^ 19) ! i = take 8192 v ! i"
    using i by (simp add: flat_slice_def del: mod_add_self1 mod_add_self2)
qed

lemma concat_flat_slices:
  "width * k \<le> length v \<Longrightarrow> length v \<le> 2 ^ 32 \<Longrightarrow>
     concat (map (flat_slice width v) [0..<k]) = take (width * k) v"
proof (induction k)
  case 0
  then show ?case by simp
next
  case (Suc k)
  then have "width * k + width \<le> length v" by simp
  then have "flat_slice width v k = take width (drop (width * k) v)"
    using Suc.prems(2) by (rule flat_slice_take_drop)
  moreover have "concat (map (flat_slice width v) [0..<k]) = take (width * k) v"
    using Suc by simp
  moreover have "take (width * Suc k) v = take (width * k) v @ take width (drop (width * k) v)"
    using take_add [of "width * k" width v] by (simp add: add.commute)
  ultimately show ?case by simp
qed

lemma set_slices_fold:
  fixes sl :: "nat \<Rightarrow> u32 list" and root :: string
  defines "step \<equiv> (\<lambda>x rt. setMemory rt (slice_name root x, sl x))"
  shows "m_multi_register_width (m_model (fold step [0..<k] rt)) = m_multi_register_width (m_model rt)"
    and "x < k \<Longrightarrow> m_registers (m_memory (m_model (fold step [0..<k] rt))) (slice_name root x) = Some (sl x)"
    and "n \<notin> slice_name root ` {0..<k} \<Longrightarrow>
           m_registers (m_memory (m_model (fold step [0..<k] rt))) n = m_registers (m_memory (m_model rt)) n"
proof (induction k arbitrary: x)
  case 0
  {
    case 1 show ?case by simp
  next
    case 2 then show ?case by simp
  next
    case 3 show ?case by simp
  }
next
  case (Suc k)
  {
    case 1 show ?case using Suc(1) by (simp add: step_def setMemory_def writeMemory_def)
  next
    case 2
    show ?case
    proof (cases "x = k")
      case True
      then show ?thesis by (simp add: step_def setMemory_def writeMemory_def)
    next
      case False
      then have "x < k" using 2 by simp
      moreover have "slice_name root x \<noteq> slice_name root k" using False slice_name_inj by blast
      ultimately show ?thesis using Suc(2) [of x] by (simp add: step_def setMemory_def writeMemory_def)
    qed
  next
    case 3
    then have "n \<noteq> slice_name root k" and "n \<notin> slice_name root ` {0..<k}" by auto
    then show ?case using Suc(3) by (simp add: step_def setMemory_def writeMemory_def)
  }
qed

lemma read_all_present:
  "(\<And>n. n \<in> set names \<Longrightarrow> m_registers mem n \<noteq> None) \<Longrightarrow>
     read_all mem names = (mem, concat (map (reg (m_registers mem)) names))"
proof (induction names)
  case Nil
  then show ?case by simp
next
  case (Cons a as)
  have "m_registers mem a \<noteq> None" using Cons.prems by simp
  then have "readMemory mem a = (mem, reg (m_registers mem) a)"
    by (auto simp: readMemory_def Let_def)
  moreover have "read_all mem as = (mem, concat (map (reg (m_registers mem)) as))"
    using Cons by simp
  ultimately show ?case by simp
qed

lemma setParam_ok:
  assumes W: "0 < m_multi_register_width (m_model rt)"
    and len: "length v = k * m_multi_register_width (m_model rt)"
    and k: "k < 2 ^ 31"
    and W31: "m_multi_register_width (m_model rt) < 2 ^ 31"
  shows "setParamMemoryToMultiRegisterDeviceMemory rt (root, v) =
     Inr (fold (\<lambda>x rt'. setMemory rt' (slice_name root x,
                                       flat_slice (m_multi_register_width (m_model rt)) v x))
            [0..<k] rt)"
proof -
  have "k < 2 ^ 32" using k by simp
  then have "k mod 2 ^ 32 = k" by (rule mod_less)
  then show ?thesis
    using W len k W31 by (simp add: setParamMemoryToMultiRegisterDeviceMemory_def Let_def)
qed

lemma getParam_after_set:
  fixes rt :: PISAProgramRuntime and root :: string and v :: "u32 list" and k :: nat
  defines "W \<equiv> m_multi_register_width (m_model rt)"
  defines "rt' \<equiv> fold (\<lambda>x rt. setMemory rt (slice_name root x, flat_slice W v x)) [0..<k] rt"
  assumes len: "length v = k * W"
    and k: "k < 2 ^ 31"
    and len32: "k * W < 2 ^ 32"
    and stale: "no_stale_slices rt root k"
    and order: "is_register_order order rt'"
  shows "getParamMemoryFromMultiRegisterDeviceMemory order rt' root = Inr (rt', (root, v))"
proof -
  define R' where "R' = m_registers (m_memory (m_model rt'))"
  have a: "R' (slice_name root x) = Some (flat_slice W v x)" if "x < k" for x
    unfolding R'_def rt'_def using that by (rule set_slices_fold(2))
  have b: "R' n = m_registers (m_memory (m_model rt)) n" if "n \<notin> slice_name root ` {0..<k}" for n
    unfolding R'_def rt'_def using that by (rule set_slices_fold(3))
  define names where "names = getMatching3ParamRegisterNames order root"
  have dn: "distinct names"
    using order by (simp add: names_def getMatching3ParamRegisterNames_def is_register_order_def)
  have sn: "set names = slice_name root ` {0..<k}"
  proof (intro set_eqI iffI)
    fix n assume "n \<in> set names"
    then have d: "n \<in> dom R'" and s: "short_name n = root"
      using order by (auto simp: names_def getMatching3ParamRegisterNames_def
          is_register_order_def R'_def)
    show "n \<in> slice_name root ` {0..<k}"
    proof (rule ccontr)
      assume no: "n \<notin> slice_name root ` {0..<k}"
      then have "n \<in> dom (m_registers (m_memory (m_model rt)))" using d b [OF no] by auto
      with stale s no show False by (auto simp: no_stale_slices_def)
    qed
  next
    fix n assume "n \<in> slice_name root ` {0..<k}"
    then obtain x where x: "x < k" "n = slice_name root x" by auto
    then have "n \<in> dom R'" using a by auto
    then show "n \<in> set names"
      using order x by (simp add: names_def getMatching3ParamRegisterNames_def
          is_register_order_def R'_def short_name_slice_name)
  qed
  have "\<forall>y\<in>set names. \<exists>x. y = slice_name root x" using sn by auto
  then have "\<exists>xs. names = map (slice_name root) xs" by (simp only: ex_map_conv)
  then obtain xs where xs: "names = map (slice_name root) xs" by blast
  have inj: "inj (slice_name root)" by (rule injI) (rule slice_name_inj)
  have dxs: "distinct xs" using dn by (simp add: xs distinct_map)
  have sxs: "set xs = {0..<k}"
    using sn inj by (simp add: xs inj_image_eq_iff)
  have "indexed_names (length root + 1) names = Inr (map (\<lambda>x. (slice_name root x, int x)) xs)"
    unfolding xs
  proof (rule indexed_names_slices)
    fix x assume "x \<in> set xs"
    then have "x < k" using sxs by simp
    then show "x < 2 ^ 31" using k by simp
  qed
  moreover have "sort_key snd (map (\<lambda>x. (slice_name root x, int x)) xs)
           = map (\<lambda>x. (slice_name root x, int x)) [0..<k]"
    using dxs sxs by (rule sort_key_slices)
  moreover have "read_all (m_memory (m_model rt')) (map (slice_name root) [0..<k])
      = (m_memory (m_model rt'), concat (map (reg R') (map (slice_name root) [0..<k])))"
    unfolding R'_def by (rule read_all_present) (use a in \<open>auto simp: R'_def\<close>)
  moreover have "concat (map (reg R') (map (slice_name root) [0..<k])) = v"
  proof -
    have "reg R' (slice_name root x) = flat_slice W v x" if "x \<in> set [0..<k]" for x
      using a [of x] that by (simp add: reg_def)
    then have "map (\<lambda>x. reg R' (slice_name root x)) [0..<k] = map (flat_slice W v) [0..<k]"
      by (intro map_cong refl)
    then have m: "map (reg R') (map (slice_name root) [0..<k]) = map (flat_slice W v) [0..<k]"
      by (simp add: comp_def)
    have "concat (map (flat_slice W v) [0..<k]) = take (W * k) v"
      using len len32 by (intro concat_flat_slices) (simp_all add: mult.commute)
    also have "\<dots> = v" using len by (simp add: mult.commute)
    finally show ?thesis unfolding m .
  qed
  ultimately show ?thesis
    by (simp add: getParamMemoryFromMultiRegisterDeviceMemory_def Let_def names_def [symmetric]
        comp_def)
qed

lemma slice_name_x: "slice_name ''x'' 0 = ''x_0''" "slice_name ''x'' (Suc 0) = ''x_1''"
  by (simp_all add: slice_name_def show_int_def show_nat.simps digit_char_def)

lemma short_name_x: "short_name ''x_0'' = ''x''" "short_name ''x_1'' = ''x''"
  by (simp_all add: short_name_def rfind_def)

lemma stoi_0_1: "stoi ''0'' = Inr 0" "stoi ''1'' = Inr 1"
  by (simp_all add: stoi_def isspace_def is_digit_def nat_of_digits_def digit_val_def)

lemma stale_slice_general:
  assumes "length v = 8192"
  shows "set_then_get [''x_0'', ''x_1''] runtime_with_x_1 ''x'' v = Inr (v @ [9])"
proof -
  have fs: "flat_slice 8192 v 0 = v"
    using flat_slice_take_drop [of 8192 0 v] assms by simp
  have sc: "(8192 :: nat) div 8192 mod 2 ^ 32 = 1" by simp
  have W: "m_multi_register_width (m_model runtime_with_x_1) = 8192"
    by (simp add: runtime_with_x_1_def PISAFunctionalModel_init_def)
  have s: "setParamMemoryToMultiRegisterDeviceMemory runtime_with_x_1 (''x'', v)
      = Inr (setMemory runtime_with_x_1 (''x_0'', v))"
    using assms by (simp add: setParamMemoryToMultiRegisterDeviceMemory_def Let_def W fs sc slice_name_x)
  have i: "indexed_names 2 [''x_0'', ''x_1''] = Inr [(''x_0'', 0), (''x_1'', 1)]"
    by (simp add: stoi_0_1)
  have g: "map_sum id (\<lambda>r. snd (snd r))
      (getParamMemoryFromMultiRegisterDeviceMemory [''x_0'', ''x_1'']
         (setMemory runtime_with_x_1 (''x_0'', v)) ''x'') = Inr (v @ [9])"
    by (simp add: getParamMemoryFromMultiRegisterDeviceMemory_def Let_def
        getMatching3ParamRegisterNames_def stoi_0_1 setMemory_def writeMemory_def
        runtime_with_x_1_def readMemory_def reg_def short_name_x)
  show ?thesis
    using g by (cases "getParamMemoryFromMultiRegisterDeviceMemory [''x_0'', ''x_1'']
         (setMemory runtime_with_x_1 (''x_0'', v)) ''x''") (simp_all add: set_then_get_def s)
qed

text \<open>
  C7 (as stated, refuted). In the runtime that already holds a register \<open>x_1\<close> (stored
  by \<^verbatim>\<open>setImmediateToMultiRegisterDeviceMemory\<close>), \<^verbatim>\<open>setParamMemory("x", v)\<close> with a vector
  \<open>v\<close> of one register width followed by \<^verbatim>\<open>getParamMemory("x")\<close> returns \<open>v\<close> followed by
  the contents of \<open>x_1\<close>, not \<open>v\<close>.
\<close>

theorem set_then_get_with_stale_slice:
  "setImmediateToMultiRegisterDeviceMemory runtime_init (''x_1'', [9]) = Inr runtime_with_x_1
   \<and> length (replicate 8192 (5 :: u32)) = 1 * m_multi_register_width (m_model runtime_with_x_1)
   \<and> set_then_get [''x_0'', ''x_1''] runtime_with_x_1 ''x'' (replicate 8192 5)
       = Inr (replicate 8192 5 @ [9])"
proof -
  have "set_then_get [''x_0'', ''x_1''] runtime_with_x_1 ''x'' (replicate 8192 5)
       = Inr (replicate 8192 5 @ [9])"
    by (rule stale_slice_general) simp
  moreover have "setImmediateToMultiRegisterDeviceMemory runtime_init (''x_1'', [9])
      = Inr runtime_with_x_1"
    by (simp add: setImmediateToMultiRegisterDeviceMemory_def runtime_init_def
        runtime_with_x_1_def setMemory_def writeMemory_def PISAFunctionalModel_init_def)
  moreover have "m_multi_register_width (m_model runtime_with_x_1) = 8192"
    by (simp add: runtime_with_x_1_def PISAFunctionalModel_init_def)
  ultimately show ?thesis by simp
qed

text \<open>
  C7 (amended). For every root name and every flat vector \<open>v\<close> whose length is \<open>k \<cdot> W\<close>
  (\<open>W\<close> the register width) and below \<open>2\<^sup>3\<^sup>2\<close>, with \<open>k\<close> and \<open>W\<close> below \<open>2\<^sup>3\<^sup>1\<close> (for the
  built-in width 8192 this is \<open>k < 2\<^sup>1\<^sup>9\<close>), provided the register file holds no
  register, other than \<open>root_0\<close>, ..., \<open>root_(k-1)\<close>, whose name up to its last underscore
  is \<open>root\<close>: \<open>setParamMemory(root, v)\<close> succeeds, and \<open>getParamMemory(root)\<close> after it
  returns exactly \<open>v\<close>, whatever the iteration order of the register map (the \<open>W\<close>-wide
  chunks are stored under the names \<open>root_x\<close> and reassembled in ascending order of the
  number after the last underscore). If the length of the vector is not a multiple of
  \<open>W\<close>, \<open>setParamMemory\<close> fails with an error.
\<close>

theorem setParam_getParam_roundtrip:
  assumes "0 < m_multi_register_width (m_model rt)"
    and "length v = k * m_multi_register_width (m_model rt)"
    and "k * m_multi_register_width (m_model rt) < 2 ^ 32"
    and "k < 2 ^ 31"
    and "m_multi_register_width (m_model rt) < 2 ^ 31"
    and "no_stale_slices rt root k"
  shows "(\<exists>rt'. setParamMemoryToMultiRegisterDeviceMemory rt (root, v) = Inr rt'
            \<and> (\<forall>order. is_register_order order rt' \<longrightarrow>
                  getParamMemoryFromMultiRegisterDeviceMemory order rt' root = Inr (rt', (root, v))))
         \<and> (\<forall>w. length w mod m_multi_register_width (m_model rt) \<noteq> 0 \<longrightarrow>
               (\<exists>e. setParamMemoryToMultiRegisterDeviceMemory rt (root, w) = Inl e))"
proof (intro conjI allI impI)
  show "\<exists>rt'. setParamMemoryToMultiRegisterDeviceMemory rt (root, v) = Inr rt'
            \<and> (\<forall>order. is_register_order order rt' \<longrightarrow>
                  getParamMemoryFromMultiRegisterDeviceMemory order rt' root = Inr (rt', (root, v)))"
    using setParam_ok [OF assms(1,2,4,5), of root] getParam_after_set [OF assms(2,4,3,6)] by simp
next
  fix w :: "u32 list" assume "length w mod m_multi_register_width (m_model rt) \<noteq> 0"
  then show "\<exists>e. setParamMemoryToMultiRegisterDeviceMemory rt (root, w) = Inl e"
    using assms(1) by (simp add: setParamMemoryToMultiRegisterDeviceMemory_def Let_def)
qed

theorem setParam_getParam_roundtrip_witness:
  "0 < m_multi_register_width (m_model runtime_init)
   \<and> length (replicate 8192 (5 :: u32) @ replicate 8192 6)
       = 2 * m_multi_register_width (m_model runtime_init)
   \<and> 2 * m_multi_register_width (m_model runtime_init) < 2 ^ 32
   \<and> (2 :: nat) < 2 ^ 31
   \<and> m_multi_register_width (m_model runtime_init) < 2 ^ 31
   \<and> no_stale_slices runtime_init ''x'' 2
   \<and> set_then_get [''x_1'', ''x_0''] runtime_init ''x'' (replicate 8192 5 @ replicate 8192 6)
       = Inr (replicate 8192 5 @ replicate 8192 6)
   \<and> (\<exists>e. setParamMemoryToMultiRegisterDeviceMemory runtime_init (''x'', [1, 2, 3]) = Inl e)"
proof -
  define v :: "u32 list" where "v = replicate 8192 5 @ replicate 8192 6"
  have W: "m_multi_register_width (m_model runtime_init) = 8192"
    by (simp add: runtime_init_def PISAFunctionalModel_init_def)
  have h1: "0 < m_multi_register_width (m_model runtime_init)" by (simp add: W)
  have h2: "length v = 2 * m_multi_register_width (m_model runtime_init)" by (simp add: W v_def)
  have h3: "2 * m_multi_register_width (m_model runtime_init) < 2 ^ 32" by (simp add: W)
  have h5: "(2 :: nat) < 2 ^ 31" by simp
  have h6: "m_multi_register_width (m_model runtime_init) < 2 ^ 31" by (simp add: W)
  have h4: "no_stale_slices runtime_init ''x'' 2"
    by (simp add: no_stale_slices_def runtime_init_def PISAFunctionalModel_init_def)
  from setParam_getParam_roundtrip [OF h1 h2 h3 h5 h6 h4]
  obtain rt' where s: "setParamMemoryToMultiRegisterDeviceMemory runtime_init (''x'', v) = Inr rt'"
    and g: "\<And>order. is_register_order order rt' \<Longrightarrow>
        getParamMemoryFromMultiRegisterDeviceMemory order rt' ''x'' = Inr (rt', (''x'', v))"
    and f: "\<And>w. length w mod m_multi_register_width (m_model runtime_init) \<noteq> 0 \<Longrightarrow>
        \<exists>e. setParamMemoryToMultiRegisterDeviceMemory runtime_init (''x'', w) = Inl e"
    by blast
  have "rt' = fold (\<lambda>x rt'. setMemory rt' (slice_name ''x'' x,
                 flat_slice (m_multi_register_width (m_model runtime_init)) v x)) [0..<2] runtime_init"
    using setParam_ok [OF h1 h2 h5 h6, of "''x''"] s by simp
  also have "[0..<2] = [0, Suc 0]" by (simp add: upt_rec)
  finally have "dom (m_registers (m_memory (m_model rt'))) = {''x_0'', ''x_1''}"
    by (auto simp: setMemory_def writeMemory_def slice_name_x runtime_init_def
        PISAFunctionalModel_init_def)
  then have "is_register_order [''x_1'', ''x_0''] rt'"
    by (auto simp: is_register_order_def)
  from g [OF this] have "set_then_get [''x_1'', ''x_0''] runtime_init ''x'' v = Inr v"
    by (simp add: set_then_get_def s)
  moreover have "\<exists>e. setParamMemoryToMultiRegisterDeviceMemory runtime_init (''x'', [1, 2, 3]) = Inl e"
    by (rule f) (simp add: W)
  ultimately show ?thesis using h1 h2 h3 h6 h4 by (simp add: v_def)
qed

subsection \<open>Printing and parsing instructions\<close>

lemma split_on_single: "d \<notin> set a \<Longrightarrow> a \<noteq> [] \<Longrightarrow> split_on d a = [a]"
proof (induction a)
  case Nil then show ?case by simp
next
  case (Cons c a)
  then show ?case by (cases a) auto
qed

lemma split_on_cons: "d \<notin> set a \<Longrightarrow> rest \<noteq> [] \<Longrightarrow> split_on d (a @ d # rest) = a # split_on d rest"
  by (induction a) auto

lemma show_int_chars: "c \<in> set (show_int i) \<Longrightarrow> is_digit c \<or> c = CHR ''-''"
  by (auto simp: show_int_def dest: show_nat_digits split: if_splits)

lemma show_int_nonempty: "show_int i \<noteq> []"
  by (simp add: show_int_def show_nat_nonempty)

lemma show_int_plain:
  "c \<in> set (show_int i) \<Longrightarrow> \<not> isspace c \<and> c \<noteq> CHR '','' \<and> c \<noteq> CHR ''_'' \<and> c \<noteq> newline \<and> c \<noteq> CHR '' ''"
  by (auto dest!: show_int_chars simp: is_digit_def isspace_def newline_def)

lemma sint_range: "- (2 ^ 31) \<le> sint (w :: cint)" "sint (w :: cint) < 2 ^ 31"
  using sint_ge [of w] sint_lt [of w] by simp_all

lemma stoi_show_sint: "stoi (show_int (sint (w :: cint))) = Inr (sint w)"
  using stoi_show_int [OF sint_range [of w], of "[]" "[]"] by simp

lemma stoi_blank_show_sint: "stoi (CHR '' '' # show_int (sint (w :: cint))) = Inr (sint w)"
  using stoi_show_int [OF sint_range [of w], of "[]" "'' ''"] by (simp add: isspace_def)

lemma stoi_show_sint_blank: "stoi (CHR '' '' # show_int (sint (w :: cint)) @ '' '') = Inr (sint w)"
  using stoi_show_int [OF sint_range [of w], of "'' ''" "'' ''"] by (simp add: isspace_def is_digit_def)

lemma extract_token_blank:
  assumes "plain_location l" "isspace c"
  shows "extract_token (CHR '' '' # l @ c # rest) = (l, c # rest)"
proof -
  from assms obtain h t where l: "l = h # t" by (cases l) (auto simp: plain_location_def)
  have ns: "\<forall>x \<in> set l. \<not> isspace x" using assms by (simp add: plain_location_def)
  have 1: "dropWhile isspace (CHR '' '' # l @ c # rest) = l @ c # rest"
    using ns l by (simp add: isspace_def)
  have 2: "takeWhile (\<lambda>c. \<not> isspace c) (l @ c # rest) = l"
    using ns assms(2) by (simp add: takeWhile_append2)
  have 3: "dropWhile (\<lambda>c. \<not> isspace c) (l @ c # rest) = c # rest"
    using ns assms(2) by (simp add: dropWhile_append2)
  show ?thesis unfolding extract_token_def Let_def 1 2 3 ..
qed

lemma extract_token_last:
  assumes "\<forall>x \<in> set l. \<not> isspace x" "l \<noteq> []"
  shows "extract_token (CHR '' '' # l) = (l, [])"
proof -
  from assms obtain h t where l: "l = h # t" by (cases l) auto
  have 1: "dropWhile isspace (CHR '' '' # l) = l"
    using assms l by (simp add: isspace_def)
  have 2: "takeWhile (\<lambda>c. \<not> isspace c) l = l" using assms by simp
  have 3: "dropWhile (\<lambda>c. \<not> isspace c) l = []" using assms by simp
  show ?thesis unfolding extract_token_def Let_def 1 2 3 ..
qed

lemma Operand_parse_printed:
  assumes "plain_location l"
  shows "Operand_parse fb (CHR '' '' # l @ '' ('' @ show_int (sint (b :: cint)) @ '')'') = Inr (Operand_bank l b)"
proof -
  have sp: "isspace CHR '' ''" by (simp add: isspace_def)
  have 1: "extract_token (CHR '' '' # l @ CHR '' '' # (CHR ''('' # show_int (sint b) @ '')'')) = (l, CHR '' '' # (CHR ''('' # show_int (sint b) @ '')''))"
    by (rule extract_token_blank [OF assms sp])
  have 2: "extract_token (CHR '' '' # (CHR ''('' # show_int (sint b) @ '')'')) = (CHR ''('' # show_int (sint b) @ '')'', [])"
    by (rule extract_token_last) (auto dest: show_int_plain simp: isspace_def)
  show ?thesis
    using 1 2 by (simp add: Operand_parse_def stoi_show_sint Operand_bank_def setLocation_def Let_def show_int_nonempty thenE_def split: prod.splits)
qed

lemma getline_delim_at:
  "d \<notin> set a \<Longrightarrow> getline_delim d (token, a @ d # rest, True) = (a, rest, True)"
proof -
  assume "d \<notin> set a"
  then have "\<forall>x \<in> set a. x \<noteq> d" by auto
  then show ?thesis by (simp add: getline_delim_def takeWhile_append2 dropWhile_append2)
qed

lemma getline_delim_end:
  "d \<notin> set a \<Longrightarrow> getline_delim d (token, a, True) = (a, [], False)"
  by (simp add: getline_delim_def)

lemma getline_delim_exhausted: "getline_delim d (token, s, False) = (token, s, False)"
  by (simp add: getline_delim_def)

lemma WParam_parse_printed:
  "WParam_parse (CHR '' '' # print_WParam w) = Inr w"
proof -
  obtain r s b where w: "w = \<lparr>wp_residual = r, wp_stage = s, wp_block = b\<rparr>" by (cases w) auto
  have u: "CHR ''_'' \<notin> set (show_int i)" "newline \<notin> set (show_int i)" for i
    using show_int_plain by blast+
  have 0: "getline_delim (CHR ''_'') ([], '' w'' @ CHR ''_'' # rest, True) = ('' w'', rest, True)" for rest
    by (rule getline_delim_at) simp
  have 1: "getline_delim (CHR ''_'') ('' w'', show_int (sint r) @ CHR ''_'' # rest, True)
             = (show_int (sint r), rest, True)" for rest
    by (rule getline_delim_at) (rule u)
  have 2: "getline_delim (CHR ''_'') (show_int (sint r), show_int (sint s) @ CHR ''_'' # rest, True)
             = (show_int (sint s), rest, True)" for rest
    by (rule getline_delim_at) (rule u)
  have 3: "getline_delim newline (show_int (sint s), show_int (sint b), True)
             = (show_int (sint b), [], False)"
    by (rule getline_delim_end) (rule u)
  have p: "CHR '' '' # print_WParam w
      = '' w'' @ CHR ''_'' # show_int (sint r) @ CHR ''_'' # show_int (sint s) @ CHR ''_'' # show_int (sint b)"
    by (simp add: w print_WParam_def)
  show ?thesis
    unfolding p WParam_parse_def Let_def 0 1 2 3
    by (simp add: w stoi_show_sint thenE_def)
qed

text \<open>
  A w parameter with two numbers only: the fourth read finds the stream exhausted and
  the block is the stage read again.
\<close>

lemma WParam_parse_short:
  "WParam_parse ''w_1_2'' = Inr \<lparr>wp_residual = 1, wp_stage = 2, wp_block = 2\<rparr>"
  by code_simp

lemma whiteSpaceRemoved_plain:
  "plain_location l \<Longrightarrow> whiteSpaceRemoved (CHR '' '' # l) = l"
  by (auto simp: whiteSpaceRemoved_def plain_location_def isspace_def filter_id_conv)

lemma split_on_append:
  "d \<notin> set a \<Longrightarrow>
     split_on d (a @ s) = (case split_on d s of [] \<Rightarrow> (if a = [] then [] else [a]) | p # ps \<Rightarrow> (a @ p) # ps)"
proof (induction a)
  case Nil then show ?case by (simp split: list.splits)
next
  case (Cons c a) then show ?case by (auto split: list.splits)
qed

lemma show_int_no_comma: "CHR '','' \<notin> set (show_int i)"
  using show_int_plain by blast

lemma plain_no_comma: "plain_location l \<Longrightarrow> CHR '','' \<notin> set l"
  by (auto simp: plain_location_def)

lemma Operand_parse_printed_cons:
  "plain_location l \<Longrightarrow>
   Operand_parse fb (CHR '' '' # l @ CHR '' '' # CHR ''('' # show_int (sint (b :: cint)) @ [CHR '')''])
     = Inr (Operand_bank l b)"
  using Operand_parse_printed [of l fb b] by simp

lemma WParam_parse_printed_cons:
  "WParam_parse (CHR '' '' # CHR ''w'' # CHR ''_'' # show_int (sint (wp_residual w)) @ CHR ''_'' # show_int (sint (wp_stage w))
      @ CHR ''_'' # show_int (sint (wp_block w))) = Inr w"
  using WParam_parse_printed [of w] by (simp add: print_WParam_def)

lemma split_on_show_int: "split_on (CHR '','') (show_int r) = [show_int r]"
  by (rule split_on_single [OF show_int_no_comma show_int_nonempty])

lemma word_of_int_sint_cint: "word_of_int (sint (w :: cint)) = w"
  by simp

lemma filter_blank_plain: "plain_location l \<Longrightarrow> filter (\<lambda>c. c \<noteq> CHR '' '') l = l"
  by (auto simp: plain_location_def isspace_def filter_id_conv)

lemmas print_simps = print_instruction_def getInputOperand_def getOutputOperand_def
  print_Operand_def print_WParam_def thenE_def

lemmas split_simps = split_on_append show_int_no_comma plain_no_comma show_int_nonempty
  split_on_show_int

lemmas parse_simps = parse_line_def parseInstruction_def component_def whiteSpaceRemoved_def
  InstructionMap_def PISAInstruction_init_def thenE_def stoi_show_sint stoi_blank_show_sint
  Operand_parse_printed_cons WParam_parse_printed_cons addInputOperand_def addOutputOperand_def
  filter_blank_plain

lemma roundtrip_add:
  assumes "m_operation_name I = ''add''"
    "m_description I = description_Add"
    "m_output_block I"
    "m_output_operands I = [o1]"
    "m_input_operands I = [a, b]"
    "operand_fits OUTPUT_OPERAND o1"
    "operand_fits INPUT_OPERAND a"
    "operand_fits INPUT_OPERAND b"
  shows "\<exists>s J. print_instruction I = Inr s \<and> parse_line fresh fb s = Inr J \<and> same_instruction I J"
  using assms
  apply (simp add: print_simps description_Add_def operand_fits_def)
  apply (simp add: split_simps parse_simps Add_init_def description_Add_def)
  apply (simp add: same_instruction_def same_operand_def Operand_bank_fields Operand_immediate_def)
  done

lemma roundtrip_sub:
  assumes "m_operation_name I = ''sub''"
    "m_description I = description_Sub"
    "m_output_block I"
    "m_output_operands I = [o1]"
    "m_input_operands I = [a, b]"
    "operand_fits OUTPUT_OPERAND o1"
    "operand_fits INPUT_OPERAND a"
    "operand_fits INPUT_OPERAND b"
  shows "\<exists>s J. print_instruction I = Inr s \<and> parse_line fresh fb s = Inr J \<and> same_instruction I J"
  using assms
  apply (simp add: print_simps description_Sub_def operand_fits_def)
  apply (simp add: split_simps parse_simps Sub_init_def description_Sub_def)
  apply (simp add: same_instruction_def same_operand_def Operand_bank_fields Operand_immediate_def)
  done

lemma roundtrip_mul:
  assumes "m_operation_name I = ''mul''"
    "m_description I = description_Mul"
    "m_output_block I"
    "m_output_operands I = [o1]"
    "m_input_operands I = [a, b]"
    "operand_fits OUTPUT_OPERAND o1"
    "operand_fits INPUT_OPERAND a"
    "operand_fits INPUT_OPERAND b"
  shows "\<exists>s J. print_instruction I = Inr s \<and> parse_line fresh fb s = Inr J \<and> same_instruction I J"
  using assms
  apply (simp add: print_simps description_Mul_def operand_fits_def)
  apply (simp add: split_simps parse_simps Mul_init_def description_Mul_def)
  apply (simp add: same_instruction_def same_operand_def Operand_bank_fields Operand_immediate_def)
  done

lemma roundtrip_mac:
  assumes "m_operation_name I = ''mac''"
    "m_description I = description_Mac"
    "m_output_block I"
    "m_output_operands I = [o1]"
    "m_input_operands I = [o0, a, b]"
    "operand_fits INPUT_OUTPUT_OPERAND o1"
    "operand_fits INPUT_OUTPUT_OPERAND o0"
    "operand_fits INPUT_OPERAND a"
    "operand_fits INPUT_OPERAND b"
    "same_operand o0 o1"
  shows "\<exists>s J. print_instruction I = Inr s \<and> parse_line fresh fb s = Inr J \<and> same_instruction I J"
  using assms
  apply (simp add: print_simps description_Mac_def operand_fits_def)
  apply (simp add: split_simps parse_simps Mac_init_def description_Mac_def)
  apply (simp add: same_instruction_def same_operand_def Operand_bank_fields Operand_immediate_def)
  done

lemma roundtrip_maci:
  assumes "m_operation_name I = ''maci''"
    "m_description I = description_Maci"
    "m_output_block I"
    "m_output_operands I = [o1]"
    "m_input_operands I = [o0, a, c]"
    "operand_fits INPUT_OUTPUT_OPERAND o1"
    "operand_fits INPUT_OUTPUT_OPERAND o0"
    "operand_fits INPUT_OPERAND a"
    "operand_fits IMMEDIATE c"
    "same_operand o0 o1"
  shows "\<exists>s J. print_instruction I = Inr s \<and> parse_line fresh fb s = Inr J \<and> same_instruction I J"
  using assms
  apply (simp add: print_simps description_Maci_def operand_fits_def)
  apply (simp add: split_simps parse_simps Maci_init_def description_Maci_def)
  apply (simp add: same_instruction_def same_operand_def Operand_bank_fields Operand_immediate_def)
  done

lemma roundtrip_intt:
  assumes "m_operation_name I = ''intt''"
    "m_description I = description_Intt"
    "m_output_block I"
    "m_output_operands I = [o1, o2]"
    "m_input_operands I = [a, b]"
    "operand_fits OUTPUT_OPERAND o1"
    "operand_fits OUTPUT_OPERAND o2"
    "operand_fits INPUT_OPERAND a"
    "operand_fits INPUT_OPERAND b"
  shows "\<exists>s J. print_instruction I = Inr s \<and> parse_line fresh fb s = Inr J \<and> same_instruction I J"
  using assms
  apply (simp add: print_simps description_Intt_def operand_fits_def)
  apply (simp add: split_simps parse_simps Intt_init_def description_Intt_def)
  apply (simp add: same_instruction_def same_operand_def Operand_bank_fields Operand_immediate_def)
  done

lemma roundtrip_ntt:
  assumes "m_operation_name I = ''ntt''"
    "m_description I = description_Ntt"
    "m_output_block I"
    "m_output_operands I = [o1, o2]"
    "m_input_operands I = [a, b]"
    "operand_fits OUTPUT_OPERAND o1"
    "operand_fits OUTPUT_OPERAND o2"
    "operand_fits INPUT_OPERAND a"
    "operand_fits INPUT_OPERAND b"
  shows "\<exists>s J. print_instruction I = Inr s \<and> parse_line fresh fb s = Inr J \<and> same_instruction I J"
  using assms
  apply (simp add: print_simps description_Ntt_def operand_fits_def)
  apply (simp add: split_simps parse_simps Ntt_init_def description_Ntt_def)
  apply (simp add: same_instruction_def same_operand_def Operand_bank_fields Operand_immediate_def)
  done

lemma roundtrip_muli:
  assumes "m_operation_name I = ''muli''"
    "m_description I = description_Muli"
    "m_output_block I"
    "m_output_operands I = [o1]"
    "m_input_operands I = [a, c]"
    "operand_fits OUTPUT_OPERAND o1"
    "operand_fits INPUT_OPERAND a"
    "operand_fits IMMEDIATE c"
  shows "\<exists>s J. print_instruction I = Inr s \<and> parse_line fresh fb s = Inr J \<and> same_instruction I J"
  using assms
  apply (simp add: print_simps description_Muli_def operand_fits_def)
  apply (simp add: split_simps parse_simps Muli_init_def description_Muli_def)
  apply (simp add: same_instruction_def same_operand_def Operand_bank_fields Operand_immediate_def)
  done

lemma roundtrip_copy:
  assumes "m_operation_name I = ''copy''"
    "m_description I = description_Copy"
    "m_output_block I"
    "m_output_operands I = [o1]"
    "m_input_operands I = [a]"
    "operand_fits OUTPUT_OPERAND o1"
    "operand_fits INPUT_OPERAND a"
  shows "\<exists>s J. print_instruction I = Inr s \<and> parse_line fresh fb s = Inr J \<and> same_instruction I J"
  using assms
  apply (simp add: print_simps description_Copy_def operand_fits_def)
  apply (simp add: split_simps parse_simps Copy_init_def description_Copy_def)
  apply (simp add: same_instruction_def same_operand_def Operand_bank_fields Operand_immediate_def)
  done

lemma populated_roundtrip:
  assumes pop: "populated I"
  shows "\<exists>s J. print_instruction I = Inr s \<and> parse_line fresh fb s = Inr J \<and> same_instruction I J"
proof -
  from pop obtain create where c: "InstructionMap (m_operation_name I) = Some create"
    and d: "m_description I = m_description (create I)"
    by (auto simp: populated_def)
  from pop have flag: "m_output_block I" by (simp add: populated_def)
  from pop have outs: "list_all2 operand_fits
         (filter (\<lambda>x. x \<in> {OUTPUT_OPERAND, INPUT_OUTPUT_OPERAND}) (m_description I))
         (m_output_operands I)"
    and ins: "list_all2 operand_fits
         (filter (\<lambda>x. x \<in> {INPUT_OPERAND, INPUT_OUTPUT_OPERAND, IMMEDIATE}) (m_description I))
         (m_input_operands I)"
    and io: "INPUT_OUTPUT_OPERAND \<in> set (m_description I) \<longrightarrow>
          same_operand (hd (m_input_operands I)) (hd (m_output_operands I))"
    by (simp_all add: populated_def)
  from c consider (add) "m_operation_name I = ''add''" "create = Add_init" | (sub) "m_operation_name I = ''sub''" "create = Sub_init" | (mul) "m_operation_name I = ''mul''" "create = Mul_init" | (mac) "m_operation_name I = ''mac''" "create = Mac_init" | (maci) "m_operation_name I = ''maci''" "create = Maci_init" | (intt) "m_operation_name I = ''intt''" "create = Intt_init" | (ntt) "m_operation_name I = ''ntt''" "create = Ntt_init" | (muli) "m_operation_name I = ''muli''" "create = Muli_init" | (copy) "m_operation_name I = ''copy''" "create = Copy_init"
    by (auto simp: InstructionMap_def split: if_splits)
  then show ?thesis
  proof cases
    case add
    with d have desc: "m_description I = description_Add"
      by (simp add: Add_init_def PISAInstruction_init_def)
    from outs ins io obtain o1 a b where
      "m_output_operands I = [o1]"
      "m_input_operands I = [a, b]"
      "operand_fits OUTPUT_OPERAND o1"
      "operand_fits INPUT_OPERAND a"
      "operand_fits INPUT_OPERAND b"
      unfolding desc description_Add_def by (auto simp: list_all2_Cons1)
    then show ?thesis
      by (rule roundtrip_add [OF add(1) desc flag])
    next
    case sub
    with d have desc: "m_description I = description_Sub"
      by (simp add: Sub_init_def PISAInstruction_init_def)
    from outs ins io obtain o1 a b where
      "m_output_operands I = [o1]"
      "m_input_operands I = [a, b]"
      "operand_fits OUTPUT_OPERAND o1"
      "operand_fits INPUT_OPERAND a"
      "operand_fits INPUT_OPERAND b"
      unfolding desc description_Sub_def by (auto simp: list_all2_Cons1)
    then show ?thesis
      by (rule roundtrip_sub [OF sub(1) desc flag])
    next
    case mul
    with d have desc: "m_description I = description_Mul"
      by (simp add: Mul_init_def PISAInstruction_init_def)
    from outs ins io obtain o1 a b where
      "m_output_operands I = [o1]"
      "m_input_operands I = [a, b]"
      "operand_fits OUTPUT_OPERAND o1"
      "operand_fits INPUT_OPERAND a"
      "operand_fits INPUT_OPERAND b"
      unfolding desc description_Mul_def by (auto simp: list_all2_Cons1)
    then show ?thesis
      by (rule roundtrip_mul [OF mul(1) desc flag])
    next
    case mac
    with d have desc: "m_description I = description_Mac"
      by (simp add: Mac_init_def PISAInstruction_init_def)
    from outs ins io obtain o1 o0 a b where
      "m_output_operands I = [o1]"
      "m_input_operands I = [o0, a, b]"
      "operand_fits INPUT_OUTPUT_OPERAND o1"
      "operand_fits INPUT_OUTPUT_OPERAND o0"
      "operand_fits INPUT_OPERAND a"
      "operand_fits INPUT_OPERAND b"
      "same_operand o0 o1"
      unfolding desc description_Mac_def by (auto simp: list_all2_Cons1)
    then show ?thesis
      by (rule roundtrip_mac [OF mac(1) desc flag])
    next
    case maci
    with d have desc: "m_description I = description_Maci"
      by (simp add: Maci_init_def PISAInstruction_init_def)
    from outs ins io obtain o1 o0 a c where
      "m_output_operands I = [o1]"
      "m_input_operands I = [o0, a, c]"
      "operand_fits INPUT_OUTPUT_OPERAND o1"
      "operand_fits INPUT_OUTPUT_OPERAND o0"
      "operand_fits INPUT_OPERAND a"
      "operand_fits IMMEDIATE c"
      "same_operand o0 o1"
      unfolding desc description_Maci_def by (auto simp: list_all2_Cons1)
    then show ?thesis
      by (rule roundtrip_maci [OF maci(1) desc flag])
    next
    case intt
    with d have desc: "m_description I = description_Intt"
      by (simp add: Intt_init_def PISAInstruction_init_def)
    from outs ins io obtain o1 o2 a b where
      "m_output_operands I = [o1, o2]"
      "m_input_operands I = [a, b]"
      "operand_fits OUTPUT_OPERAND o1"
      "operand_fits OUTPUT_OPERAND o2"
      "operand_fits INPUT_OPERAND a"
      "operand_fits INPUT_OPERAND b"
      unfolding desc description_Intt_def by (auto simp: list_all2_Cons1)
    then show ?thesis
      by (rule roundtrip_intt [OF intt(1) desc flag])
    next
    case ntt
    with d have desc: "m_description I = description_Ntt"
      by (simp add: Ntt_init_def PISAInstruction_init_def)
    from outs ins io obtain o1 o2 a b where
      "m_output_operands I = [o1, o2]"
      "m_input_operands I = [a, b]"
      "operand_fits OUTPUT_OPERAND o1"
      "operand_fits OUTPUT_OPERAND o2"
      "operand_fits INPUT_OPERAND a"
      "operand_fits INPUT_OPERAND b"
      unfolding desc description_Ntt_def by (auto simp: list_all2_Cons1)
    then show ?thesis
      by (rule roundtrip_ntt [OF ntt(1) desc flag])
    next
    case muli
    with d have desc: "m_description I = description_Muli"
      by (simp add: Muli_init_def PISAInstruction_init_def)
    from outs ins io obtain o1 a c where
      "m_output_operands I = [o1]"
      "m_input_operands I = [a, c]"
      "operand_fits OUTPUT_OPERAND o1"
      "operand_fits INPUT_OPERAND a"
      "operand_fits IMMEDIATE c"
      unfolding desc description_Muli_def by (auto simp: list_all2_Cons1)
    then show ?thesis
      by (rule roundtrip_muli [OF muli(1) desc flag])
    next
    case copy
    with d have desc: "m_description I = description_Copy"
      by (simp add: Copy_init_def PISAInstruction_init_def)
    from outs ins io obtain o1 a where
      "m_output_operands I = [o1]"
      "m_input_operands I = [a]"
      "operand_fits OUTPUT_OPERAND o1"
      "operand_fits INPUT_OPERAND a"
      unfolding desc description_Copy_def by (auto simp: list_all2_Cons1)
    then show ?thesis
      by (rule roundtrip_copy [OF copy(1) desc flag])
  qed
qed

lemma stoi_13: "stoi ''13'' = Inr 13" by code_simp
lemma stoi_0: "stoi '' 0'' = Inr 0" by code_simp
lemma stoi_2: "stoi ''2'' = Inr 2" by code_simp
lemma stoi_0_plain: "stoi ''0'' = Inr 0" by code_simp
lemma split_S5: "split_on (CHR '','') line_S5 = [''13'', '' add'', '' r_0_1 (2)'', '' r_0_2 (0)'', '' r_0_3 (0)'', '' 0'']"
  by code_simp
lemma extract_token_S5: "extract_token '' r_0_1 (2)'' = (''r_0_1'', '' (2)'')" 
  "extract_token '' r_0_2 (0)'' = (''r_0_2'', '' (0)'')"
  "extract_token '' r_0_3 (0)'' = (''r_0_3'', '' (0)'')"
  "extract_token '' (2)'' = (''(2)'', [])"
  "extract_token '' (0)'' = (''(0)'', [])"
  by code_simp+

lemma Operand_parse_S5:
  "Operand_parse fb '' r_0_1 (2)'' = Inr (Operand_bank ''r_0_1'' 2)"
  "Operand_parse fb '' r_0_2 (0)'' = Inr (Operand_bank ''r_0_2'' 0)"
  "Operand_parse fb '' r_0_3 (0)'' = Inr (Operand_bank ''r_0_3'' 0)"
  by (simp_all add: Operand_parse_def extract_token_S5 stoi_2 stoi_0_plain Operand_bank_def setLocation_def thenE_def split: prod.splits)

lemma parse_S5:
  "parse_line fresh fb line_S5 =
     Inr ((Add_init fresh)\<lparr>m_pmd_log2 := 13, m_output_operands := [Operand_bank ''r_0_1'' 2],
            m_input_operands := [Operand_bank ''r_0_2'' 0, Operand_bank ''r_0_3'' 0], m_residual := 0\<rparr>)"
  apply (simp add: parse_line_def split_S5 parseInstruction_def component_def whiteSpaceRemoved_def InstructionMap_def)
  apply (simp add: Add_init_def PISAInstruction_init_def description_Add_def stoi_13 stoi_0 Operand_parse_S5 thenE_def
      addInputOperand_def addOutputOperand_def whiteSpaceRemoved_def)
  done

lemma show_int_13: "show_int 13 = ''13''" "show_int 0 = ''0''" "show_int 2 = ''2''"
  by code_simp+

lemma parse_print_S5:
  "thenE (parse_line fresh fb line_S5) (\<lambda>J. print_instruction (J\<lparr>m_output_block := True\<rparr>))
     = Inr ''13, add , r_0_1 (2), r_0_2 (0), r_0_3 (0), 0''"
  by (simp add: parse_S5 thenE_def print_instruction_def Add_init_def PISAInstruction_init_def description_Add_def
      getInputOperand_def getOutputOperand_def print_Operand_def Operand_bank_fields show_int_13)

lemma populated_S5: "populated (instruction_S5 True ''r_0_1'' 2)"
  by (simp add: populated_def instruction_S5_def Add_new_def Add_init_def PISAInstruction_init_def
      description_Add_def InstructionMap_def operand_fits_def plain_location_def isspace_def
      Operand_bank_fields)

text \<open>
  C4 (as stated, refuted). The instruction \<^verbatim>\<open>add r_0_1 (2), r_0_2 (0), r_0_3 (0)\<close> with the
  output-block flag cleared prints without its banks, and so does the same instruction
  with bank 5 for the output: the text does not determine the banks, and the parser
  leaves the bank of an operand without one uninitialised (here 0, not 2). Parsing the
  line of scenario S5 into zero-initialised memory and printing the result drops the
  banks as well, because nothing sets the flag of a parsed instruction. With the flag
  set, an output location \<open>a b\<close> is printed as it is and parsed back as \<open>a\<close>.
\<close>

theorem parse_print_loses_operand_fields:
  "print_instruction (instruction_S5 False ''r_0_1'' 2) = Inr ''13, add , r_0_1, r_0_2, r_0_3, 0''
   \<and> print_instruction (instruction_S5 False ''r_0_1'' 5) = Inr ''13, add , r_0_1, r_0_2, r_0_3, 0''
   \<and> map m_bank (m_output_operands (instruction_S5 False ''r_0_1'' 2)) = [2]
   \<and> map m_bank (m_output_operands (instruction_S5 False ''r_0_1'' 5)) = [5]
   \<and> map_sum id (\<lambda>J. map m_bank (m_output_operands J))
        (parse_line zero_instruction (\<lambda>x k. 0) ''13, add , r_0_1, r_0_2, r_0_3, 0'') = Inr [0]
   \<and> thenE (parse_line zero_instruction (\<lambda>x k. 0) line_S5) print_instruction
        = Inr ''13, add , r_0_1, r_0_2, r_0_3, 0''
   \<and> print_instruction (instruction_S5 True ''a b'' 2)
        = Inr ''13, add , a b (2), r_0_2 (0), r_0_3 (0), 0''
   \<and> map m_location (m_output_operands (instruction_S5 True ''a b'' 2)) = [''a b'']
   \<and> map_sum id (\<lambda>J. map m_location (m_output_operands J))
        (parse_line zero_instruction (\<lambda>x k. 0) ''13, add , a b (2), r_0_2 (0), r_0_3 (0), 0'')
        = Inr [''a'']"
  by code_simp

text \<open>
  C4 (amended). For each of the nine opcodes and every populated instruction \<open>I\<close> of it
  (the description of the opcode, one operand per operand parameter with a location
  that is not empty and has neither white space nor a comma, immediates exactly at the
  immediate parameters, the input-output operand of \<^verbatim>\<open>mac\<close> and \<^verbatim>\<open>maci\<close> first among the
  inputs and the outputs, the output-block flag set), printing succeeds and parsing
  the printed line yields an instruction with the same content in every field of the
  description: name, description, the location of every operand and the bank of every
  operand that is not an immediate, and the numeric parameters. This holds whatever
  the uninitialised members of the new instruction and operands contain. Parsing the
  line \<^verbatim>\<open>13, add, r_0_1 (2), r_0_2 (0), r_0_3 (0), 0\<close> and printing the result with the
  output-block flag set gives \<^verbatim>\<open>13, add , r_0_1 (2), r_0_2 (0), r_0_3 (0), 0\<close>.
\<close>

theorem parse_print_roundtrip:
  "(populated I \<longrightarrow>
      (\<exists>s J. print_instruction I = Inr s \<and> parse_line fresh fresh_bank s = Inr J
         \<and> same_instruction I J))
   \<and> thenE (parse_line fresh fresh_bank line_S5)
         (\<lambda>J. print_instruction (J\<lparr>m_output_block := True\<rparr>))
       = Inr ''13, add , r_0_1 (2), r_0_2 (0), r_0_3 (0), 0''"
proof (intro conjI impI)
  assume "populated I"
  then show "\<exists>s J. print_instruction I = Inr s \<and> parse_line fresh fresh_bank s = Inr J
         \<and> same_instruction I J"
    by (rule populated_roundtrip)
next
  show "thenE (parse_line fresh fresh_bank line_S5)
         (\<lambda>J. print_instruction (J\<lparr>m_output_block := True\<rparr>))
       = Inr ''13, add , r_0_1 (2), r_0_2 (0), r_0_3 (0), 0''"
    by (rule parse_print_S5)
qed

theorem parse_print_roundtrip_witness:
  "populated (instruction_S5 True ''r_0_1'' 2)
   \<and> (\<exists>s J. print_instruction (instruction_S5 True ''r_0_1'' 2) = Inr s
         \<and> parse_line zero_instruction (\<lambda>x k. 0) s = Inr J
         \<and> same_instruction (instruction_S5 True ''r_0_1'' 2) J)"
  using parse_print_roundtrip [of "instruction_S5 True ''r_0_1'' 2" zero_instruction "\<lambda>x k. 0"]
    populated_S5
  by blast

subsection \<open>The dependency graph and its layers\<close>

text \<open>
  C9 (as stated, refuted). For \<^verbatim>\<open>add c a b; add d a b; mul e c d\<close>, the layer peel of the
  graph that \<open>createGraph\<close> builds returns five layers, not two: the graph holds the
  data nodes as well, and its first layer is the input registers \<open>a\<close> and \<open>b\<close>.
\<close>

theorem input_layers_of_combined_graph:
  "input_layers_of scenario_S6 =
     Some (Inr [[(''a'', REGISTER_ADDRESS, None), (''b'', REGISTER_ADDRESS, None)],
                [(''add_0'', OPERATION, Some ''add''), (''add_4'', OPERATION, Some ''add'')],
                [(''c'', REGISTER_ADDRESS, None), (''d'', REGISTER_ADDRESS, None)],
                [(''mul_6'', OPERATION, Some ''mul'')],
                [(''e'', REGISTER_ADDRESS, None)]])"
  by code_simp

text \<open>
  C9 (amended). For \<^verbatim>\<open>add c a b; add d a b; mul e c d\<close>, the layer peel of the
  instruction-only view (\<open>getInstructionGraph\<close>) of the dependency graph built from
  those instructions returns exactly two layers: the first holds the two \<open>add\<close>
  operations, the second the \<open>mul\<close> operation.
\<close>

theorem instruction_layers_of_scenario_S6:
  "instruction_layers_of scenario_S6 =
     Some (Inr [[(''add_0'', OPERATION, Some ''add''), (''add_4'', OPERATION, Some ''add'')],
                [(''mul_6'', OPERATION, Some ''mul'')]])"
  by code_simp

subsection \<open>Memory dump and load\<close>

text \<open>
  C3 (code defect). The dump of the model whose iNTT twiddle map holds \<open>[[5]]\<close> under
  the key \<open>1\<close> is the line \<^verbatim>\<open>intt,1,0,5\<close> followed by the (empty) modulus chain. Loading
  it into a model that holds \<open>[[0]]\<close> under that key leaves \<open>[[0]]\<close> in the map: the dumped
  entry is assigned to a copy of the table and dropped. Loading it into the model as
  constructed writes beyond the end of that (empty) copy; loading the dump of a model
  with an NTT table into the model as constructed writes beyond the end of the table,
  which is resized to the index, not to the index plus one.
\<close>

theorem dump_load_twiddles_not_restored:
  "dumpMemoryToStream [''1''] [] (model_intt 5)
     = ''intt,1,0,5'' @ [newline] @ ''modulus_chain'' @ [newline]
   \<and> m_twiddle_intt (model_intt 5) ''1'' = Some [[5]]
   \<and> map_sum id (\<lambda>fm. m_twiddle_intt fm ''1'')
         (readMemoryFromStream (model_intt 0) (dumpMemoryToStream [''1''] [] (model_intt 5)))
       = Inr (Some [[0]])
   \<and> map_sum id (\<lambda>fm. m_twiddle_intt fm ''1'')
         (readMemoryFromStream PISAFunctionalModel_init
            (dumpMemoryToStream [''1''] [] (model_intt 5)))
       = Inl UndefinedBehaviour
   \<and> dumpMemoryToStream [] [] model_ntt = ''ntt,0,7'' @ [newline] @ ''modulus_chain'' @ [newline]
   \<and> map_sum id m_twiddle_ntt
         (readMemoryFromStream PISAFunctionalModel_init (dumpMemoryToStream [] [] model_ntt))
       = Inl UndefinedBehaviour"
  by code_simp


end
